(* ===== verification/Prelude.thy ===== *)
theory Prelude
  imports Complex_Main
begin

text \<open>
  Shared vocabulary of the development: the Python exceptions the modelled code raises or
  catches, results of fallible code as sums, bounded deques as lists, the Python idioms on
  sequences the code uses (negative slices, \<open>next\<close> with a default, string split and strip),
  and the generic lemmas the components share.  The collections \<open>res_simps\<close>, \<open>deque_simps\<close>
  and \<open>model_defs\<close> are filled here and in the component theories.
\<close>

named_theorems res_simps
named_theorems deque_simps
named_theorems model_defs

section \<open>Exceptions and results\<close>

datatype py_exc =
    ValueError
  | ValidationError
  | TypeError
  | KeyError
  | IndexError
  | ZeroDivisionError
  | RuntimeError
  | AssertionError
  | AttributeError
  | HTTPStatusError int
  | TransportError
  | AuthError

type_synonym 'a res = "py_exc + 'a"

definition bind_res :: "'a res \<Rightarrow> ('a \<Rightarrow> 'b res) \<Rightarrow> 'b res" where
  "bind_res r f = (case r of Inl e \<Rightarrow> Inl e | Inr x \<Rightarrow> f x)"

text \<open>\<open>x.__dict__\<close> of an instance of a dataclass with \<open>slots=True\<close>, which has no such attribute.\<close>

definition slots_dict :: "'a \<Rightarrow> 'b res" where
  "slots_dict x = Inl AttributeError"

definition is_ok :: "'a res \<Rightarrow> bool" where
  "is_ok r = (case r of Inl e \<Rightarrow> False | Inr x \<Rightarrow> True)"

lemma bind_res_simps [simp, res_simps]:
  "bind_res (Inl e) f = Inl e"
  "bind_res (Inr x) f = f x"
  by (simp_all add: bind_res_def)

lemma is_ok_simps [simp, res_simps]:
  "is_ok (Inl e) = False"
  "is_ok (Inr x) = True"
  by (simp_all add: is_ok_def)

lemma bind_res_eq_Inr [res_simps]:
  "bind_res r f = Inr y \<longleftrightarrow> (\<exists>x. r = Inr x \<and> f x = Inr y)"
  by (cases r) auto

lemma bind_res_eq_Inl [res_simps]:
  "bind_res r f = Inl e \<longleftrightarrow> r = Inl e \<or> (\<exists>x. r = Inr x \<and> f x = Inl e)"
  by (cases r) auto

section \<open>Bounded deques: \<open>collections.deque(maxlen=n)\<close>\<close>

text \<open>Appending on the right drops elements on the left once the length would exceed \<open>n\<close>.\<close>

definition take_last :: "nat \<Rightarrow> 'a list \<Rightarrow> 'a list" where
  "take_last n xs = drop (length xs - n) xs"

definition dq_append :: "nat \<Rightarrow> 'a list \<Rightarrow> 'a \<Rightarrow> 'a list" where
  "dq_append n xs x = take_last n (xs @ [x])"

lemma length_take_last [simp, deque_simps]: "length (take_last n xs) = min n (length xs)"
  by (simp add: take_last_def)

lemma take_last_all [simp, deque_simps]: "length xs \<le> n \<Longrightarrow> take_last n xs = xs"
  by (simp add: take_last_def)

lemma take_last_0 [simp, deque_simps]: "take_last 0 xs = []"
  by (simp add: take_last_def)

lemma set_take_last: "set (take_last n xs) \<subseteq> set xs"
  by (simp add: take_last_def set_drop_subset)

lemma take_last_append_take_last [simp, deque_simps]:
  "take_last n (take_last n xs @ ys) = take_last n (xs @ ys)"
  by (cases "length xs \<le> n") (auto simp: take_last_def add.commute)

lemma length_dq_append_le: "length (dq_append n xs x) \<le> n"
  by (simp add: dq_append_def)

lemma set_dq_append: "set (dq_append n xs x) \<subseteq> insert x (set xs)"
  unfolding dq_append_def using set_take_last [of n "xs @ [x]"] by auto

lemma last_take_last: "0 < n \<Longrightarrow> xs \<noteq> [] \<Longrightarrow> last (take_last n xs) = last xs"
  by (simp add: take_last_def last_drop)

lemma take_last_Suc_snoc: "take_last (Suc n) (xs @ [x]) = take_last n xs @ [x]"
  by (auto simp: take_last_def Suc_diff_le)

lemma dq_append_snoc [deque_simps]: "0 < n \<Longrightarrow> dq_append n xs x = take_last (n - 1) xs @ [x]"
  by (cases n) (simp_all add: dq_append_def take_last_Suc_snoc)

lemma last_dq_append [simp, deque_simps]: "0 < n \<Longrightarrow> last (dq_append n xs x) = x"
  by (simp add: dq_append_snoc)

lemma dq_append_neq_Nil [simp]: "0 < n \<Longrightarrow> dq_append n xs x \<noteq> []"
  by (simp add: dq_append_snoc)

lemma dq_append_room: "length xs < n \<Longrightarrow> dq_append n xs x = xs @ [x]"
  by (simp add: dq_append_def)

lemma list_all_dq_append: "list_all P xs \<Longrightarrow> P x \<Longrightarrow> list_all P (dq_append n xs x)"
  using set_dq_append [of n xs x] by (auto simp: list_all_iff)

text \<open>
  The interface of a bounded buffer: what its elements are after a push.  Its client lemma says
  that a whole feed leaves exactly the last \<open>cap\<close> elements, in order.
\<close>

locale bounded_buffer =
  fixes push :: "'b \<Rightarrow> 'a \<Rightarrow> 'b"
    and elems :: "'b \<Rightarrow> 'a list"
    and cap :: nat
  assumes elems_push: "elems (push b x) = take_last cap (elems b @ [x])"
begin

lemma bounded_push: "length (elems (push b x)) \<le> cap"
  by (simp add: elems_push)

lemma elems_foldl:
  "length (elems b) \<le> cap \<Longrightarrow> elems (foldl push b xs) = take_last cap (elems b @ xs)"
proof (induction xs arbitrary: b)
  case Nil
  then show ?case by simp
next
  case (Cons x xs)
  have "elems (foldl push (push b x) xs) = take_last cap (elems (push b x) @ xs)"
    by (rule Cons.IH) (rule bounded_push)
  then show ?case by (simp add: elems_push)
qed

lemma bounded_foldl: "length (elems b) \<le> cap \<Longrightarrow> length (elems (foldl push b xs)) \<le> cap"
  by (simp add: elems_foldl)

end

interpretation dq: bounded_buffer "dq_append n" "\<lambda>b. b" n for n
  by unfold_locales (simp add: dq_append_def)

section \<open>Python sequence idioms\<close>

text \<open>\<open>zip(xs, xs[1:])\<close>: the consecutive pairs.\<close>

definition consec :: "'a list \<Rightarrow> ('a \<times> 'a) list" where
  "consec xs = zip xs (drop 1 xs)"

lemma length_consec [simp]: "length (consec xs) = length xs - 1"
  by (simp add: consec_def)

lemma consec_Nil_iff: "consec xs = [] \<longleftrightarrow> length xs < 2"
  by (cases xs; cases "tl xs") (auto simp: consec_def)

lemma consec_short [simp]: "consec [] = []" "consec [x] = []"
  by (simp_all add: consec_def)

lemma consec_snoc: "xs \<noteq> [] \<Longrightarrow> consec (xs @ [x]) = consec xs @ [(last xs, x)]"
proof (induction xs)
  case (Cons a xs)
  then show ?case by (cases xs) (auto simp: consec_def)
qed simp

lemma consec_drop: "consec (drop n xs) = drop n (consec xs)"
  by (simp add: consec_def drop_zip drop_drop add.commute)

lemma list_all_drop: "list_all P xs \<Longrightarrow> list_all P (drop n xs)"
  by (auto simp: list_all_iff dest: in_set_dropD)

lemma set_consec: "(a, b) \<in> set (consec xs) \<Longrightarrow> a \<in> set xs \<and> b \<in> set xs"
  by (auto simp: consec_def dest: set_zip_leftD set_zip_rightD in_set_dropD)

text \<open>\<open>next((x for x in xs if p x), None)\<close> is \<open>List.find\<close>; \<open>reversed\<close> scans use it on \<open>rev\<close>.\<close>

lemma find_SomeD: "find p xs = Some x \<Longrightarrow> x \<in> set xs \<and> p x"
  by (auto simp: find_Some_iff)

end
