(* ===== verification/Py_Float.thy ===== *)
theory Py_Float
  imports Prelude
begin

text \<open>
  Python's \<open>float\<close> is an IEEE-754 binary64.  A finite float is modelled by its value, a rational
  (\<open>pyfloat = rat\<close>), and every arithmetic operation of the code is the exact operation followed by
  \<open>rnd\<close>, round-to-nearest-even to 53 significant bits with gradual underflow at \<open>2 ^ -1074\<close>.
  Comparisons, \<open>max\<close>, \<open>min\<close>, \<open>abs\<close> and unary minus are exact, as in IEEE arithmetic.  Not
  modelled: infinities, NaNs and overflow (prices, balances and ratios stay far below \<open>2 ^ 1023\<close>)
  and the sign of zero (no operation of the code observes it).

  The locale \<open>rounding\<close> is the interface the proofs of the other theories use: \<open>rnd\<close> is monotone,
  idempotent, odd and keeps zero.  The interpretation at the end proves it for \<open>rnd\<close>.
\<close>

type_synonym pyfloat = rat

section \<open>Rounding to binary64\<close>

text \<open>\<open>nlog2 n\<close> is the position of the leading bit of a positive integer.\<close>

function nlog2 :: "int \<Rightarrow> int" where
  "nlog2 n = (if n \<le> 1 then 0 else nlog2 (n div 2) + 1)"
  by pat_completeness auto
termination by (relation "measure nat") auto

declare nlog2.simps [simp del]

text \<open>The binary exponent: \<open>2 ^ bexp x \<le> \<bar>x\<bar> < 2 ^ (bexp x + 1)\<close>.\<close>

definition bexp :: "rat \<Rightarrow> int" where
  "bexp x = (if 1 \<le> \<bar>x\<bar> then nlog2 \<lfloor>\<bar>x\<bar>\<rfloor> else - (nlog2 (\<lceil>1 / \<bar>x\<bar>\<rceil> - 1) + 1))"

text \<open>Round half to even.\<close>

definition rhe :: "rat \<Rightarrow> int" where
  "rhe x = (let k = \<lfloor>x\<rfloor>; f = x - of_int k in
     if f < 1 / 2 then k else if 1 / 2 < f then k + 1 else if even k then k else k + 1)"

text \<open>The exponent of the last place: 52 below the leading bit, never below \<open>-1074\<close>.\<close>

definition quantum :: "rat \<Rightarrow> int" where
  "quantum x = max (bexp x - 52) (- 1074)"

definition rnd :: "rat \<Rightarrow> pyfloat" where
  "rnd x = (if x = 0 then 0
            else of_int (rhe (x / 2 powi quantum x)) * 2 powi quantum x)"

definition is_float :: "rat \<Rightarrow> bool" where
  "is_float x \<longleftrightarrow> rnd x = x"

subsection \<open>Operations\<close>

definition fadd :: "pyfloat \<Rightarrow> pyfloat \<Rightarrow> pyfloat" where "fadd x y = rnd (x + y)"
definition fsub :: "pyfloat \<Rightarrow> pyfloat \<Rightarrow> pyfloat" where "fsub x y = rnd (x - y)"
definition fmul :: "pyfloat \<Rightarrow> pyfloat \<Rightarrow> pyfloat" where "fmul x y = rnd (x * y)"

text \<open>\<open>fquot\<close> is division under a guard that the divisor is not zero; \<open>fdiv\<close> is the unguarded one.\<close>

definition fquot :: "pyfloat \<Rightarrow> pyfloat \<Rightarrow> pyfloat" where "fquot x y = rnd (x / y)"

definition fdiv :: "pyfloat \<Rightarrow> pyfloat \<Rightarrow> pyfloat res" where
  "fdiv x y = (if y = 0 then Inl ZeroDivisionError else Inr (fquot x y))"

text \<open>\<open>sum(xs)\<close> of a list of floats (CPython 3.11: a left fold from \<open>0\<close>), and \<open>round(x, n)\<close>.\<close>

definition fsum :: "pyfloat list \<Rightarrow> pyfloat" where
  "fsum xs = foldl fadd 0 xs"

definition fround :: "nat \<Rightarrow> pyfloat \<Rightarrow> pyfloat" where
  "fround n x = rnd (of_int (rhe (x * 10 ^ n)) / 10 ^ n)"

section \<open>Facts about the exponent and the nearest integer\<close>

lemma nlog2_bounds: "1 \<le> n \<Longrightarrow> 0 \<le> nlog2 n \<and> 2 powi nlog2 n \<le> (of_int n :: rat) \<and> of_int n < (2 :: rat) powi (nlog2 n + 1)"
proof (induction n rule: nlog2.induct)
  case (1 n)
  show ?case
  proof (cases "n \<le> 1")
    case True
    with "1.prems" have "n = 1" by simp
    then show ?thesis by (simp add: nlog2.simps)
  next
    case False
    let ?k = "nlog2 (n div 2)"
    have IH: "0 \<le> ?k" "2 powi ?k \<le> (of_int (n div 2) :: rat)" "of_int (n div 2) < (2 :: rat) powi (?k + 1)"
      using "1.IH" False by auto
    have int_le: "(2 :: int) ^ nat ?k \<le> n div 2"
      using IH(1,2) by (simp add: power_int_def)
    have int_lt: "n div 2 < (2 :: int) ^ nat (?k + 1)"
      using IH(1,3) by (simp add: power_int_def)
    have eq: "nlog2 n = ?k + 1" using False by (simp add: nlog2.simps)
    have a: "(2 :: int) ^ nat (?k + 1) \<le> n"
      using int_le IH(1) by (simp add: nat_add_distrib)
    have b: "n < (2 :: int) ^ nat (?k + 1 + 1)"
      using int_lt IH(1) by (simp add: nat_add_distrib)
    have "(2 :: rat) powi (?k + 1) \<le> of_int n"
      using a IH(1) by (simp add: power_int_def)
    moreover have "(of_int n :: rat) < 2 powi (?k + 1 + 1)"
      using b IH(1) by (simp add: power_int_def)
    ultimately show ?thesis using eq IH(1) by simp
  qed
qed


lemma powi2_pos [simp]: "0 < (2 :: rat) powi q"
  by simp

lemma powi2_less_iff [simp]: "(2 :: rat) powi a < 2 powi b \<longleftrightarrow> a < b"
  by (cases a b rule: linorder_cases)
    (auto dest: power_int_strict_increasing [of _ _ "2 :: rat"])

lemma powi2_le_iff [simp]: "(2 :: rat) powi a \<le> 2 powi b \<longleftrightarrow> a \<le> b"
  using powi2_less_iff [of b a] by (simp only: linorder_not_less [symmetric])

lemma powi2_minus: "(2 :: rat) powi (- a) = 1 / 2 powi a"
  by (simp add: power_int_minus divide_inverse)

lemma powi2_Suc: "(2 :: rat) powi (a + 1) = 2 * 2 powi a"
  by (simp add: power_int_add)

lemma powi2_int: "0 \<le> a \<Longrightarrow> (2 :: rat) powi a = of_int (2 ^ nat a)"
  by (simp add: power_int_def)

lemma bexp_bounds: "x \<noteq> 0 \<Longrightarrow> 2 powi bexp x \<le> \<bar>x\<bar> \<and> \<bar>x\<bar> < 2 powi (bexp x + 1)"
proof (cases "1 \<le> \<bar>x\<bar>")
  case True
  let ?n = "\<lfloor>\<bar>x\<bar>\<rfloor>"
  have n: "1 \<le> ?n" using True by linarith
  have eq: "bexp x = nlog2 ?n" using True by (simp add: bexp_def)
  have "(2 :: rat) powi nlog2 ?n \<le> of_int ?n" "(of_int ?n :: rat) < 2 powi (nlog2 ?n + 1)"
    using nlog2_bounds [OF n] by auto
  then have "?n + 1 \<le> 2 ^ nat (nlog2 ?n + 1)"
    using nlog2_bounds [OF n] by (simp add: power_int_def)
  then have "(of_int (?n + 1) :: rat) \<le> of_int (2 ^ nat (nlog2 ?n + 1))"
    by (simp only: of_int_le_iff)
  then have "(of_int ?n + 1 :: rat) \<le> 2 powi (nlog2 ?n + 1)"
    using nlog2_bounds [OF n] by (simp add: power_int_def)
  then show ?thesis
    unfolding eq using \<open>(2 :: rat) powi nlog2 ?n \<le> of_int ?n\<close>
    by (intro conjI) linarith+
next
  case False
  assume nz: "x \<noteq> 0"
  let ?c = "\<lceil>1 / \<bar>x\<bar>\<rceil>"
  let ?j = "nlog2 (?c - 1)"
  have "1 < 1 / \<bar>x\<bar>" using False nz by (simp add: field_simps)
  then have c: "1 \<le> ?c - 1" by linarith
  have eq: "bexp x = - (?j + 1)" using False by (simp add: bexp_def)
  have j: "0 \<le> ?j" "(2 :: rat) powi ?j \<le> of_int (?c - 1)" "(of_int (?c - 1) :: rat) < 2 powi (?j + 1)"
    using nlog2_bounds [OF c] by auto
  have "of_int (?c - 1) < 1 / \<bar>x\<bar>" by linarith
  with j(2) have lo: "2 powi ?j < 1 / \<bar>x\<bar>" by linarith
  have "(of_int (?c - 1) :: rat) < of_int (2 ^ nat (?j + 1))" using j(1,3) by (simp add: power_int_def)
  then have "?c - 1 < 2 ^ nat (?j + 1)" by (simp only: of_int_less_iff)
  then have "?c \<le> 2 ^ nat (?j + 1)" by linarith
  then have "(of_int ?c :: rat) \<le> of_int (2 ^ nat (?j + 1))" by (simp only: of_int_le_iff)
  then have "(of_int ?c :: rat) \<le> 2 powi (?j + 1)" using j(1) by (simp add: power_int_def)
  then have hi: "1 / \<bar>x\<bar> \<le> 2 powi (?j + 1)" by linarith
  have "1 / 2 powi (?j + 1) \<le> \<bar>x\<bar>"
    using hi nz by (simp add: divide_le_eq mult.commute)
  moreover have "\<bar>x\<bar> < 1 / 2 powi ?j"
    using lo nz by (simp add: less_divide_eq mult.commute)
  moreover have "bexp x + 1 = - ?j" by (simp add: eq)
  ultimately show ?thesis unfolding eq by (simp only: powi2_minus add.inverse_inverse)
qed

lemma bexp_less: "x \<noteq> 0 \<Longrightarrow> \<bar>x\<bar> < 2 powi k \<Longrightarrow> bexp x < k"
  using bexp_bounds [of x] powi2_less_iff [of "bexp x" k] by (auto simp del: powi2_less_iff)

lemma bexp_unique: "2 powi k \<le> \<bar>x\<bar> \<Longrightarrow> \<bar>x\<bar> < 2 powi (k + 1) \<Longrightarrow> bexp x = k"
proof -
  assume a: "2 powi k \<le> \<bar>x\<bar>" "\<bar>x\<bar> < 2 powi (k + 1)"
  have nz: "x \<noteq> 0" using a(1) powi2_pos [of k] by (metis abs_zero not_less)
  have "bexp x < k + 1" using bexp_less [OF nz a(2)] .
  moreover have "(2 :: rat) powi k < 2 powi (bexp x + 1)"
    using a(1) bexp_bounds [OF nz] by linarith
  ultimately show ?thesis by simp
qed

lemma bexp_mono: "x \<noteq> 0 \<Longrightarrow> \<bar>x\<bar> \<le> \<bar>y\<bar> \<Longrightarrow> bexp x \<le> bexp y"
proof -
  assume a: "x \<noteq> 0" "\<bar>x\<bar> \<le> \<bar>y\<bar>"
  then have "y \<noteq> 0" by auto
  have "\<bar>x\<bar> < 2 powi (bexp y + 1)" using a(2) bexp_bounds [OF \<open>y \<noteq> 0\<close>] by linarith
  with a(1) show ?thesis using bexp_less by fastforce
qed

lemma bexp_minus [simp]: "bexp (- x) = bexp x"
  by (simp add: bexp_def)

lemma rhe_of_int [simp]: "rhe (of_int k) = k"
  by (simp add: rhe_def)

lemma rhe_near: "\<bar>of_int (rhe x) - x\<bar> \<le> 1 / 2"
  unfolding rhe_def Let_def by (auto simp: abs_if) linarith+

lemma rhe_mono: "x \<le> y \<Longrightarrow> rhe x \<le> rhe y"
proof (cases "\<lfloor>x\<rfloor> = \<lfloor>y\<rfloor>")
  case True
  assume "x \<le> y"
  with True show ?thesis by (auto simp: rhe_def Let_def)
next
  case False
  assume "x \<le> y"
  with False have "\<lfloor>x\<rfloor> + 1 \<le> \<lfloor>y\<rfloor>" using floor_mono [of x y] by linarith
  then show ?thesis by (auto simp: rhe_def Let_def)
qed

lemma rhe_minus: "rhe (- x) = - rhe x"
proof (cases "x = of_int \<lfloor>x\<rfloor>")
  case True
  then show ?thesis by (metis of_int_minus rhe_of_int)
next
  case False
  have f: "\<lfloor>- x\<rfloor> = - \<lfloor>x\<rfloor> - 1"
    using False by linarith
  show ?thesis
    unfolding rhe_def Let_def f by auto
qed

lemma rhe_le: "x \<le> of_int k \<Longrightarrow> rhe x \<le> k"
  using rhe_mono [of x "of_int k"] by simp

lemma rhe_ge: "of_int k \<le> x \<Longrightarrow> k \<le> rhe x"
  using rhe_mono [of "of_int k" x] by simp


section \<open>The laws of rounding\<close>

lemma rnd_0 [simp]: "rnd 0 = 0"
  by (simp add: rnd_def)

lemma quantum_minus [simp]: "quantum (- x) = quantum x"
  by (simp add: quantum_def)

lemma rnd_minus: "rnd (- x) = - rnd x"
  by (simp add: rnd_def rhe_minus)

lemma quantum_ge: "- 1074 \<le> quantum x"
  by (simp add: quantum_def)

text \<open>A multiple of the quantum is left alone.\<close>

lemma rnd_multiple: "x = of_int m * 2 powi q \<Longrightarrow> quantum x \<le> q \<Longrightarrow> rnd x = x"
proof -
  assume x: "x = of_int m * 2 powi q" and q: "quantum x \<le> q"
  let ?u = "quantum x"
  have split: "(2 :: rat) powi q = of_int (2 ^ nat (q - ?u)) * 2 powi ?u"
    using q powi2_int [of "q - ?u"] power_int_add [of "2 :: rat" "q - ?u" ?u] by simp
  have "x / 2 powi ?u = of_int (m * 2 ^ nat (q - ?u))"
    by (subst x) (simp add: split)
  then have "rhe (x / 2 powi ?u) = m * 2 ^ nat (q - ?u)" by (simp only: rhe_of_int)
  then have "of_int (rhe (x / 2 powi ?u)) * 2 powi ?u = of_int m * (2 :: rat) powi q"
    by (simp add: split)
  with x show ?thesis by (simp add: rnd_def)
qed

lemma rnd_representable:
  assumes m: "\<bar>m\<bar> \<le> 2 ^ 53" and q: "- 1074 \<le> q"
  shows "rnd (of_int m * 2 powi q) = of_int m * 2 powi q"
proof (cases "m = 0")
  case False
  let ?x = "of_int m * 2 powi q :: rat"
  have nz: "?x \<noteq> 0" using False by simp
  have abs: "\<bar>?x\<bar> = of_int \<bar>m\<bar> * 2 powi q" by (simp add: abs_mult)
  show ?thesis
  proof (cases "\<bar>m\<bar> = 2 ^ 53")
    case True
    obtain m' where m': "m = m' * 2" using True by (cases "0 \<le> m") (auto intro: that [of "2 ^ 52"] that [of "- (2 ^ 52)"])
    have x: "?x = of_int m' * 2 powi (q + 1)" by (simp add: m' powi2_Suc)
    have "bexp ?x = q + 53"
    proof (rule bexp_unique)
      show "2 powi (q + 53) \<le> \<bar>?x\<bar>" unfolding abs True by (simp add: power_int_add)
      show "\<bar>?x\<bar> < 2 powi (q + 53 + 1)" unfolding abs True by (simp add: power_int_add)
    qed
    then have "quantum ?x \<le> q + 1" using q by (simp add: quantum_def)
    with x show ?thesis by (rule rnd_multiple)
  next
    case 2: False
    with m have "\<bar>m\<bar> < 2 ^ 53" by linarith
    then have "(of_int \<bar>m\<bar> :: rat) < of_int (2 ^ 53)" by (simp only: of_int_less_iff)
    then have "of_int \<bar>m\<bar> * (2 :: rat) powi q < 2 ^ 53 * 2 powi q" by simp
    then have "\<bar>?x\<bar> < 2 powi (q + 53)" unfolding abs by (simp add: power_int_add)
    then have "bexp ?x < q + 53" by (rule bexp_less [OF nz])
    then have "quantum ?x \<le> q" using q by (simp add: quantum_def)
    then show ?thesis by (rule rnd_multiple [OF refl])
  qed
qed simp

lemma rnd_form: "\<exists>m q. rnd x = of_int m * 2 powi q \<and> \<bar>m\<bar> \<le> 2 ^ 53 \<and> - 1074 \<le> q"
proof (cases "x = 0")
  case True
  then show ?thesis by (intro exI [of _ 0] exI [of _ 0]) simp
next
  case False
  let ?q = "quantum x"
  have "\<bar>x\<bar> < 2 powi (bexp x + 1)" using bexp_bounds [OF False] by simp
  also have "\<dots> \<le> 2 powi (?q + 53)" by (simp add: quantum_def)
  also have "\<dots> = of_int (2 ^ 53) * 2 powi ?q" by (simp add: power_int_add)
  finally have b: "\<bar>x\<bar> < of_int (2 ^ 53) * 2 powi ?q" .
  have "x / 2 powi ?q \<le> of_int (2 ^ 53)" "of_int (- (2 ^ 53)) \<le> x / 2 powi ?q"
    using b by (auto simp: divide_le_eq le_divide_eq)
  then have "rhe (x / 2 powi ?q) \<le> 2 ^ 53" "- (2 ^ 53) \<le> rhe (x / 2 powi ?q)"
    by (auto intro: rhe_le rhe_ge)
  then show ?thesis
    using False quantum_ge [of x]
    by (intro exI [of _ "rhe (x / 2 powi ?q)"] exI [of _ ?q]) (simp add: rnd_def)
qed

lemma rnd_idem [simp]: "rnd (rnd x) = rnd x"
  using rnd_form [of x] rnd_representable by auto

lemma rnd_nonneg: "0 \<le> x \<Longrightarrow> 0 \<le> rnd x"
proof -
  assume "0 \<le> x"
  then have "of_int 0 \<le> x / 2 powi quantum x" by simp
  then have "0 \<le> rhe (x / 2 powi quantum x)" by (rule rhe_ge)
  then show ?thesis by (simp add: rnd_def)
qed

lemma rnd_mono_pos:
  assumes x: "0 < x" and xy: "x \<le> y"
  shows "rnd x \<le> rnd y"
proof (cases "quantum x = quantum y")
  case True
  have "rhe (x / 2 powi quantum x) \<le> rhe (y / 2 powi quantum x)"
    using xy by (intro rhe_mono divide_right_mono) auto
  then show ?thesis using x xy True by (simp add: rnd_def)
next
  case False
  have nz: "x \<noteq> 0" "y \<noteq> 0" using x xy by auto
  have "bexp x \<le> bexp y" using nz(1) x xy by (intro bexp_mono) auto
  then have lt: "quantum x < quantum y" using False by (auto simp: quantum_def)
  then have qy: "quantum y = bexp y - 52" using quantum_ge [of x] by (auto simp: quantum_def)
  have bxy: "bexp x < bexp y" using lt qy by (auto simp: quantum_def)
  let ?B = "(2 :: rat) powi bexp y"
  have "x < 2 powi (bexp x + 1)" using bexp_bounds [OF nz(1)] x by simp
  also have "\<dots> \<le> ?B" using bxy by simp
  finally have xB: "x \<le> ?B" by simp
  have up: "rnd x \<le> ?B"
  proof -
    let ?q = "quantum x"
    let ?K = "2 ^ nat (bexp y - ?q) :: int"
    have K: "?B = of_int ?K * 2 powi ?q"
      using powi2_int [of "bexp y - ?q"] power_int_add [of "2 :: rat" "bexp y - ?q" ?q] lt qy by simp
    have "x / 2 powi ?q \<le> of_int ?K" using xB K by (simp add: divide_le_eq)
    then have "rhe (x / 2 powi ?q) \<le> ?K" by (rule rhe_le)
    then have "of_int (rhe (x / 2 powi ?q)) * (2 :: rat) powi ?q \<le> of_int ?K * 2 powi ?q"
      by (intro mult_right_mono) (simp_all only: of_int_le_iff powi2_pos less_imp_le)
    then show ?thesis using nz K by (simp add: rnd_def)
  qed
  have down: "?B \<le> rnd y"
  proof -
    let ?q = "quantum y"
    have K: "?B = of_int (2 ^ 52) * 2 powi ?q" by (simp add: qy power_int_diff)
    have "?B \<le> y" using bexp_bounds [OF nz(2)] x xy by simp
    then have "of_int (2 ^ 52) \<le> y / 2 powi ?q" using K by (simp add: le_divide_eq)
    then have "2 ^ 52 \<le> rhe (y / 2 powi ?q)" by (rule rhe_ge)
    then have "of_int (2 ^ 52) * (2 :: rat) powi ?q \<le> of_int (rhe (y / 2 powi ?q)) * 2 powi ?q"
      by (intro mult_right_mono) (simp_all only: of_int_le_iff powi2_pos less_imp_le)
    then show ?thesis using nz K by (simp add: rnd_def)
  qed
  from up down show ?thesis by simp
qed

lemma rnd_mono: "x \<le> y \<Longrightarrow> rnd x \<le> rnd y"
proof -
  assume xy: "x \<le> y"
  have np: "rnd z \<le> 0" if "z \<le> 0" for z using rnd_nonneg [of "- z"] that by (simp add: rnd_minus)
  consider "0 < x" | "x \<le> 0" "0 \<le> y" | "y < 0" by linarith
  then show ?thesis
  proof cases
    case 1
    then show ?thesis using xy by (rule rnd_mono_pos)
  next
    case 2
    then show ?thesis using np [of x] rnd_nonneg [of y] by linarith
  next
    case 3
    then have "rnd (- y) \<le> rnd (- x)" using xy by (intro rnd_mono_pos) auto
    then show ?thesis by (simp add: rnd_minus)
  qed
qed


lemma rnd_error: "\<bar>rnd x - x\<bar> \<le> \<bar>x\<bar> / 2 ^ 53 + 2 powi (- 1075)"
proof (cases "x = 0")
  case False
  let ?q = "quantum x"
  have "rnd x - x = (of_int (rhe (x / 2 powi ?q)) - x / 2 powi ?q) * 2 powi ?q"
    using False by (simp add: rnd_def left_diff_distrib)
  then have "\<bar>rnd x - x\<bar> = \<bar>of_int (rhe (x / 2 powi ?q)) - x / 2 powi ?q\<bar> * 2 powi ?q"
    by (simp add: abs_mult)
  also have "\<dots> \<le> 1 / 2 * 2 powi ?q"
    by (intro mult_right_mono rhe_near) simp
  also have "\<dots> \<le> \<bar>x\<bar> / 2 ^ 53 + 2 powi (- 1075)"
  proof (cases "bexp x - 52 \<le> - 1074")
    case True
    then have "?q = - 1075 + 1" by (simp add: quantum_def)
    then have "(2 :: rat) powi ?q = 2 * 2 powi (- 1075)" by (simp only: powi2_Suc)
    then show ?thesis by simp
  next
    case 2: False
    then have "(2 :: rat) powi ?q = 2 powi bexp x / 2 ^ 52"
      by (simp add: quantum_def power_int_diff)
    then have "1 / 2 * 2 powi ?q = 2 powi bexp x / (2 :: rat) ^ 53" by simp
    also have "\<dots> \<le> \<bar>x\<bar> / 2 ^ 53"
      using bexp_bounds [OF False] by (intro divide_right_mono) auto
    finally show ?thesis by simp
  qed
  finally show ?thesis .
qed simp

lemma is_float_rnd [simp]: "is_float (rnd x)"
  by (simp add: is_float_def)

lemma is_float_0 [simp]: "is_float 0"
  by (simp add: is_float_def)

lemma is_float_of_int: "\<bar>m\<bar> \<le> 2 ^ 53 \<Longrightarrow> is_float (of_int m)"
  using rnd_representable [of m 0] by (simp add: is_float_def)

text \<open>Two distinct floats are at least the smallest subnormal apart.\<close>

lemma float_multiple_tiny: "is_float x \<Longrightarrow> \<exists>k. x = of_int k * 2 powi (- 1074)"
proof -
  assume "is_float x"
  then obtain m q where x: "x = of_int m * 2 powi q" and q: "- 1074 \<le> q"
    using rnd_form [of x] by (auto simp: is_float_def)
  have "(2 :: rat) powi q = of_int (2 ^ nat (q + 1074)) * 2 powi (- 1074)"
    using powi2_int [of "q + 1074"] power_int_add [of "2 :: rat" "q + 1074" "- 1074"] q by simp
  then have "x = of_int (m * 2 ^ nat (q + 1074)) * 2 powi (- 1074)" by (simp add: x)
  then show ?thesis ..
qed

lemma float_gap: "is_float x \<Longrightarrow> is_float y \<Longrightarrow> x < y \<Longrightarrow> 2 powi (- 1074) \<le> y - x"
proof -
  assume f: "is_float x" "is_float y" and xy: "x < y"
  obtain a b where ab: "x = of_int a * 2 powi (- 1074)" "y = of_int b * 2 powi (- 1074)"
    using float_multiple_tiny f by blast
  have "(of_int a :: rat) * 2 powi (- 1074) < of_int b * 2 powi (- 1074)" using xy ab by simp
  then have "(of_int a :: rat) < of_int b" by (rule mult_right_less_imp_less) simp
  then have "1 \<le> b - a" by simp
  then have "(of_int 1 :: rat) \<le> of_int (b - a)" by (simp only: of_int_le_iff)
  then have "of_int 1 * (2 :: rat) powi (- 1074) \<le> of_int (b - a) * 2 powi (- 1074)"
    by (rule mult_right_mono) simp
  then show ?thesis by (simp only: ab of_int_diff left_diff_distrib of_int_1 mult_1)
qed

section \<open>The interface of rounding\<close>

locale rounding =
  fixes r :: "rat \<Rightarrow> rat" and tiny :: rat
  assumes mono: "x \<le> y \<Longrightarrow> r x \<le> r y"
    and idem: "r (r x) = r x"
    and odd_minus: "r (- x) = - r x"
    and tiny_pos: "0 < tiny"
    and tiny_fix: "r tiny = tiny"
    and gap: "r x = x \<Longrightarrow> r y = y \<Longrightarrow> x < y \<Longrightarrow> tiny \<le> y - x"
begin

lemma zero: "r 0 = 0"
  using odd_minus [of 0] by simp

lemma nonneg: "0 \<le> x \<Longrightarrow> 0 \<le> r x"
  using mono [of 0 x] by (simp add: zero)

lemma nonpos: "x \<le> 0 \<Longrightarrow> r x \<le> 0"
  using mono [of x 0] by (simp add: zero)

lemma pos_imp_pos: "0 < r x \<Longrightarrow> 0 < x"
  using nonpos [of x] by linarith

lemma neg_imp_neg: "r x < 0 \<Longrightarrow> x < 0"
  using nonneg [of x] by linarith

lemma le_fixed: "r y = y \<Longrightarrow> x \<le> y \<Longrightarrow> r x \<le> y"
  using mono [of x y] by simp

lemma ge_fixed: "r y = y \<Longrightarrow> y \<le> x \<Longrightarrow> y \<le> r x"
  using mono [of y x] by simp

lemma abs_commute: "r \<bar>x\<bar> = \<bar>r x\<bar>"
proof (cases "0 \<le> x")
  case True
  then show ?thesis using nonneg [of x] by simp
next
  case False
  then show ?thesis using nonpos [of x] by (simp add: odd_minus)
qed

lemma diff_pos: "r x = x \<Longrightarrow> r y = y \<Longrightarrow> x < y \<Longrightarrow> 0 < r (y - x)"
  using ge_fixed [OF tiny_fix gap, of x y] tiny_pos by linarith

lemma diff_pos_iff: "r x = x \<Longrightarrow> r y = y \<Longrightarrow> 0 < r (y - x) \<longleftrightarrow> x < y"
  using diff_pos [of x y] pos_imp_pos [of "y - x"] by auto

lemma diff_le_0_iff: "r x = x \<Longrightarrow> r y = y \<Longrightarrow> r (y - x) \<le> 0 \<longleftrightarrow> y \<le> x"
  using diff_pos_iff [of x y] by linarith

lemma diff_neg_iff: "r x = x \<Longrightarrow> r y = y \<Longrightarrow> r (y - x) < 0 \<longleftrightarrow> y < x"
  using diff_pos_iff [of y x] odd_minus [of "y - x"] by simp

lemma diff_zero_iff: "r x = x \<Longrightarrow> r y = y \<Longrightarrow> r (y - x) = 0 \<longleftrightarrow> y = x"
  by (cases x y rule: linorder_cases) (use diff_pos [of x y] diff_neg_iff [of x y] zero in auto)

end

text \<open>The smallest positive float.\<close>

definition tiny64 :: rat where
  "tiny64 = 2 powi (- 1074)"

interpretation rd: rounding rnd tiny64
proof unfold_locales
  show "rnd tiny64 = tiny64"
    unfolding tiny64_def using rnd_representable [of 1 "- 1074"] by (simp only: abs_1 of_int_1 mult_1) simp
  show "0 < tiny64" by (simp add: tiny64_def)
  show "tiny64 \<le> y - x" if "rnd x = x" "rnd y = y" "x < y" for x y
    unfolding tiny64_def by (rule float_gap) (use that in \<open>simp_all only: is_float_def\<close>)
qed (simp_all add: rnd_mono rnd_minus)

lemmas fl_defs = fadd_def fsub_def fmul_def fquot_def

lemma is_float_ops [simp]:
  "is_float (fadd x y)" "is_float (fsub x y)" "is_float (fmul x y)" "is_float (fquot x y)"
  by (simp_all add: fl_defs)

lemma is_float_minus [simp]: "is_float (- x) \<longleftrightarrow> is_float x"
  by (simp add: is_float_def rnd_minus)

lemma is_float_max: "is_float x \<Longrightarrow> is_float y \<Longrightarrow> is_float (max x y)"
  by (simp add: max_def)

lemma is_float_min: "is_float x \<Longrightarrow> is_float y \<Longrightarrow> is_float (min x y)"
  by (simp add: min_def)

lemma is_float_abs: "is_float x \<Longrightarrow> is_float \<bar>x\<bar>"
  by (simp add: abs_if)

lemma fsub_self [simp]: "fsub x x = 0"
  by (simp add: fsub_def)

lemma fsub_pos_iff: "is_float x \<Longrightarrow> is_float y \<Longrightarrow> 0 < fsub y x \<longleftrightarrow> x < y"
  unfolding fsub_def is_float_def by (rule rd.diff_pos_iff)

lemma fsub_le_0_iff: "is_float x \<Longrightarrow> is_float y \<Longrightarrow> fsub y x \<le> 0 \<longleftrightarrow> y \<le> x"
  unfolding fsub_def is_float_def by (rule rd.diff_le_0_iff)

lemma fsub_nonneg: "x \<le> y \<Longrightarrow> 0 \<le> fsub y x"
  unfolding fsub_def by (rule rd.nonneg) simp

lemma fsub_posD: "0 < fsub y x \<Longrightarrow> x < y"
  unfolding fsub_def using rd.pos_imp_pos [of "y - x"] by simp

lemma fsub_minus_swap: "fsub x y = - fsub y x"
  unfolding fsub_def using rnd_minus [of "y - x"] by simp

lemma fadd_mono: "x \<le> x' \<Longrightarrow> y \<le> y' \<Longrightarrow> fadd x y \<le> fadd x' y'"
  unfolding fadd_def by (intro rd.mono add_mono)

lemma fsub_mono: "x \<le> x' \<Longrightarrow> y' \<le> y \<Longrightarrow> fsub x y \<le> fsub x' y'"
  unfolding fsub_def by (intro rd.mono diff_mono)

lemma fadd_nonneg: "0 \<le> x \<Longrightarrow> 0 \<le> y \<Longrightarrow> 0 \<le> fadd x y"
  unfolding fadd_def by (intro rd.nonneg add_nonneg_nonneg)

lemma fmul_nonneg: "0 \<le> x \<Longrightarrow> 0 \<le> y \<Longrightarrow> 0 \<le> fmul x y"
  unfolding fmul_def by (intro rd.nonneg mult_nonneg_nonneg)

lemma fquot_nonneg: "0 \<le> x \<Longrightarrow> 0 \<le> y \<Longrightarrow> 0 \<le> fquot x y"
  unfolding fquot_def by (intro rd.nonneg divide_nonneg_nonneg)

lemma fquot_mono: "x \<le> y \<Longrightarrow> 0 \<le> z \<Longrightarrow> fquot x z \<le> fquot y z"
  unfolding fquot_def by (intro rd.mono divide_right_mono)

lemma fmul_mono: "x \<le> y \<Longrightarrow> 0 \<le> z \<Longrightarrow> fmul x z \<le> fmul y z"
  unfolding fmul_def by (intro rd.mono mult_right_mono)

lemma fadd_0 [simp]: "is_float x \<Longrightarrow> fadd x 0 = x" "is_float x \<Longrightarrow> fadd 0 x = x"
  by (simp_all add: fadd_def is_float_def)

lemma fadd_ge_left: "is_float x \<Longrightarrow> 0 \<le> y \<Longrightarrow> x \<le> fadd x y"
  unfolding fadd_def is_float_def by (intro rd.ge_fixed) auto

lemma fsub_le_left: "is_float x \<Longrightarrow> 0 \<le> y \<Longrightarrow> fsub x y \<le> x"
  unfolding fsub_def is_float_def by (intro rd.le_fixed) auto

lemma fdiv_Inr [simp]: "y \<noteq> 0 \<Longrightarrow> fdiv x y = Inr (fquot x y)"
  by (simp add: fdiv_def)

lemma fdiv_zero [simp]: "fdiv x 0 = Inl ZeroDivisionError"
  by (simp add: fdiv_def)

lemma foldl_fadd_nonneg: "0 \<le> a \<Longrightarrow> \<forall>x \<in> set xs. 0 \<le> x \<Longrightarrow> 0 \<le> foldl fadd a xs"
  by (induction xs arbitrary: a) (auto simp: fadd_nonneg)

lemma fsum_nonneg: "\<forall>x \<in> set xs. 0 \<le> x \<Longrightarrow> 0 \<le> fsum xs"
  unfolding fsum_def by (rule foldl_fadd_nonneg) auto

lemma is_float_foldl_fadd: "is_float a \<Longrightarrow> is_float (foldl fadd a xs)"
  by (induction xs arbitrary: a) auto

lemma is_float_fsum [simp]: "is_float (fsum xs)"
  by (simp add: fsum_def is_float_foldl_fadd)

section \<open>Evaluating roundings of numerals\<close>

text \<open>
  \<open>rnd_frac n d\<close> computes \<open>rnd (n / d)\<close> with integer operations only, so that \<open>simp\<close> with the
  collection \<open>fl_eval\<close> evaluates float expressions over literals inside the kernel.
\<close>

named_theorems fl_eval

definition bexp_frac :: "int \<Rightarrow> int \<Rightarrow> int" where
  "bexp_frac n d = (let e = nlog2 n - nlog2 d in
     if (if 0 \<le> e then d * 2 ^ nat e \<le> n else d \<le> n * 2 ^ nat (- e)) then e else e - 1)"

definition near_int :: "int \<Rightarrow> int \<Rightarrow> int" where
  "near_int a b = (let m = a div b; t = 2 * (a mod b) in
     if t < b then m else if b < t then m + 1 else if even m then m else m + 1)"

definition rnd_frac :: "int \<Rightarrow> int \<Rightarrow> rat" where
  "rnd_frac n d = (let q = max (bexp_frac n d - 52) (- 1074) in
     if 0 \<le> q then of_int (near_int n (d * 2 ^ nat q) * 2 ^ nat q)
     else of_int (near_int (n * 2 ^ nat (- q)) d) / of_int (2 ^ nat (- q)))"

lemma near_int_rhe: "0 < b \<Longrightarrow> near_int a b = rhe (of_int a / of_int b)"
proof -
  assume b: "0 < b"
  have f: "\<lfloor>(of_int a :: rat) / of_int b\<rfloor> = a div b" by (rule floor_divide_of_int_eq)
  have m: "(of_int a :: rat) / of_int b - of_int (a div b) = of_int (a mod b) / of_int b"
    using b by (simp add: field_simps flip: of_int_mult of_int_add)
  have lt: "(of_int (a mod b) :: rat) / of_int b < 1 / 2 \<longleftrightarrow> 2 * (a mod b) < b"
  proof -
    have "(of_int (a mod b) :: rat) / of_int b < 1 / 2 \<longleftrightarrow> of_int (2 * (a mod b)) < (of_int b :: rat)"
      using b by (simp add: field_simps)
    then show ?thesis by (simp only: of_int_less_iff)
  qed
  have gt: "1 / 2 < (of_int (a mod b) :: rat) / of_int b \<longleftrightarrow> b < 2 * (a mod b)"
  proof -
    have "1 / 2 < (of_int (a mod b) :: rat) / of_int b \<longleftrightarrow> (of_int b :: rat) < of_int (2 * (a mod b))"
      using b by (simp add: field_simps)
    then show ?thesis by (simp only: of_int_less_iff)
  qed
  show ?thesis unfolding near_int_def rhe_def Let_def f m lt gt by simp
qed

lemma inverse_le_quotient_iff:
  "0 < P \<Longrightarrow> 0 < d \<Longrightarrow> 1 / P \<le> n / d \<longleftrightarrow> d \<le> n * P" for P d n :: rat
  by (simp add: field_simps)

lemma bexp_frac: "0 < n \<Longrightarrow> 0 < d \<Longrightarrow> bexp (of_int n / of_int d) = bexp_frac n d"
proof -
  assume n: "0 < n" and d: "0 < d"
  let ?x = "(of_int n :: rat) / of_int d"
  let ?e = "nlog2 n - nlog2 d"
  have N: "2 powi nlog2 n \<le> (of_int n :: rat)" "(of_int n :: rat) < 2 powi (nlog2 n + 1)"
    using nlog2_bounds [of n] n by auto
  have D: "2 powi nlog2 d \<le> (of_int d :: rat)" "(of_int d :: rat) < 2 powi (nlog2 d + 1)"
    using nlog2_bounds [of d] d by auto
  have dp: "0 < (of_int d :: rat)" using d by simp
  have hi: "?x < 2 powi (?e + 1)"
  proof -
    have "(of_int n :: rat) < 2 powi (nlog2 n + 1)" by (rule N)
    also have "\<dots> = 2 powi (?e + 1) * 2 powi nlog2 d" by (simp flip: power_int_add)
    also have "\<dots> \<le> 2 powi (?e + 1) * of_int d" using D(1) by (intro mult_left_mono) auto
    finally show ?thesis using dp by (simp add: divide_less_eq mult.commute)
  qed
  have lo: "2 powi (?e - 1) \<le> ?x"
  proof -
    have "2 powi (?e - 1) * of_int d \<le> 2 powi (?e - 1) * (2 :: rat) powi (nlog2 d + 1)"
      using D(2) by (intro mult_left_mono) auto
    also have "\<dots> = 2 powi nlog2 n" by (simp flip: power_int_add)
    also have "\<dots> \<le> of_int n" by (rule N)
    finally show ?thesis using dp by (simp add: le_divide_eq)
  qed
  have test: "(if 0 \<le> ?e then d * 2 ^ nat ?e \<le> n else d \<le> n * 2 ^ nat (- ?e)) \<longleftrightarrow> 2 powi ?e \<le> ?x"
  proof (cases "0 \<le> ?e")
    case True
    have "2 powi ?e \<le> ?x \<longleftrightarrow> (of_int (d * 2 ^ nat ?e) :: rat) \<le> of_int n"
      using dp True by (simp add: le_divide_eq powi2_int mult.commute)
    with True show ?thesis by (simp only: of_int_le_iff if_True)
  next
    case False
    then have "(2 :: rat) powi ?e = 1 / of_int (2 ^ nat (- ?e))"
      using powi2_minus [of "- ?e"] powi2_int [of "- ?e"] by simp
    then have "2 powi ?e \<le> ?x \<longleftrightarrow> (of_int d :: rat) \<le> of_int (n * 2 ^ nat (- ?e))"
      using inverse_le_quotient_iff [of "of_int (2 ^ nat (- ?e))" "of_int d" "of_int n"] dp by simp
    with False show ?thesis by (simp only: of_int_le_iff if_False)
  qed
  have x: "\<bar>?x\<bar> = ?x" using n d by simp
  show ?thesis
  proof (cases "2 powi ?e \<le> ?x")
    case True
    then have "bexp ?x = ?e" using hi by (intro bexp_unique) (simp_all only: x)
    with True test show ?thesis by (simp add: bexp_frac_def Let_def)
  next
    case False
    then have "bexp ?x = ?e - 1" using lo by (intro bexp_unique) (simp_all only: x, simp)
    with False test show ?thesis by (simp add: bexp_frac_def Let_def)
  qed
qed

lemma rnd_frac: "0 < n \<Longrightarrow> 0 < d \<Longrightarrow> rnd (of_int n / of_int d) = rnd_frac n d"
proof -
  assume n: "0 < n" and d: "0 < d"
  let ?x = "(of_int n :: rat) / of_int d"
  let ?q = "quantum ?x"
  have q: "?q = max (bexp_frac n d - 52) (- 1074)" using n d by (simp add: quantum_def bexp_frac)
  have nz: "?x \<noteq> 0" using n d by simp
  show ?thesis
  proof (cases "0 \<le> ?q")
    case True
    have "?x / 2 powi ?q = of_int n / of_int (d * 2 ^ nat ?q)"
      using True by (simp add: powi2_int)
    moreover have "0 < d * 2 ^ nat ?q" using d by simp
    ultimately have "rhe (?x / 2 powi ?q) = near_int n (d * 2 ^ nat ?q)"
      by (simp only: near_int_rhe)
    then show ?thesis
      unfolding rnd_def rnd_frac_def Let_def q [symmetric] using True nz by (simp add: powi2_int)
  next
    case False
    then have p: "(2 :: rat) powi ?q = 1 / of_int (2 ^ nat (- ?q))"
      using powi2_minus [of "- ?q"] powi2_int [of "- ?q"] by simp
    have "?x / 2 powi ?q = of_int (n * 2 ^ nat (- ?q)) / of_int d"
      by (simp add: p)
    then have "rhe (?x / 2 powi ?q) = near_int (n * 2 ^ nat (- ?q)) d"
      using d by (simp only: near_int_rhe)
    then show ?thesis
      unfolding rnd_def rnd_frac_def Let_def q [symmetric] using False nz by (simp add: p)
  qed
qed

lemma nlog2_numeral [fl_eval]:
  "nlog2 1 = 0"
  "nlog2 (numeral (Num.Bit0 k)) = nlog2 (numeral k) + 1"
  "nlog2 (numeral (Num.Bit1 k)) = nlog2 (numeral k) + 1"
  by (subst nlog2.simps; simp)+

lemma rnd_numeral [fl_eval]:
  "rnd (numeral a / numeral b) = rnd_frac (numeral a) (numeral b)"
  "rnd (1 / numeral b) = rnd_frac 1 (numeral b)"
  "rnd (numeral a) = rnd_frac (numeral a) 1"
  "rnd 1 = 1"
  "rnd (- x) = - rnd x"
  using rnd_frac [of "numeral a" "numeral b"] rnd_frac [of 1 "numeral b"] rnd_frac [of "numeral a" 1]
    is_float_of_int [of 1]
  by (simp_all add: rnd_minus is_float_def)

lemmas [fl_eval] = rnd_frac_def near_int_def bexp_frac_def Let_def fl_defs

end
