(* ===== verification/Py_String.thy ===== *)
theory Py_String
  imports Prelude
begin

text \<open>
  The string operations of Python the code uses, on ASCII text: \<open>upper\<close>, \<open>lower\<close>, \<open>strip\<close>, \<open>split\<close> on a
  character, \<open>join\<close>, \<open>startswith\<close>, \<open>str\<close> of an integer and \<open>int\<close> of a string, with the round
  trips between the last two and between \<open>split\<close> and \<open>join\<close>.
\<close>

section \<open>Upper-casing\<close>

text \<open>\<open>str.upper\<close> on ASCII text.\<close>

definition upper_char :: "char \<Rightarrow> char" where
  "upper_char c = (if of_char c \<ge> (97 :: nat) \<and> of_char c \<le> (122 :: nat)
     then char_of (of_char c - (32 :: nat)) else c)"

definition py_upper :: "string \<Rightarrow> string" where
  "py_upper s = map upper_char s"

lemma upper_char_idem [simp]: "upper_char (upper_char c) = upper_char c"
proof (cases "of_char c \<ge> (97 :: nat) \<and> of_char c \<le> (122 :: nat)")
  case True
  let ?k = "of_char c - (32 :: nat)"
  have "?k mod 256 = ?k" by (rule mod_less) (use True in linarith)
  then have "of_char (char_of ?k :: char) = ?k" by (simp add: of_char_of)
  then show ?thesis using True by (auto simp: upper_char_def)
next
  case False
  then have "upper_char c = c" unfolding upper_char_def by (rule if_not_P)
  then show ?thesis by simp
qed

lemma py_upper_idem [simp]: "py_upper (py_upper s) = py_upper s"
  by (simp add: py_upper_def)

text \<open>One character of \<open>str.lower\<close>.\<close>

definition lower_char :: "char \<Rightarrow> char" where
  "lower_char c = (let n = of_char c :: nat in if 65 \<le> n \<and> n \<le> 90 then char_of (n + 32) else c)"

section \<open>Stripping and splitting\<close>

definition py_space :: "char \<Rightarrow> bool" where
  "py_space c = (let n = (of_char c :: nat) in 9 \<le> n \<and> n \<le> 13 \<or> 28 \<le> n \<and> n \<le> 32)"

definition py_strip :: "string \<Rightarrow> string" where
  "py_strip s = rev (dropWhile py_space (rev (dropWhile py_space s)))"

fun py_split :: "char \<Rightarrow> string \<Rightarrow> string list" where
  "py_split d [] = [[]]"
| "py_split d (c # cs) = (if c = d then [] # py_split d cs
     else (case py_split d cs of [] \<Rightarrow> [[c]] | w # ws \<Rightarrow> (c # w) # ws))"

fun py_join :: "string \<Rightarrow> string list \<Rightarrow> string" where
  "py_join d [] = []"
| "py_join d [w] = w"
| "py_join d (w # ws) = w @ d @ py_join d ws"

definition py_startswith :: "string \<Rightarrow> string \<Rightarrow> bool" where
  "py_startswith s p = (take (length p) s = p)"

lemma py_split_neq_Nil [simp]: "py_split d s \<noteq> []"
  by (induction s) (auto split: list.splits)

lemma py_join_Cons: "ws \<noteq> [] \<Longrightarrow> py_join d (w # ws) = w @ d @ py_join d ws"
  by (cases ws) simp_all

lemma py_join_Cons_hd: "py_join d ((c # w) # ws) = c # py_join d (w # ws)"
  by (cases ws) simp_all

lemma py_join_split: "py_join [d] (py_split d s) = s"
proof (induction s)
  case (Cons c cs)
  show ?case
  proof (cases "py_split d cs")
    case (Cons w ws)
    then show ?thesis using Cons.IH
      by (auto simp: py_join_Cons py_join_Cons_hd)
  qed simp
qed simp

lemma py_split_no_sep: "w \<in> set (py_split d s) \<Longrightarrow> d \<notin> set w"
proof (induction s arbitrary: w)
  case (Cons c cs)
  then show ?case by (cases "py_split d cs") (auto split: if_splits)
qed simp

lemma py_split_append: "d \<notin> set w \<Longrightarrow> py_split d (w @ d # s) = w # py_split d s"
  by (induction w) auto

lemma py_split_single: "d \<notin> set w \<Longrightarrow> py_split d w = [w]"
  by (induction w) auto

lemma py_startswith_append [simp]: "py_startswith (p @ s) p"
  by (simp add: py_startswith_def)

section \<open>Integers as text\<close>

fun digits10 :: "nat \<Rightarrow> string" where
  "digits10 n = (if n < 10 then [char_of (48 + n)] else digits10 (n div 10) @ [char_of (48 + n mod 10)])"

declare digits10.simps [simp del]

definition py_str_int :: "int \<Rightarrow> string" where
  "py_str_int k = (if k < 0 then CHR ''-'' # digits10 (nat (- k)) else digits10 (nat k))"

definition is_digit :: "char \<Rightarrow> bool" where
  "is_digit c = (48 \<le> (of_char c :: nat) \<and> (of_char c :: nat) \<le> 57)"

text \<open>Digits with single underscores between them; the flag says that the last character was a digit.\<close>

fun parse_digits :: "nat \<Rightarrow> bool \<Rightarrow> string \<Rightarrow> nat option" where
  "parse_digits acc prev [] = (if prev then Some acc else None)"
| "parse_digits acc prev (c # cs) =
     (if is_digit c then parse_digits (10 * acc + (of_char c - 48)) True cs
      else if c = CHR ''_'' \<and> prev then parse_digits acc False cs
      else None)"

definition py_int :: "string \<Rightarrow> int res" where
  "py_int s = (let t = py_strip s in
     case (case t of [] \<Rightarrow> None
           | c # cs \<Rightarrow> if c = CHR ''-'' then map_option (\<lambda>n. - int n) (parse_digits 0 False cs)
                      else if c = CHR ''+'' then map_option int (parse_digits 0 False cs)
                      else map_option int (parse_digits 0 False t))
     of None \<Rightarrow> Inl ValueError | Some k \<Rightarrow> Inr k)"

lemma of_char_digit: "n < 10 \<Longrightarrow> (of_char (char_of (48 + n) :: char) :: nat) = 48 + n"
  by (simp add: of_char_of)

lemma is_digit_char_of: "(n :: nat) < 10 \<Longrightarrow> is_digit (char_of (48 + n))"
  by (simp add: is_digit_def of_char_digit)

lemma digits10_digits: "c \<in> set (digits10 n) \<Longrightarrow> is_digit c"
proof (induction n rule: digits10.induct)
  case (1 n)
  then show ?case
    by (cases "n < 10") (auto simp: digits10.simps [of n] is_digit_char_of)
qed

lemma digits10_neq_Nil [simp]: "digits10 n \<noteq> []"
  by (simp add: digits10.simps [of n])

lemma parse_digits_append:
  "(\<And>c. c \<in> set xs \<Longrightarrow> is_digit c) \<Longrightarrow> xs \<noteq> [] \<Longrightarrow>
     parse_digits acc prev (xs @ ys) = parse_digits (the (parse_digits acc prev xs)) True ys"
proof (induction xs arbitrary: acc prev)
  case (Cons c cs)
  then show ?case by (cases "cs = []") auto
qed simp

lemma parse_digits10: "parse_digits 0 prev (digits10 n) = Some n"
proof (induction n rule: digits10.induct)
  case (1 n)
  show ?case
  proof (cases "n < 10")
    case True
    then show ?thesis by (simp add: digits10.simps [of n] is_digit_char_of of_char_digit)
  next
    case False
    have "parse_digits 0 prev (digits10 (n div 10) @ [char_of (48 + n mod 10)])
        = parse_digits (n div 10) True [char_of (48 + n mod 10)]"
      using "1.IH" [OF False] digits10_digits by (subst parse_digits_append) auto
    also have "\<dots> = Some n"
      using is_digit_char_of [of "n mod 10"] of_char_digit [of "n mod 10"] by simp
    finally show ?thesis using False by (simp add: digits10.simps [of n])
  qed
qed

lemma digit_not_space: "is_digit c \<Longrightarrow> \<not> py_space c"
  by (auto simp: is_digit_def py_space_def Let_def)

lemma py_strip_nospace: "(\<And>c. c \<in> set s \<Longrightarrow> \<not> py_space c) \<Longrightarrow> py_strip s = s"
proof -
  assume a: "\<And>c. c \<in> set s \<Longrightarrow> \<not> py_space c"
  have d: "dropWhile py_space t = t" if "set t \<subseteq> set s" for t
    using a that by (cases t) auto
  show ?thesis by (simp add: py_strip_def d)
qed

lemma digit_not_sign: "is_digit c \<Longrightarrow> c \<noteq> CHR ''-'' \<and> c \<noteq> CHR ''+'' \<and> c \<noteq> CHR '':''"
  by (auto simp: is_digit_def)

lemma py_str_int_nospace: "c \<in> set (py_str_int k) \<Longrightarrow> \<not> py_space c"
  by (auto simp: py_str_int_def py_space_def Let_def dest!: digits10_digits digit_not_space split: if_splits)

lemma py_int_str: "py_int (py_str_int k) = Inr k"
proof (cases "k < 0")
  case True
  have s: "py_strip (py_str_int k) = py_str_int k" by (rule py_strip_nospace) (rule py_str_int_nospace)
  show ?thesis using True by (simp add: py_int_def s) (simp add: py_str_int_def parse_digits10)
next
  case False
  have s: "py_strip (py_str_int k) = py_str_int k" by (rule py_strip_nospace) (rule py_str_int_nospace)
  obtain c cs where d: "digits10 (nat k) = c # cs" by (cases "digits10 (nat k)") auto
  have "is_digit c" by (rule digits10_digits [of _ "nat k"]) (simp add: d)
  then show ?thesis
    using False d parse_digits10 [of False "nat k"] digit_not_sign [of c]
    by (simp add: py_int_def s) (simp add: py_str_int_def)
qed

end
