(* ===== verification/Py_Time.thy ===== *)
theory Py_Time
  imports Py_Float Py_String
begin

text \<open>
  Datetimes as the code uses them (\<open>src/app/utils/time.py\<close>) and the timeframe enum
  (\<open>Timeframe\<close> of \<open>src/app/config/settings.py\<close>).  A datetime is its
  wall-clock reading in microseconds since 1970-01-01T00:00 and its UTC offset in microseconds, absent
  for a naive datetime.  As in Python, \<open>==\<close> between naive and aware is false and an ordering
  comparison between them raises \<open>TypeError\<close>.
\<close>

section \<open>Datetimes\<close>

record py_datetime =
  dt_wall :: int
  dt_off :: "int option"

definition utc :: "int \<Rightarrow> py_datetime" where
  "utc us = \<lparr>dt_wall = us, dt_off = Some 0\<rparr>"

text \<open>\<open>to_utc\<close>: naive datetimes are assumed UTC.\<close>

definition to_utc :: "py_datetime \<Rightarrow> py_datetime" where
  "to_utc ts = (case dt_off ts of
       None \<Rightarrow> ts\<lparr>dt_off := Some 0\<rparr>
     | Some off \<Rightarrow> \<lparr>dt_wall = dt_wall ts - off, dt_off = Some 0\<rparr>)"

definition dt_hour :: "py_datetime \<Rightarrow> int" where
  "dt_hour ts = (dt_wall ts div 3600000000) mod 24"

definition dt_minute :: "py_datetime \<Rightarrow> int" where
  "dt_minute ts = (dt_wall ts div 60000000) mod 60"

definition dt_second :: "py_datetime \<Rightarrow> int" where
  "dt_second ts = (dt_wall ts div 1000000) mod 60"

definition dt_microsecond :: "py_datetime \<Rightarrow> int" where
  "dt_microsecond ts = dt_wall ts mod 1000000"

text \<open>\<open>ts.date()\<close> as a day number.\<close>

definition dt_date :: "py_datetime \<Rightarrow> int" where
  "dt_date ts = dt_wall ts div 86400000000"

definition dt_eq :: "py_datetime \<Rightarrow> py_datetime \<Rightarrow> bool" where
  "dt_eq a b = (case (dt_off a, dt_off b) of
       (None, None) \<Rightarrow> dt_wall a = dt_wall b
     | (Some p, Some q) \<Rightarrow> dt_wall a - p = dt_wall b - q
     | _ \<Rightarrow> False)"

definition dt_gt :: "py_datetime \<Rightarrow> py_datetime \<Rightarrow> bool res" where
  "dt_gt a b = (case (dt_off a, dt_off b) of
       (None, None) \<Rightarrow> Inr (dt_wall a > dt_wall b)
     | (Some p, Some q) \<Rightarrow> Inr (dt_wall a - p > dt_wall b - q)
     | _ \<Rightarrow> Inl TypeError)"

text \<open>
  \<open>datetime.fromtimestamp(t)\<close> without a time zone: the naive local wall clock, for a system whose
  offset from UTC is \<open>local_off\<close>.  \<open>timestamp()\<close> of an aware datetime is its UTC reading.
\<close>

definition dt_timestamp :: "py_datetime \<Rightarrow> int" where
  "dt_timestamp ts = dt_wall (to_utc ts)"

definition dt_fromtimestamp :: "int \<Rightarrow> int \<Rightarrow> py_datetime" where
  "dt_fromtimestamp local_off us = \<lparr>dt_wall = us + local_off, dt_off = None\<rparr>"

definition floor_to_minute :: "py_datetime \<Rightarrow> int \<Rightarrow> py_datetime res" where
  "floor_to_minute ts0 minutes = (let ts = to_utc ts0 in
     if minutes = 0 then Inl ZeroDivisionError
     else Inr (ts\<lparr>dt_wall := dt_wall ts
            - ((dt_minute ts mod minutes) * 60000000 + dt_second ts * 1000000 + dt_microsecond ts)\<rparr>))"

lemma dt_off_to_utc [simp]: "dt_off (to_utc ts) = Some 0"
  by (simp add: to_utc_def split: option.splits)

lemma to_utc_idem [simp]: "to_utc (to_utc ts) = to_utc ts"
  by (simp add: to_utc_def split: option.splits)

lemma to_utc_utc [simp]: "to_utc (utc us) = utc us"
  by (simp add: to_utc_def utc_def)

lemma to_utc_eq_iff: "to_utc a = to_utc b \<longleftrightarrow> dt_wall (to_utc a) = dt_wall (to_utc b)"
  by (auto intro: py_datetime.equality)

lemma dt_eq_utc: "dt_eq (to_utc a) (to_utc b) \<longleftrightarrow> to_utc a = to_utc b"
  unfolding to_utc_eq_iff by (simp add: dt_eq_def)

lemma dt_eq_refl [simp]: "dt_eq a a"
  by (simp add: dt_eq_def split: option.splits)

lemma dt_gt_aware_naive: "dt_off a = Some p \<Longrightarrow> dt_off b = None \<Longrightarrow> dt_gt a b = Inl TypeError"
  by (simp add: dt_gt_def)

lemma dt_gt_utc: "dt_gt (utc a) (utc b) = Inr (b < a)"
  by (simp add: dt_gt_def utc_def)

lemma dt_hour_range: "0 \<le> dt_hour ts \<and> dt_hour ts < 24"
  by (simp add: dt_hour_def)

text \<open>The clock reading splits into hour-of-epoch, minute, second and microsecond.\<close>

lemma clock_split:
  "w = a * 1000000 + r \<Longrightarrow> a = b * 60 + s \<Longrightarrow> b = c * 60 + m \<Longrightarrow>
     w = c * 3600000000 + m * 60000000 + s * 1000000 + r" for w :: int
  by simp

lemma dt_wall_split:
  "dt_wall ts = (dt_wall ts div 3600000000) * 3600000000 + dt_minute ts * 60000000
     + dt_second ts * 1000000 + dt_microsecond ts"
proof -
  let ?a = "dt_wall ts div 1000000"
  have e: "dt_wall ts div 60000000 = ?a div 60" "dt_wall ts div 3600000000 = ?a div 60 div 60"
    by (simp_all flip: zdiv_zmult2_eq)
  show ?thesis
    unfolding dt_minute_def dt_second_def dt_microsecond_def e
    by (rule clock_split) (rule div_mult_mod_eq [symmetric])+
qed

lemma floor_to_minute_bounds:
  assumes "floor_to_minute ts m = Inr f" and "0 < m"
  shows "dt_wall f \<le> dt_wall (to_utc ts)" and "dt_wall (to_utc ts) - dt_wall f < m * 60000000"
proof -
  let ?t = "to_utc ts"
  let ?d = "(dt_minute ?t mod m) * 60000000 + dt_second ?t * 1000000 + dt_microsecond ?t"
  have f: "dt_wall f = dt_wall ?t - ?d"
    using assms by (auto simp: floor_to_minute_def Let_def)
  have r: "0 \<le> dt_minute ?t mod m" "dt_minute ?t mod m \<le> m - 1"
    "0 \<le> dt_second ?t" "dt_second ?t < 60" "0 \<le> dt_microsecond ?t" "dt_microsecond ?t < 1000000"
    using assms(2) pos_mod_bound [of m "dt_minute ?t"]
    by (auto simp: dt_second_def dt_microsecond_def simp del: pos_mod_bound)
  show "dt_wall f \<le> dt_wall ?t" using f r by linarith
  show "dt_wall ?t - dt_wall f < m * 60000000"
  proof -
    have "dt_minute ?t mod m * 60000000 \<le> (m - 1) * 60000000" using r by simp
    then show ?thesis using f r by linarith
  qed
qed

section \<open>Timeframes\<close>

datatype timeframe = M1 | M5 | M15 | M30 | H1 | H4 | D1

fun to_seconds :: "timeframe \<Rightarrow> int" where
  "to_seconds M1 = 60"
| "to_seconds M5 = 300"
| "to_seconds M15 = 900"
| "to_seconds M30 = 1800"
| "to_seconds H1 = 3600"
| "to_seconds H4 = 14400"
| "to_seconds D1 = 86400"

fun tf_value :: "timeframe \<Rightarrow> string" where
  "tf_value M1 = ''M1''"
| "tf_value M5 = ''M5''"
| "tf_value M15 = ''M15''"
| "tf_value M30 = ''M30''"
| "tf_value H1 = ''H1''"
| "tf_value H4 = ''H4''"
| "tf_value D1 = ''D1''"

definition all_timeframes :: "timeframe list" where
  "all_timeframes = [M1, M5, M15, M30, H1, H4, D1]"

text \<open>\<open>Timeframe(value)\<close> raises \<open>ValueError\<close> for a string that is no member.\<close>

definition timeframe_of :: "string \<Rightarrow> timeframe res" where
  "timeframe_of s = (case List.find (\<lambda>t. tf_value t = s) all_timeframes of
       None \<Rightarrow> Inl ValueError | Some t \<Rightarrow> Inr t)"

lemma timeframe_of_value [simp]: "timeframe_of (tf_value t) = Inr t"
  by (cases t) (simp_all add: timeframe_of_def all_timeframes_def)

lemma to_seconds_pos: "0 < to_seconds t"
  by (cases t) simp_all

end
