(* ===== verification/Models.thy ===== *)
theory Models
  imports Py_Time
begin

text \<open>
  The value objects of \<open>src/app/models\<close>: \<open>Candle\<close> and \<open>CandleSeries\<close> (candle.py), \<open>Signal\<close>
  (signal.py), \<open>Order\<close> (order.py) and \<open>Trade\<close> (trade.py).  The constructors of the pydantic models
  return a sum: \<open>Inl ValidationError\<close> when a field constraint or validator fails.  Pydantic validates
  the fields in the order of their declaration and shows a validator only the fields validated
  before it; \<open>mk_candle\<close> follows that order.
\<close>

section \<open>Candle\<close>

record candle =
  c_symbol :: string
  c_timeframe :: string
  c_timestamp :: py_datetime
  c_open :: pyfloat
  c_high :: pyfloat
  c_low :: pyfloat
  c_close :: pyfloat
  c_volume :: pyfloat

text \<open>
  The validator of \<open>high\<close>; its first two arguments are what \<open>info.data\<close> holds for \<open>open\<close> and
  \<open>low\<close> at that moment.
\<close>

definition high_consistent :: "pyfloat option \<Rightarrow> pyfloat option \<Rightarrow> pyfloat \<Rightarrow> pyfloat res" where
  "high_consistent dopen dlow v =
     (if (case dopen of None \<Rightarrow> False | Some x \<Rightarrow> v < x) then Inl ValueError
      else if (case dlow of None \<Rightarrow> False | Some x \<Rightarrow> v < x) then Inl ValueError
      else Inr v)"

text \<open>
  The fields are declared in the order open, high, low, close: when \<open>high\<close> is validated \<open>open\<close> is in
  \<open>info.data\<close> if it was valid, and \<open>low\<close> is not there yet.
\<close>

definition mk_candle :: "string \<Rightarrow> string \<Rightarrow> py_datetime \<Rightarrow> pyfloat \<Rightarrow> pyfloat \<Rightarrow> pyfloat \<Rightarrow> pyfloat
    \<Rightarrow> pyfloat \<Rightarrow> candle res" where
  "mk_candle symb tf ts opn high low close volume =
     (let dopen = (if 0 < opn then Some opn else None);
          high_ok = (0 < high \<and> is_ok (high_consistent dopen None high))
      in if dopen \<noteq> None \<and> high_ok \<and> 0 < low \<and> 0 < close \<and> 0 \<le> volume
         then Inr \<lparr>c_symbol = symb, c_timeframe = tf, c_timestamp = to_utc ts, c_open = opn,
                   c_high = high, c_low = low, c_close = close, c_volume = volume\<rparr>
         else Inl ValidationError)"

definition c_body :: "candle \<Rightarrow> pyfloat" where
  "c_body c = \<bar>fsub (c_close c) (c_open c)\<bar>"

definition c_range :: "candle \<Rightarrow> pyfloat" where
  "c_range c = fsub (c_high c) (c_low c)"

definition upper_wick :: "candle \<Rightarrow> pyfloat" where
  "upper_wick c = fsub (c_high c) (max (c_close c) (c_open c))"

definition lower_wick :: "candle \<Rightarrow> pyfloat" where
  "lower_wick c = fsub (min (c_close c) (c_open c)) (c_low c)"

definition is_bullish :: "candle \<Rightarrow> bool" where
  "is_bullish c \<longleftrightarrow> c_close c > c_open c"

definition is_bearish :: "candle \<Rightarrow> bool" where
  "is_bearish c \<longleftrightarrow> c_close c < c_open c"

text \<open>What the constructor guarantees, and what a bar of market data should satisfy.\<close>

definition candle_ok :: "candle \<Rightarrow> bool" where
  "candle_ok c \<longleftrightarrow> dt_off (c_timestamp c) = Some 0 \<and> 0 < c_open c \<and> 0 < c_high c \<and> 0 < c_low c
     \<and> 0 < c_close c \<and> 0 \<le> c_volume c \<and> c_open c \<le> c_high c"

definition ohlc_ok :: "candle \<Rightarrow> bool" where
  "ohlc_ok c \<longleftrightarrow> c_low c \<le> min (c_open c) (c_close c) \<and> max (c_open c) (c_close c) \<le> c_high c"

definition candle_floats :: "candle \<Rightarrow> bool" where
  "candle_floats c \<longleftrightarrow> is_float (c_open c) \<and> is_float (c_high c) \<and> is_float (c_low c) \<and> is_float (c_close c)"

lemma high_consistent_None [simp]:
  "high_consistent None None v = Inr v"
  "is_ok (high_consistent (Some x) None v) \<longleftrightarrow> x \<le> v"
  by (auto simp: high_consistent_def not_less)

lemma mk_candle_Inr_iff:
  "mk_candle symb tf ts opn high low close volume = Inr c \<longleftrightarrow>
     (0 < opn \<and> 0 < high \<and> opn \<le> high \<and> 0 < low \<and> 0 < close \<and> 0 \<le> volume \<and>
      c = \<lparr>c_symbol = symb, c_timeframe = tf, c_timestamp = to_utc ts, c_open = opn,
           c_high = high, c_low = low, c_close = close, c_volume = volume\<rparr>)"
  by (auto simp: mk_candle_def Let_def)

lemma mk_candle_Inl: "mk_candle symb tf ts opn high low close volume = Inl e \<Longrightarrow> e = ValidationError"
  by (auto simp: mk_candle_def Let_def split: if_splits)

lemma mk_candle_ok: "mk_candle symb tf ts opn high low close volume = Inr c \<Longrightarrow> candle_ok c"
  by (auto simp: mk_candle_Inr_iff candle_ok_def)

lemma bullish_bearish_exclusive: "\<not> (is_bullish c \<and> is_bearish c)"
  by (simp add: is_bullish_def is_bearish_def)

lemma ohlc_wicks_nonneg:
  assumes "ohlc_ok c"
  shows "0 \<le> upper_wick c" and "0 \<le> lower_wick c" and "0 \<le> c_range c"
  using assms by (auto simp: ohlc_ok_def upper_wick_def lower_wick_def c_range_def intro!: fsub_nonneg)

lemma c_range_pos_iff: "candle_floats c \<Longrightarrow> 0 < c_range c \<longleftrightarrow> c_low c < c_high c"
  by (simp add: candle_floats_def c_range_def fsub_pos_iff)

section \<open>CandleSeries\<close>

record candle_series =
  sr_symbol :: string
  sr_timeframe :: string
  sr_buffer :: "candle list"
  sr_maxlen :: nat

definition new_series :: "string \<Rightarrow> string \<Rightarrow> nat \<Rightarrow> candle_series" where
  "new_series symb tf n = \<lparr>sr_symbol = symb, sr_timeframe = tf, sr_buffer = [], sr_maxlen = n\<rparr>"

definition series_append :: "candle_series \<Rightarrow> candle \<Rightarrow> candle_series res" where
  "series_append s c =
     (if c_symbol c \<noteq> sr_symbol s \<or> c_timeframe c \<noteq> sr_timeframe s then Inl ValueError
      else if sr_buffer s \<noteq> [] \<and> dt_eq (c_timestamp (last (sr_buffer s))) (c_timestamp c)
        then Inr (s\<lparr>sr_buffer := butlast (sr_buffer s) @ [c]\<rparr>)
      else Inr (s\<lparr>sr_buffer := dq_append (sr_maxlen s) (sr_buffer s) c\<rparr>))"

text \<open>\<open>extend\<close> appends one by one; an error leaves what was appended before it.\<close>

fun series_extend :: "candle_series \<Rightarrow> candle list \<Rightarrow> unit res \<times> candle_series" where
  "series_extend s [] = (Inr (), s)"
| "series_extend s (c # cs) = (case series_append s c of
       Inl e \<Rightarrow> (Inl e, s) | Inr s' \<Rightarrow> series_extend s' cs)"

definition series_last :: "candle_series \<Rightarrow> candle option" where
  "series_last s = (if sr_buffer s = [] then None else Some (last (sr_buffer s)))"

definition series_tail :: "candle_series \<Rightarrow> int \<Rightarrow> candle list" where
  "series_tail s n =
     (if n \<le> 0 then []
      else if n \<ge> int (length (sr_buffer s)) then sr_buffer s
      else take_last (nat n) (sr_buffer s))"

definition series_get :: "candle_series \<Rightarrow> int \<Rightarrow> candle res" where
  "series_get s i = (let n = int (length (sr_buffer s)); j = (if i < 0 then n + i else i)
     in if 0 \<le> j \<and> j < n then Inr (sr_buffer s ! nat j) else Inl IndexError)"

text \<open>
  The invariant of a series: bounded, every bar belongs to it, and no two neighbouring bars have
  the same timestamp (a live tick replaces the last bar).
\<close>

definition series_inv :: "candle_series \<Rightarrow> bool" where
  "series_inv s \<longleftrightarrow> length (sr_buffer s) \<le> sr_maxlen s
     \<and> (\<forall>c \<in> set (sr_buffer s). c_symbol c = sr_symbol s \<and> c_timeframe c = sr_timeframe s)
     \<and> list_all (\<lambda>(a, b). \<not> dt_eq (c_timestamp a) (c_timestamp b)) (consec (sr_buffer s))"

lemma series_inv_new: "series_inv (new_series symb tf n)"
  by (simp add: series_inv_def new_series_def)

lemma series_append_fields:
  "series_append s c = Inr s' \<Longrightarrow> sr_symbol s' = sr_symbol s \<and> sr_timeframe s' = sr_timeframe s \<and> sr_maxlen s' = sr_maxlen s"
  by (auto simp: series_append_def split: if_splits)

lemma series_append_inv:
  assumes inv: "series_inv s" and app: "series_append s c = Inr s'"
  shows "series_inv s'"
proof (cases "sr_buffer s \<noteq> [] \<and> dt_eq (c_timestamp (last (sr_buffer s))) (c_timestamp c)")
  case True
  let ?b = "sr_buffer s"
  have s': "s' = s\<lparr>sr_buffer := butlast ?b @ [c]\<rparr>" and m: "c_symbol c = sr_symbol s" "c_timeframe c = sr_timeframe s"
    using app True by (auto simp: series_append_def split: if_splits)
  have b: "?b = butlast ?b @ [last ?b]" using True by simp
  have eqv: "dt_eq (c_timestamp x) (c_timestamp (last ?b))" if "dt_eq (c_timestamp x) (c_timestamp c)" for x
    using that True by (auto simp: dt_eq_def split: option.splits prod.splits)
  have "list_all (\<lambda>(a, b). \<not> dt_eq (c_timestamp a) (c_timestamp b)) (consec (butlast ?b @ [c]))"
  proof (cases "butlast ?b = []")
    case False
    have "list_all (\<lambda>(a, b). \<not> dt_eq (c_timestamp a) (c_timestamp b)) (consec (butlast ?b @ [last ?b]))"
      using inv b by (simp add: series_inv_def)
    with False show ?thesis using eqv by (auto simp: consec_snoc)
  qed simp
  moreover have "length (butlast ?b @ [c]) \<le> sr_maxlen s"
    using inv True by (cases ?b) (auto simp: series_inv_def)
  ultimately show ?thesis
    using inv m unfolding s' series_inv_def by (auto dest: in_set_butlastD)
next
  case False
  let ?b = "sr_buffer s"
  have s': "s' = s\<lparr>sr_buffer := dq_append (sr_maxlen s) ?b c\<rparr>" and m: "c_symbol c = sr_symbol s" "c_timeframe c = sr_timeframe s"
    using app False by (auto simp: series_append_def split: if_splits)
  have "list_all (\<lambda>(a, b). \<not> dt_eq (c_timestamp a) (c_timestamp b)) (consec (?b @ [c]))"
    using inv False by (cases "?b = []") (auto simp: series_inv_def consec_snoc)
  then have "list_all (\<lambda>(a, b). \<not> dt_eq (c_timestamp a) (c_timestamp b)) (consec (dq_append (sr_maxlen s) ?b c))"
    by (simp add: dq_append_def take_last_def consec_drop list_all_drop del: drop_append)
  then show ?thesis
    using inv m set_dq_append [of "sr_maxlen s" ?b c] length_dq_append_le [of "sr_maxlen s" ?b c]
    unfolding s' series_inv_def by auto
qed

lemma series_extend_inv: "series_inv s \<Longrightarrow> series_inv (snd (series_extend s cs))"
  by (induction cs arbitrary: s) (auto split: sum.splits dest: series_append_inv)

lemma series_append_last:
  "series_append s c = Inr s' \<Longrightarrow> 0 < sr_maxlen s \<Longrightarrow> series_last s' = Some c"
  by (auto simp: series_append_def series_last_def split: if_splits)

lemma length_series_tail: "length (series_tail s n) = min (nat n) (length (sr_buffer s))"
  by (auto simp: series_tail_def)

section \<open>Signal\<close>

datatype signal_direction = LONG | SHORT

record signal =
  sg_symbol :: string
  sg_timeframe :: string
  sg_direction :: signal_direction
  sg_entry :: pyfloat
  sg_sl :: pyfloat
  sg_tp :: pyfloat
  sg_reason :: string
  sg_session :: string
  sg_tags :: "string list"
  sg_generated_at :: py_datetime
  sg_confidence :: pyfloat

text \<open>The pydantic constructor: positive prices and a confidence in \<open>[0, 1]\<close>.\<close>

definition mk_signal :: "signal \<Rightarrow> signal res" where
  "mk_signal sg =
     (if 0 < sg_entry sg \<and> 0 < sg_sl sg \<and> 0 < sg_tp sg \<and> 0 \<le> sg_confidence sg \<and> sg_confidence sg \<le> 1
      then Inr sg else Inl ValidationError)"

definition signal_long :: "string \<Rightarrow> string \<Rightarrow> pyfloat \<Rightarrow> pyfloat \<Rightarrow> pyfloat \<Rightarrow> string \<Rightarrow> string
    \<Rightarrow> string list \<Rightarrow> py_datetime \<Rightarrow> pyfloat \<Rightarrow> signal res" where
  "signal_long symb tf entry sl tp reason session tags generated_at confidence =
     (if \<not> (sl < entry \<and> entry < tp) then Inl ValueError
      else mk_signal \<lparr>sg_symbol = symb, sg_timeframe = tf, sg_direction = LONG, sg_entry = entry,
             sg_sl = sl, sg_tp = tp, sg_reason = reason, sg_session = session, sg_tags = tags,
             sg_generated_at = to_utc generated_at, sg_confidence = confidence\<rparr>)"

definition signal_short :: "string \<Rightarrow> string \<Rightarrow> pyfloat \<Rightarrow> pyfloat \<Rightarrow> pyfloat \<Rightarrow> string \<Rightarrow> string
    \<Rightarrow> string list \<Rightarrow> py_datetime \<Rightarrow> pyfloat \<Rightarrow> signal res" where
  "signal_short symb tf entry sl tp reason session tags generated_at confidence =
     (if \<not> (tp < entry \<and> entry < sl) then Inl ValueError
      else mk_signal \<lparr>sg_symbol = symb, sg_timeframe = tf, sg_direction = SHORT, sg_entry = entry,
             sg_sl = sl, sg_tp = tp, sg_reason = reason, sg_session = session, sg_tags = tags,
             sg_generated_at = to_utc generated_at, sg_confidence = confidence\<rparr>)"

definition risk_distance :: "signal \<Rightarrow> pyfloat" where
  "risk_distance sg = \<bar>fsub (sg_entry sg) (sg_sl sg)\<bar>"

definition reward_distance :: "signal \<Rightarrow> pyfloat" where
  "reward_distance sg = \<bar>fsub (sg_tp sg) (sg_entry sg)\<bar>"

definition rr_ratio :: "signal \<Rightarrow> pyfloat" where
  "rr_ratio sg = (if risk_distance sg = 0 then 0 else fquot (reward_distance sg) (risk_distance sg))"

text \<open>A signal whose levels are on the right sides of its entry and whose fields passed validation.\<close>

definition signal_ok :: "signal \<Rightarrow> bool" where
  "signal_ok sg \<longleftrightarrow> 0 < sg_entry sg \<and> 0 < sg_sl sg \<and> 0 < sg_tp sg
     \<and> 0 \<le> sg_confidence sg \<and> sg_confidence sg \<le> 1
     \<and> (case sg_direction sg of
           LONG \<Rightarrow> sg_sl sg < sg_entry sg \<and> sg_entry sg < sg_tp sg
         | SHORT \<Rightarrow> sg_tp sg < sg_entry sg \<and> sg_entry sg < sg_sl sg)"

definition signal_floats :: "signal \<Rightarrow> bool" where
  "signal_floats sg \<longleftrightarrow> is_float (sg_entry sg) \<and> is_float (sg_sl sg) \<and> is_float (sg_tp sg)"

lemma mk_signal_Inr_iff:
  "mk_signal sg = Inr sg' \<longleftrightarrow> 0 < sg_entry sg \<and> 0 < sg_sl sg \<and> 0 < sg_tp sg
     \<and> 0 \<le> sg_confidence sg \<and> sg_confidence sg \<le> 1 \<and> sg' = sg"
  by (auto simp: mk_signal_def)

lemma signal_long_ok:
  "signal_long symb tf e sl tp r ses tags g conf = Inr sg \<Longrightarrow>
     signal_ok sg \<and> sg_direction sg = LONG \<and> sg_symbol sg = symb \<and> sg_timeframe sg = tf \<and> sg_entry sg = e
     \<and> sg_sl sg = sl \<and> sg_tp sg = tp \<and> sg_tags sg = tags \<and> sg_confidence sg = conf
     \<and> sg_generated_at sg = to_utc g \<and> sg_session sg = ses"
  by (auto simp: signal_long_def mk_signal_Inr_iff signal_ok_def split: if_splits)

lemma signal_short_ok:
  "signal_short symb tf e sl tp r ses tags g conf = Inr sg \<Longrightarrow>
     signal_ok sg \<and> sg_direction sg = SHORT \<and> sg_symbol sg = symb \<and> sg_timeframe sg = tf \<and> sg_entry sg = e
     \<and> sg_sl sg = sl \<and> sg_tp sg = tp \<and> sg_tags sg = tags \<and> sg_confidence sg = conf
     \<and> sg_generated_at sg = to_utc g \<and> sg_session sg = ses"
  by (auto simp: signal_short_def mk_signal_Inr_iff signal_ok_def split: if_splits)

lemma risk_distance_nonneg: "0 \<le> risk_distance sg"
  by (simp add: risk_distance_def)

lemma signal_ok_risk_pos: "signal_ok sg \<Longrightarrow> signal_floats sg \<Longrightarrow> 0 < risk_distance sg"
  using fsub_pos_iff [of "sg_sl sg" "sg_entry sg"] fsub_pos_iff [of "sg_entry sg" "sg_sl sg"]
    fsub_minus_swap [of "sg_entry sg" "sg_sl sg"]
  by (auto simp: signal_ok_def signal_floats_def risk_distance_def split: signal_direction.splits)

lemma rr_ratio_nonneg: "0 \<le> rr_ratio sg"
  by (simp add: rr_ratio_def fquot_nonneg reward_distance_def risk_distance_def)

section \<open>Order\<close>

datatype order_side = BUY | SELL

datatype order_type = MARKET | LIMIT | STOP

datatype order_status = PENDING | SUBMITTED | FILLED | PARTIAL | CANCELLED | REJECTED | FAILED

record order =
  client_order_id :: string
  o_symbol :: string
  o_side :: order_side
  o_type :: order_type
  o_quantity :: pyfloat
  o_price :: "pyfloat option"
  o_stop_loss :: "pyfloat option"
  o_take_profit :: "pyfloat option"
  o_status :: order_status
  broker_order_id :: "string option"
  submitted_at :: "py_datetime option"
  filled_price :: "pyfloat option"
  filled_at :: "py_datetime option"
  rejection_reason :: "string option"

text \<open>The pydantic constructor: the quantity must be positive.\<close>

definition mk_order :: "order \<Rightarrow> order res" where
  "mk_order ord = (if 0 < o_quantity ord then Inr ord else Inl ValidationError)"

section \<open>Trade\<close>

datatype trade_status = T_OPEN | CLOSED_WIN | CLOSED_LOSS | CLOSED_BE | T_CANCELLED

record trade =
  trade_id :: string
  t_symbol :: string
  t_direction :: signal_direction
  t_entry_time :: py_datetime
  t_entry_price :: pyfloat
  t_stop_loss :: pyfloat
  t_take_profit :: pyfloat
  t_quantity :: pyfloat
  t_exit_time :: "py_datetime option"
  t_exit_price :: "pyfloat option"
  t_pnl :: "pyfloat option"
  t_pnl_pct :: "pyfloat option"
  t_status :: trade_status
  t_session :: string
  t_entry_reason :: string
  t_exit_reason :: "string option"
  t_structure_tags :: "string list"
  t_spread_pips :: "pyfloat option"
  t_slippage_pips :: "pyfloat option"
  t_latency_ms :: "pyfloat option"
  t_rr_ratio :: "pyfloat option"
  t_screenshot_path :: "string option"

text \<open>\<open>status.value.startswith("CLOSED")\<close>, and \<open>trade.pnl or 0.0\<close>.\<close>

fun dir_value :: "signal_direction \<Rightarrow> string" where
  "dir_value LONG = ''LONG''"
| "dir_value SHORT = ''SHORT''"

fun ts_value :: "trade_status \<Rightarrow> string" where
  "ts_value T_OPEN = ''OPEN''"
| "ts_value CLOSED_WIN = ''CLOSED_WIN''"
| "ts_value CLOSED_LOSS = ''CLOSED_LOSS''"
| "ts_value CLOSED_BE = ''CLOSED_BE''"
| "ts_value T_CANCELLED = ''CANCELLED''"

definition is_closed :: "trade \<Rightarrow> bool" where
  "is_closed t \<longleftrightarrow> take 6 (ts_value (t_status t)) = ''CLOSED''"

definition pnl_or_0 :: "trade \<Rightarrow> pyfloat" where
  "pnl_or_0 t = (case t_pnl t of None \<Rightarrow> 0 | Some p \<Rightarrow> p)"

lemma is_closed_iff: "is_closed t \<longleftrightarrow> t_status t \<in> {CLOSED_WIN, CLOSED_LOSS, CLOSED_BE}"
  by (cases "t_status t") (simp_all add: is_closed_def)

section \<open>A bar for the witnesses\<close>

text \<open>The EURUSD M1 bar of minute \<open>n\<close> of the epoch with the given open, high, low and close.\<close>

definition sample_bar :: "pyfloat \<Rightarrow> pyfloat \<Rightarrow> pyfloat \<Rightarrow> pyfloat \<Rightarrow> int \<Rightarrow> candle" where
  "sample_bar opn high low close n =
     \<lparr>c_symbol = ''EURUSD'', c_timeframe = ''M1'', c_timestamp = utc (n * 60000000), c_open = opn,
      c_high = high, c_low = low, c_close = close, c_volume = 1\<rparr>"

lemma sample_bar_simps [simp]:
  "c_symbol (sample_bar opn high low close n) = ''EURUSD''"
  "c_timeframe (sample_bar opn high low close n) = ''M1''"
  "c_timestamp (sample_bar opn high low close n) = utc (n * 60000000)"
  "c_open (sample_bar opn high low close n) = opn"
  "c_high (sample_bar opn high low close n) = high"
  "c_low (sample_bar opn high low close n) = low"
  "c_close (sample_bar opn high low close n) = close"
  "c_volume (sample_bar opn high low close n) = 1"
  by (simp_all add: sample_bar_def)

end
