(* ===== verification/Instruments.thy ===== *)
theory Instruments
  imports Models
begin

text \<open>
  Instrument metadata (\<open>src/app/utils/instruments.py\<close>) and the session filter
  (\<open>src/app/utils/sessions.py\<close>).  Decimal literals of the source denote the nearest binary64, so
  they appear under \<open>rnd\<close>.  The registry is a map; the application never registers an instrument at
  run time, so the other theories look symbols up in \<open>default_registry\<close>.
\<close>

section \<open>Instruments\<close>

record instrument =
  i_symbol :: string
  pip_size :: pyfloat
  contract_size :: pyfloat
  quote_per_pip_per_lot :: pyfloat
  is_metal :: bool

definition inst_pips :: "instrument \<Rightarrow> pyfloat \<Rightarrow> pyfloat res" where
  "inst_pips i price_delta = fdiv price_delta (pip_size i)"

definition inst_price_delta :: "instrument \<Rightarrow> pyfloat \<Rightarrow> pyfloat" where
  "inst_price_delta i pips = fmul pips (pip_size i)"

type_synonym registry = "string \<rightharpoonup> instrument"

definition default_registry :: registry where
  "default_registry = map_of [
     (''EURUSD'', \<lparr>i_symbol = ''EURUSD'', pip_size = rnd (1 / 10000), contract_size = 100000,
        quote_per_pip_per_lot = 10, is_metal = False\<rparr>),
     (''GBPUSD'', \<lparr>i_symbol = ''GBPUSD'', pip_size = rnd (1 / 10000), contract_size = 100000,
        quote_per_pip_per_lot = 10, is_metal = False\<rparr>),
     (''USDJPY'', \<lparr>i_symbol = ''USDJPY'', pip_size = rnd (1 / 100), contract_size = 100000,
        quote_per_pip_per_lot = 9, is_metal = False\<rparr>),
     (''XAUUSD'', \<lparr>i_symbol = ''XAUUSD'', pip_size = rnd (1 / 10), contract_size = 100,
        quote_per_pip_per_lot = 10, is_metal = True\<rparr>),
     (''BTCUSD'', \<lparr>i_symbol = ''BTCUSD'', pip_size = 1, contract_size = 1,
        quote_per_pip_per_lot = 1, is_metal = False\<rparr>),
     (''ETHUSD'', \<lparr>i_symbol = ''ETHUSD'', pip_size = rnd (1 / 10), contract_size = 1,
        quote_per_pip_per_lot = 1, is_metal = False\<rparr>)]"

definition get_instrument_in :: "registry \<Rightarrow> string \<Rightarrow> instrument res" where
  "get_instrument_in reg symb = (case reg (py_upper symb) of None \<Rightarrow> Inl KeyError | Some i \<Rightarrow> Inr i)"

definition register_instrument :: "registry \<Rightarrow> instrument \<Rightarrow> registry" where
  "register_instrument reg i = reg(py_upper (i_symbol i) \<mapsto> i)"

abbreviation get_instrument :: "string \<Rightarrow> instrument res" where
  "get_instrument symb \<equiv> get_instrument_in default_registry symb"

text \<open>The interface of the registry: what a lookup returns after a registration.\<close>

locale instrument_lookup =
  fixes lookup :: "'r \<Rightarrow> string \<Rightarrow> instrument res"
    and register :: "'r \<Rightarrow> instrument \<Rightarrow> 'r"
    and canon :: "string \<Rightarrow> string"
  assumes lookup_register: "lookup (register r i) s = (if canon s = canon (i_symbol i) then Inr i else lookup r s)"
    and lookup_error: "lookup r s = Inl e \<Longrightarrow> e = KeyError"
    and lookup_canon: "canon s = canon s' \<Longrightarrow> lookup r s = lookup r s'"
begin

lemma lookup_registered: "lookup (register r i) (i_symbol i) = Inr i"
  by (simp add: lookup_register)

lemma register_override: "lookup (register (register r i) j) s =
    (if canon s = canon (i_symbol j) then Inr j else lookup (register r i) s)"
  by (simp add: lookup_register)

lemma register_idem: "lookup (register (register r i) i) s = lookup (register r i) s"
  by (simp add: lookup_register)

end

interpretation reg: instrument_lookup get_instrument_in register_instrument py_upper
  by unfold_locales (auto simp: get_instrument_in_def register_instrument_def split: option.splits if_splits)

text \<open>Every instrument of the default registry has a positive pip size and pip value.\<close>

definition inst_ok :: "instrument \<Rightarrow> bool" where
  "inst_ok i \<longleftrightarrow> 0 < pip_size i \<and> is_float (pip_size i) \<and> 0 < quote_per_pip_per_lot i"

lemma rnd_literals_pos: "0 < rnd (1 / 10)" "0 < rnd (1 / 100)" "0 < rnd (1 / 10000)"
  by (simp_all add: fl_eval)

lemma default_registry_ok: "default_registry s = Some i \<Longrightarrow> inst_ok i"
  unfolding default_registry_def
  by (auto simp: inst_ok_def rnd_literals_pos is_float_of_int [of 1, simplified] split: if_splits)

lemma get_instrument_ok: "get_instrument s = Inr i \<Longrightarrow> inst_ok i"
  by (auto simp: get_instrument_in_def dest: default_registry_ok split: option.splits)

lemma inst_pips_ok: "inst_ok i \<Longrightarrow> inst_pips i d = Inr (fquot d (pip_size i))"
  by (simp add: inst_pips_def inst_ok_def)

lemma get_instrument_eurusd:
  "get_instrument ''EURUSD'' = Inr \<lparr>i_symbol = ''EURUSD'', pip_size = rnd (1 / 10000), contract_size = 100000,
     quote_per_pip_per_lot = 10, is_metal = False\<rparr>"
  by (simp add: get_instrument_in_def default_registry_def py_upper_def upper_char_def)

lemma get_instrument_btcusd:
  "get_instrument ''BTCUSD'' = Inr \<lparr>i_symbol = ''BTCUSD'', pip_size = 1, contract_size = 1,
     quote_per_pip_per_lot = 1, is_metal = False\<rparr>"
  by (simp add: get_instrument_in_def default_registry_def py_upper_def upper_char_def)

section \<open>Sessions\<close>

datatype session = LONDON | NEW_YORK | OVERLAP | OFF

fun session_value :: "session \<Rightarrow> string" where
  "session_value LONDON = ''LONDON''"
| "session_value NEW_YORK = ''NEW_YORK''"
| "session_value OVERLAP = ''OVERLAP''"
| "session_value OFF = ''OFF''"

record session_filter =
  london_open :: int
  london_close :: int
  ny_open :: int
  ny_close :: int
  symbols_24h :: "string list"

definition symbols_24h_default :: "string list" where
  "symbols_24h_default = [''BTCUSD'', ''ETHUSD'', ''SOLUSD'', ''XRPUSD'']"

definition new_session_filter :: "int \<Rightarrow> int \<Rightarrow> int \<Rightarrow> int \<Rightarrow> session_filter" where
  "new_session_filter lo lc no nc = \<lparr>london_open = lo, london_close = lc, ny_open = no, ny_close = nc,
     symbols_24h = symbols_24h_default\<rparr>"

definition classify :: "session_filter \<Rightarrow> py_datetime \<Rightarrow> session" where
  "classify f ts =
     (let hour = dt_hour (to_utc ts);
          in_london = (london_open f \<le> hour \<and> hour < london_close f);
          in_ny = (ny_open f \<le> hour \<and> hour < ny_close f)
      in if in_london \<and> in_ny then OVERLAP
         else if in_london then LONDON
         else if in_ny then NEW_YORK
         else OFF)"

definition is_active :: "session_filter \<Rightarrow> py_datetime \<Rightarrow> string \<Rightarrow> bool" where
  "is_active f ts symb = (if py_upper symb \<in> set (symbols_24h f) then True else classify f ts \<noteq> OFF)"

lemma classify_OFF_iff:
  "classify f ts = OFF \<longleftrightarrow>
     \<not> (london_open f \<le> dt_hour (to_utc ts) \<and> dt_hour (to_utc ts) < london_close f) \<and>
     \<not> (ny_open f \<le> dt_hour (to_utc ts) \<and> dt_hour (to_utc ts) < ny_close f)"
  by (simp add: classify_def Let_def)

lemma classify_to_utc [simp]: "classify f (to_utc ts) = classify f ts"
  by (simp add: classify_def)

end
