(* ===== verification/Config.thy ===== *)
theory Config
  imports Instruments "HOL-Library.AList"
begin

text \<open>
  Application settings (\<open>src/app/config/settings.py\<close>): the fields the modelled components read,
  their defaults and constraints, the validators of the list-valued fields, and the convenience
  methods.  Secrets are their string values.  Loading from the environment and the \<open>.env\<close> file is
  pydantic-settings' work and is not modelled.  The lemmas show what an accepted configuration satisfies, and that the
  lists written down as an operator writes them are parsed back.
\<close>

datatype trading_mode = paper | semi_auto | full_auto

fun mode_value :: "trading_mode \<Rightarrow> string" where
  "mode_value paper = ''paper''"
| "mode_value semi_auto = ''semi_auto''"
| "mode_value full_auto = ''full_auto''"

text \<open>\<open>TradingMode(value)\<close>.\<close>

definition mode_of :: "string \<Rightarrow> trading_mode res" where
  "mode_of s = (if s = ''paper'' then Inr paper
     else if s = ''semi_auto'' then Inr semi_auto
     else if s = ''full_auto'' then Inr full_auto
     else Inl ValueError)"

lemma mode_of_value [simp]: "mode_of (mode_value m) = Inr m"
  by (cases m) (simp_all add: mode_of_def)

record settings =
  app_mode :: trading_mode
  symbols :: "string list"
  primary_timeframe :: timeframe
  account_balance :: pyfloat
  risk_per_trade_pct :: pyfloat
  max_daily_loss_pct :: pyfloat
  max_total_dd_pct :: pyfloat
  max_trades_per_day :: int
  max_consecutive_losses :: int
  target_profit_pct_min :: pyfloat
  target_profit_pct_max :: pyfloat
  max_spread_pips_fx :: pyfloat
  max_spread_pips_metals :: pyfloat
  max_slippage_pips :: pyfloat
  min_trading_days :: int
  consistency_pct :: pyfloat
  s_london_open :: int
  s_london_close :: int
  s_ny_open :: int
  s_ny_close :: int
  telegram_bot_token :: string
  telegram_chat_id :: string
  discord_webhook_url :: string
  admin_chat_ids :: "int list"

definition default_settings :: settings where
  "default_settings = \<lparr>app_mode = paper, symbols = [''EURUSD'', ''XAUUSD''], primary_timeframe = M1,
     account_balance = 100000, risk_per_trade_pct = rnd (1 / 100), max_daily_loss_pct = rnd (3 / 100),
     max_total_dd_pct = rnd (5 / 100), max_trades_per_day = 5, max_consecutive_losses = 3,
     target_profit_pct_min = rnd (1 / 1000), target_profit_pct_max = rnd (2 / 1000),
     max_spread_pips_fx = rnd (3 / 2), max_spread_pips_metals = 35, max_slippage_pips = 2,
     min_trading_days = 7, consistency_pct = rnd (15 / 100),
     s_london_open = 7, s_london_close = 11, s_ny_open = 12, s_ny_close = 16,
     telegram_bot_token = [], telegram_chat_id = [], discord_webhook_url = [], admin_chat_ids = []\<rparr>"

section \<open>Field constraints and validators\<close>

definition pct_ok :: "pyfloat \<Rightarrow> bool" where
  "pct_ok p \<longleftrightarrow> 0 \<le> p \<and> p \<le> 1"

definition hour_ok :: "int \<Rightarrow> bool" where
  "hour_ok h \<longleftrightarrow> 0 \<le> h \<and> h \<le> 23"

text \<open>
  \<open>_tp_max_gt_min\<close>: \<open>info.data\<close> holds \<open>target_profit_pct_min\<close> when that field was valid, and the
  validator falls back to \<open>0.0\<close> otherwise.
\<close>

definition tp_max_gt_min :: "pyfloat option \<Rightarrow> pyfloat \<Rightarrow> pyfloat res" where
  "tp_max_gt_min tp_min v = (if v < (case tp_min of None \<Rightarrow> 0 | Some m \<Rightarrow> m) then Inl ValueError else Inr v)"

definition mk_settings :: "settings \<Rightarrow> settings res" where
  "mk_settings s =
     (let tp_min = (if pct_ok (target_profit_pct_min s) then Some (target_profit_pct_min s) else None)
      in if pct_ok (risk_per_trade_pct s) \<and> pct_ok (max_daily_loss_pct s) \<and> pct_ok (max_total_dd_pct s)
          \<and> 1 \<le> max_trades_per_day s \<and> max_trades_per_day s \<le> 50
          \<and> 1 \<le> max_consecutive_losses s \<and> max_consecutive_losses s \<le> 10
          \<and> tp_min \<noteq> None \<and> pct_ok (target_profit_pct_max s) \<and> is_ok (tp_max_gt_min tp_min (target_profit_pct_max s))
          \<and> 1 \<le> min_trading_days s \<and> min_trading_days s \<le> 365 \<and> pct_ok (consistency_pct s)
          \<and> hour_ok (s_london_open s) \<and> hour_ok (s_london_close s) \<and> hour_ok (s_ny_open s) \<and> hour_ok (s_ny_close s)
         then Inr s else Inl ValidationError)"

text \<open>What a validator sees before validation: a string, a list of strings, an integer, or something else.\<close>

datatype raw_field = RStr string | RList "string list" | RInt int | ROther

definition split_symbols :: "raw_field \<Rightarrow> string list res" where
  "split_symbols v = (case v of
       RStr s \<Rightarrow> Inr (map (\<lambda>x. py_upper (py_strip x)) (filter (\<lambda>x. py_strip x \<noteq> []) (py_split CHR '','' s)))
     | RList xs \<Rightarrow> Inr (map (\<lambda>x. py_upper (py_strip x)) (filter (\<lambda>x. py_strip x \<noteq> []) xs))
     | _ \<Rightarrow> Inl TypeError)"

fun map_res :: "('a \<Rightarrow> 'b res) \<Rightarrow> 'a list \<Rightarrow> 'b list res" where
  "map_res f [] = Inr []"
| "map_res f (x # xs) = bind_res (f x) (\<lambda>y. bind_res (map_res f xs) (\<lambda>ys. Inr (y # ys)))"

definition split_admin_ids :: "raw_field \<Rightarrow> int list res" where
  "split_admin_ids v = (case v of
       RStr s \<Rightarrow> (if py_strip s = [] then Inr []
                 else map_res (\<lambda>x. py_int (py_strip x)) (filter (\<lambda>x. py_strip x \<noteq> []) (py_split CHR '','' s)))
     | RList xs \<Rightarrow> map_res py_int xs
     | RInt k \<Rightarrow> Inr [k]
     | ROther \<Rightarrow> Inr [])"

section \<open>Convenience methods\<close>

text \<open>\<open>entry.split(":", 1)\<close> for an entry that contains a colon.\<close>

definition split_colon :: "string \<Rightarrow> string \<times> string" where
  "split_colon s = (takeWhile (\<lambda>c. c \<noteq> CHR '':'') s, drop 1 (dropWhile (\<lambda>c. c \<noteq> CHR '':'') s))"

fun timeframe_map_from :: "(string \<times> string) list \<Rightarrow> string \<Rightarrow> string list \<Rightarrow> (string \<times> string) list" where
  "timeframe_map_from r dflt [] = r"
| "timeframe_map_from r dflt (entry # es) =
     (let r' = (if CHR '':'' \<in> set entry
                then (case split_colon entry of (s, tf) \<Rightarrow> AList.update (py_strip s) (py_strip tf) r)
                else AList.update entry dflt r)
      in timeframe_map_from r' dflt es)"

definition symbol_timeframe_map :: "settings \<Rightarrow> (string \<times> string) list" where
  "symbol_timeframe_map s = timeframe_map_from [] (tf_value (primary_timeframe s)) (symbols s)"

definition risk_per_trade_amount :: "settings \<Rightarrow> pyfloat" where
  "risk_per_trade_amount s = fmul (account_balance s) (risk_per_trade_pct s)"

definition daily_loss_limit_amount :: "settings \<Rightarrow> pyfloat" where
  "daily_loss_limit_amount s = fmul (account_balance s) (max_daily_loss_pct s)"

definition is_telegram_enabled :: "settings \<Rightarrow> bool" where
  "is_telegram_enabled s \<longleftrightarrow> telegram_bot_token s \<noteq> [] \<and> telegram_chat_id s \<noteq> []"

definition is_discord_enabled :: "settings \<Rightarrow> bool" where
  "is_discord_enabled s \<longleftrightarrow> discord_webhook_url s \<noteq> []"

definition get_admin_chat_ids :: "settings \<Rightarrow> int list" where
  "get_admin_chat_ids s =
     (if admin_chat_ids s \<noteq> [] then admin_chat_ids s
      else if telegram_chat_id s \<noteq> [] then
        (case py_int (telegram_chat_id s) of Inr k \<Rightarrow> [k] | Inl e \<Rightarrow> [])
      else [])"

definition is_telegram_bot_enabled :: "settings \<Rightarrow> bool" where
  "is_telegram_bot_enabled s \<longleftrightarrow> telegram_bot_token s \<noteq> [] \<and> get_admin_chat_ids s \<noteq> []"

section \<open>Lemmas\<close>

lemma mk_settings_ok:
  "mk_settings s = Inr s' \<Longrightarrow> s' = s \<and> pct_ok (risk_per_trade_pct s) \<and> pct_ok (max_daily_loss_pct s)
     \<and> pct_ok (max_total_dd_pct s) \<and> pct_ok (consistency_pct s)
     \<and> 1 \<le> max_trades_per_day s \<and> 1 \<le> max_consecutive_losses s
     \<and> 0 \<le> target_profit_pct_min s \<and> target_profit_pct_min s \<le> target_profit_pct_max s"
  by (auto simp: mk_settings_def Let_def tp_max_gt_min_def pct_ok_def split: if_splits)

lemma pct_literals: "pct_ok (rnd (1 / 100))" "pct_ok (rnd (3 / 100))" "pct_ok (rnd (5 / 100))"
  "pct_ok (rnd (1 / 1000))" "pct_ok (rnd (2 / 1000))" "pct_ok (rnd (15 / 100))"
  using rd.mono [of _ 1] by (auto simp: pct_ok_def rd.nonneg is_float_of_int [of 1, simplified, unfolded is_float_def])

lemma default_settings_valid: "mk_settings default_settings = Inr default_settings"
  using pct_literals rnd_mono [of "1 / 1000" "2 / 1000"]
  by (simp add: mk_settings_def default_settings_def Let_def tp_max_gt_min_def hour_ok_def pct_ok_def)

lemma split_symbols_upper: "split_symbols v = Inr xs \<Longrightarrow> x \<in> set xs \<Longrightarrow> x \<noteq> [] \<and> py_upper x = x"
  by (auto simp: split_symbols_def py_upper_def split: raw_field.splits)

lemma distinct_timeframe_map_from:
  "distinct (map fst r) \<Longrightarrow> distinct (map fst (timeframe_map_from r dflt es))"
  by (induction es arbitrary: r) (auto simp: Let_def distinct_update split: prod.splits)

lemma timeframe_map_from_append:
  "timeframe_map_from r dflt (es @ fs) = timeframe_map_from (timeframe_map_from r dflt es) dflt fs"
  by (induction es arbitrary: r) (simp_all add: Let_def)

section \<open>Writing the lists down\<close>

text \<open>A word without blanks, separators and lower-case letters.\<close>

definition plain_word :: "string \<Rightarrow> bool" where
  "plain_word w \<longleftrightarrow> w \<noteq> [] \<and> list_all (\<lambda>c. \<not> py_space c \<and> c \<noteq> CHR '','' \<and> c \<noteq> CHR '':'' \<and> upper_char c = c) w"

lemma plain_wordD: "plain_word w \<Longrightarrow> c \<in> set w \<Longrightarrow> \<not> py_space c \<and> c \<noteq> CHR '','' \<and> c \<noteq> CHR '':'' \<and> upper_char c = c"
  by (simp add: plain_word_def list_all_iff)

lemma AList_update_new: "k \<notin> fst ` set r \<Longrightarrow> AList.update k v r = r @ [(k, v)]"
  by (induction r) auto

lemma split_colon_entry: "CHR '':'' \<notin> set a \<Longrightarrow> split_colon (a @ CHR '':'' # b) = (a, b)"
  by (induction a) (auto simp: split_colon_def)

lemma timeframe_map_entries:
  assumes "list_all (\<lambda>(a, b). plain_word a \<and> plain_word b) xs" and "distinct (map fst (r @ xs))"
  shows "timeframe_map_from r dflt (map (\<lambda>(a, b). a @ CHR '':'' # b) xs) = r @ xs"
  using assms
proof (induction xs arbitrary: r)
  case (Cons x xs)
  obtain a b where x: "x = (a, b)" by fastforce
  with Cons.prems(1) have ab: "plain_word a" "plain_word b" and rest: "list_all (\<lambda>(a, b). plain_word a \<and> plain_word b) xs"
    by auto
  have "py_strip a = a" "py_strip b = b" "CHR '':'' \<notin> set a"
    using plain_wordD [OF ab(1)] plain_wordD [OF ab(2)] by (auto intro: py_strip_nospace)
  moreover have "a \<notin> fst ` set r" using Cons.prems(2) x by auto
  ultimately show ?case
    using Cons.IH [OF rest, of "r @ [(a, b)]"] Cons.prems(2) x by (auto simp: split_colon_entry AList_update_new Let_def)
qed simp

lemma plain_entry: "plain_word a \<Longrightarrow> plain_word b \<Longrightarrow>
    list_all (\<lambda>c. \<not> py_space c \<and> c \<noteq> CHR '','' \<and> upper_char c = c) (a @ CHR '':'' # b)"
proof -
  have "\<not> py_space CHR '':''" "upper_char CHR '':'' = CHR '':''" by (simp_all add: py_space_def upper_char_def)
  then show "plain_word a \<Longrightarrow> plain_word b \<Longrightarrow> ?thesis" by (auto simp: plain_word_def list_all_iff)
qed

lemma map_res_inv: "list_all (\<lambda>x. f (g x) = Inr x) xs \<Longrightarrow> map_res f (map g xs) = Inr xs"
  by (induction xs) simp_all

lemma py_split_join: "ws \<noteq> [] \<Longrightarrow> list_all (\<lambda>w. d \<notin> set w) ws \<Longrightarrow> py_split d (py_join [d] ws) = ws"
proof (induction ws)
  case (Cons w ws)
  then show ?case by (cases "ws = []") (simp_all add: py_split_single py_split_append py_join_Cons)
qed simp

lemma py_strip_nonempty:
  assumes "c \<in> set s" and "\<not> py_space c"
  shows "py_strip s \<noteq> []"
proof -
  have "c \<in> set (dropWhile py_space s)" using assms by (induction s) auto
  with assms(2) show ?thesis by (auto simp: py_strip_def)
qed

lemma split_symbols_join:
  assumes "list_all (\<lambda>e. e \<noteq> [] \<and> list_all (\<lambda>c. \<not> py_space c \<and> c \<noteq> CHR '','' \<and> upper_char c = c) e) es"
  shows "split_symbols (RStr (py_join '','' es)) = Inr es"
proof (cases "es = []")
  case True
  then show ?thesis by (simp add: split_symbols_def py_strip_def)
next
  case False
  have strip: "py_strip e = e \<and> e \<noteq> [] \<and> py_upper e = e" if "e \<in> set es" for e
    using assms that by (auto simp: list_all_iff py_upper_def intro!: py_strip_nospace map_idI)
  have "py_split CHR '','' (py_join '','' es) = es"
    using False assms by (intro py_split_join) (auto simp: list_all_iff)
  moreover have "filter (\<lambda>x. py_strip x \<noteq> []) es = es" using strip by (intro filter_True) auto
  moreover have "map (\<lambda>x. py_upper (py_strip x)) es = es" using strip by (intro map_idI) auto
  ultimately show ?thesis by (simp add: split_symbols_def)
qed

lemma split_admin_ids_join: "split_admin_ids (RStr (py_join '','' (map py_str_int ks))) = Inr ks"
proof (cases "ks = []")
  case True
  then show ?thesis by (simp add: split_admin_ids_def py_strip_def)
next
  case False
  have comma: "CHR '','' \<notin> set (digits10 n)" for n
    using digits10_digits [of "CHR '',''" n] by (auto simp: is_digit_def)
  have plain: "py_strip (py_str_int k) = py_str_int k" "py_str_int k \<noteq> []" "CHR '','' \<notin> set (py_str_int k)" for k
    using comma py_strip_nospace [OF py_str_int_nospace [of _ k]] by (simp_all add: py_str_int_def)
  obtain k ks' where ks: "ks = k # ks'" using False by (cases ks) auto
  obtain c cs where c: "py_str_int k = c # cs" using plain(2) by (cases "py_str_int k") auto
  have "\<not> py_space c" using py_str_int_nospace [of c k] c by simp
  moreover have "c \<in> set (py_join '','' (map py_str_int ks))"
    using c ks py_join_Cons_hd [of "'',''" c cs "map py_str_int ks'"] by simp
  ultimately have "py_strip (py_join '','' (map py_str_int ks)) \<noteq> []" by (rule py_strip_nonempty [rotated])
  moreover have "py_split CHR '','' (py_join '','' (map py_str_int ks)) = map py_str_int ks"
    using False plain by (intro py_split_join) (auto simp: list_all_iff)
  moreover have "filter (\<lambda>x. py_strip x \<noteq> []) (map py_str_int ks) = map py_str_int ks" using plain by (intro filter_True) auto
  moreover have "map_res (\<lambda>x. py_int (py_strip x)) (map py_str_int ks) = Inr ks"
    using plain by (intro map_res_inv) (simp add: py_int_str list_all_iff)
  ultimately show ?thesis by (simp add: split_admin_ids_def)
qed

section \<open>Properties\<close>

text \<open>
  What an operator writes is what the bot reads: a list of symbols with their timeframes, written SYMBOL:TIMEFRAME and joined by
  commas, is parsed into entries from which the map of timeframes is exactly that list, and a list of
  administrators' numbers joined by commas is parsed into that list.
\<close>

theorem settings_lists_roundtrip:
  assumes "list_all (\<lambda>(a, b). plain_word a \<and> plain_word b) xs" and "distinct (map fst xs)"
  shows "(\<exists>es. split_symbols (RStr (py_join '','' (map (\<lambda>(a, b). a @ CHR '':'' # b) xs))) = Inr es
      \<and> symbol_timeframe_map (s\<lparr>symbols := es\<rparr>) = xs)
    \<and> split_admin_ids (RStr (py_join '','' (map py_str_int ks))) = Inr ks"
proof -
  let ?es = "map (\<lambda>(a, b). a @ CHR '':'' # b) xs"
  have "split_symbols (RStr (py_join '','' ?es)) = Inr ?es"
  proof (rule split_symbols_join)
    have "e \<noteq> [] \<and> list_all (\<lambda>c. \<not> py_space c \<and> c \<noteq> CHR '','' \<and> upper_char c = c) e" if "e \<in> set ?es" for e
    proof -
      from that obtain a b where ab: "(a, b) \<in> set xs" "e = a @ CHR '':'' # b" by auto
      with assms(1) have "plain_word a" "plain_word b" by (auto simp: list_all_iff)
      from plain_entry [OF this] ab(2) show ?thesis by simp
    qed
    then show "list_all (\<lambda>e. e \<noteq> [] \<and> list_all (\<lambda>c. \<not> py_space c \<and> c \<noteq> CHR '','' \<and> upper_char c = c) e) ?es"
      by (subst list_all_iff) blast
  qed
  moreover have "symbol_timeframe_map (s\<lparr>symbols := ?es\<rparr>) = xs"
    using timeframe_map_entries [OF assms(1), of "[]"] assms(2) by (simp add: symbol_timeframe_map_def)
  ultimately show ?thesis using split_admin_ids_join by blast
qed

lemma settings_lists_roundtrip_witness:
  "(\<exists>es. split_symbols (RStr ''EURUSD:M1,XAUUSD:M5'') = Inr es \<and> symbol_timeframe_map (default_settings\<lparr>symbols := es\<rparr>) = [(''EURUSD'', ''M1''), (''XAUUSD'', ''M5'')])
   \<and> split_admin_ids (RStr (py_join '','' (map py_str_int [12, - 7]))) = Inr [12, - 7]"
  using settings_lists_roundtrip [of "[(''EURUSD'', ''M1''), (''XAUUSD'', ''M5'')]" default_settings "[12, - 7]"]
  by (simp add: plain_word_def py_space_def upper_char_def)

end
