(* ===== verification/Market_Structure.thy ===== *)
theory Market_Structure
  imports Models
begin

text \<open>
  The market-structure trackers of \<open>src/app/strategy/market_structure.py\<close>: \<open>HTFStructure\<close> (record
  \<open>htf\<close>) and \<open>MarketStructure\<close> (record \<open>ms\<close>), their value objects, and their operations in the
  order of the file.  \<open>update\<close> takes the state and returns the events with the new state.  The
  display strings \<open>note\<close> of the events are left out.

  The lemmas show: the invariant of the stored swings, order blocks and gaps, and that every
  operation keeps it; which events can occur together; how breaks are labelled along a whole feed
  (the locale \<open>structure_tracker\<close>, interpreted for both trackers); and what is still active after
  an update.
\<close>

section \<open>Value objects\<close>

datatype swing_type = HIGH | LOW

datatype structure_kind = BOS_BULL | BOS_BEAR | CHOCH_BULL | CHOCH_BEAR | SWEEP_HIGH | SWEEP_LOW

datatype htf_bias = BULLISH | BEARISH | NEUTRAL

text \<open>\<open>Literal["BULLISH", "BEARISH"]\<close>.\<close>

datatype zone_direction = DIR_BULLISH | DIR_BEARISH

record swing_point =
  sw_type :: swing_type
  sw_price :: pyfloat
  sw_timestamp :: py_datetime
  sw_index :: nat
  sw_prominence :: pyfloat

record structure_event =
  ev_kind :: structure_kind
  ev_candle :: candle
  ev_swing :: swing_point

record order_block =
  ob_direction :: zone_direction
  ob_candle :: candle
  ob_zone_high :: pyfloat
  ob_zone_low :: pyfloat
  ob_timestamp :: py_datetime
  ob_displacement_range :: pyfloat
  ob_mitigated :: bool

record fair_value_gap =
  fvg_direction :: zone_direction
  fvg_gap_high :: pyfloat
  fvg_gap_low :: pyfloat
  fvg_timestamp :: py_datetime
  fvg_filled :: bool

definition fvg_size :: "fair_value_gap \<Rightarrow> pyfloat" where
  "fvg_size f = fsub (fvg_gap_high f) (fvg_gap_low f)"

definition fvg_midpoint :: "fair_value_gap \<Rightarrow> pyfloat" where
  "fvg_midpoint f = fquot (fadd (fvg_gap_high f) (fvg_gap_low f)) 2"

section \<open>Helpers both trackers have\<close>

definition add_swing :: "nat \<Rightarrow> swing_point list \<Rightarrow> swing_point \<Rightarrow> swing_point list" where
  "add_swing cap ss s =
     (if ss \<noteq> [] \<and> dt_eq (sw_timestamp (last ss)) (sw_timestamp s) \<and> sw_type (last ss) = sw_type s
      then ss else dq_append cap ss s)"

definition latest_swing :: "swing_point list \<Rightarrow> swing_type \<Rightarrow> swing_point option" where
  "latest_swing ss kind = List.find (\<lambda>s. sw_type s = kind) (rev ss)"

definition is_sweep_high :: "pyfloat \<Rightarrow> candle \<Rightarrow> pyfloat \<Rightarrow> bool" where
  "is_sweep_high ratio c swing_high =
     (if c_high c \<le> swing_high \<or> c_close c \<ge> swing_high then False
      else if c_range c = 0 then False
      else fquot (fsub (c_high c) (max (c_close c) (c_open c))) (c_range c) \<ge> ratio)"

definition is_sweep_low :: "pyfloat \<Rightarrow> candle \<Rightarrow> pyfloat \<Rightarrow> bool" where
  "is_sweep_low ratio c swing_low =
     (if c_low c \<ge> swing_low \<or> c_close c \<le> swing_low then False
      else if c_range c = 0 then False
      else fquot (fsub (min (c_close c) (c_open c)) (c_low c)) (c_range c) \<ge> ratio)"

definition sweep_events :: "pyfloat \<Rightarrow> candle \<Rightarrow> swing_point option \<Rightarrow> swing_point option \<Rightarrow> structure_event list" where
  "sweep_events ratio c last_high last_low =
     (case last_high of None \<Rightarrow> [] | Some h \<Rightarrow>
        if is_sweep_high ratio c (sw_price h)
        then [\<lparr>ev_kind = SWEEP_HIGH, ev_candle = c, ev_swing = h\<rparr>] else []) @
     (case last_low of None \<Rightarrow> [] | Some l \<Rightarrow>
        if is_sweep_low ratio c (sw_price l)
        then [\<lparr>ev_kind = SWEEP_LOW, ev_candle = c, ev_swing = l\<rparr>] else [])"

text \<open>
  The BOS / CHOCH branch of \<open>update\<close>: the event and the side of the break, if the close is beyond
  the last swing high (checked first) or the last swing low.
\<close>

definition break_event :: "structure_kind option \<Rightarrow> candle \<Rightarrow> swing_point option \<Rightarrow> swing_point option
    \<Rightarrow> (structure_event \<times> zone_direction) option" where
  "break_event last_bos c last_high last_low =
     (if (case last_high of None \<Rightarrow> False | Some h \<Rightarrow> c_close c > sw_price h) then
        Some (\<lparr>ev_kind = (if last_bos = Some BOS_BEAR then CHOCH_BULL else BOS_BULL),
               ev_candle = c, ev_swing = the last_high\<rparr>, DIR_BULLISH)
      else if (case last_low of None \<Rightarrow> False | Some l \<Rightarrow> c_close c < sw_price l) then
        Some (\<lparr>ev_kind = (if last_bos = Some BOS_BULL then CHOCH_BEAR else BOS_BEAR),
               ev_candle = c, ev_swing = the last_low\<rparr>, DIR_BEARISH)
      else None)"

fun trend_kind :: "zone_direction \<Rightarrow> structure_kind" where
  "trend_kind DIR_BULLISH = BOS_BULL"
| "trend_kind DIR_BEARISH = BOS_BEAR"

section \<open>HTFStructure\<close>

record htf =
  h_lookback :: nat
  h_wick_ratio :: pyfloat
  h_candles :: "candle list"
  h_swings :: "swing_point list"
  h_last_bos :: "structure_kind option"

definition new_htf :: "nat \<Rightarrow> pyfloat \<Rightarrow> htf" where
  "new_htf k ratio = \<lparr>h_lookback = k, h_wick_ratio = ratio, h_candles = [], h_swings = [], h_last_bos = None\<rparr>"

definition htf_add_swing :: "htf \<Rightarrow> swing_point \<Rightarrow> htf" where
  "htf_add_swing t s = t\<lparr>h_swings := add_swing 40 (h_swings t) s\<rparr>"

definition htf_latest_swing :: "htf \<Rightarrow> swing_type \<Rightarrow> swing_point option" where
  "htf_latest_swing t kind = latest_swing (h_swings t) kind"

definition detect_swings_simple :: "htf \<Rightarrow> htf" where
  "detect_swings_simple t =
     (let n = length (h_candles t); k = h_lookback t in
      if n < 2 * k + 1 then t
      else
        let pivot_idx = n - k - 1;
            pivot = h_candles t ! pivot_idx;
            window = take (2 * k + 1) (drop (pivot_idx - k) (h_candles t));
            t1 = (if c_high pivot = Max (set (map c_high window))
                  then htf_add_swing t \<lparr>sw_type = HIGH, sw_price = c_high pivot, sw_timestamp = c_timestamp pivot,
                         sw_index = pivot_idx, sw_prominence = 0\<rparr>
                  else t)
        in if c_low pivot = Min (set (map c_low window))
           then htf_add_swing t1 \<lparr>sw_type = LOW, sw_price = c_low pivot, sw_timestamp = c_timestamp pivot,
                  sw_index = pivot_idx, sw_prominence = 0\<rparr>
           else t1)"

definition htf_update :: "htf \<Rightarrow> candle \<Rightarrow> structure_event list \<times> htf" where
  "htf_update t c =
     (let t1 = detect_swings_simple (t\<lparr>h_candles := dq_append 256 (h_candles t) c\<rparr>);
          last_high = htf_latest_swing t1 HIGH;
          last_low = htf_latest_swing t1 LOW;
          sweeps = sweep_events (h_wick_ratio t1) c last_high last_low
      in case break_event (h_last_bos t1) c last_high last_low of
           None \<Rightarrow> (sweeps, t1)
         | Some (e, d) \<Rightarrow> (sweeps @ [e], t1\<lparr>h_last_bos := Some (trend_kind d)\<rparr>))"

definition htf_bias_of :: "htf \<Rightarrow> htf_bias" where
  "htf_bias_of t =
     (if h_last_bos t \<in> {Some BOS_BULL, Some CHOCH_BULL} then BULLISH
      else if h_last_bos t \<in> {Some BOS_BEAR, Some CHOCH_BEAR} then BEARISH
      else NEUTRAL)"

section \<open>MarketStructure\<close>

record ms =
  swing_lookback :: nat
  sweep_wick_ratio :: pyfloat
  adaptive_swing :: bool
  prominence_atr_mult :: pyfloat
  ob_displacement_mult :: pyfloat
  min_fvg_atr_mult :: pyfloat
  ms_candles :: "candle list"
  ms_swings :: "swing_point list"
  ms_last_bos :: "structure_kind option"
  ms_order_blocks :: "order_block list"
  ms_fvgs :: "fair_value_gap list"
  ms_htf_bias :: htf_bias

definition new_ms :: "nat \<Rightarrow> pyfloat \<Rightarrow> ms" where
  "new_ms k ratio = \<lparr>swing_lookback = k, sweep_wick_ratio = ratio, adaptive_swing = True,
     prominence_atr_mult = rnd (3 / 10), ob_displacement_mult = rnd (3 / 2), min_fvg_atr_mult = rnd (1 / 5),
     ms_candles = [], ms_swings = [], ms_last_bos = None, ms_order_blocks = [], ms_fvgs = [],
     ms_htf_bias = NEUTRAL\<rparr>"

definition get_htf_bias :: "ms \<Rightarrow> htf_bias" where
  "get_htf_bias m = ms_htf_bias m"

definition set_htf_bias :: "ms \<Rightarrow> htf_bias \<Rightarrow> ms" where
  "set_htf_bias m b = m\<lparr>ms_htf_bias := b\<rparr>"

definition last_trend :: "ms \<Rightarrow> structure_kind option" where
  "last_trend m = ms_last_bos m"

subsection \<open>Average true range\<close>

definition true_range :: "candle \<Rightarrow> candle \<Rightarrow> pyfloat" where
  "true_range prev cur = max (max (fsub (c_high cur) (c_low cur)) \<bar>fsub (c_high cur) (c_close prev)\<bar>)
     \<bar>fsub (c_low cur) (c_close prev)\<bar>"

definition atr_of :: "nat \<Rightarrow> candle list \<Rightarrow> pyfloat" where
  "atr_of period bars =
     (if length bars < 2 then 0
      else let trs = map (\<lambda>(prev, cur). true_range prev cur) (consec (take_last (period + 1) bars))
           in if trs = [] then 0 else fquot (fsum trs) (of_nat (length trs)))"

definition compute_atr :: "ms \<Rightarrow> pyfloat" where
  "compute_atr m = atr_of 14 (ms_candles m)"

subsection \<open>Adaptive swing detection\<close>

definition ms_add_swing :: "ms \<Rightarrow> swing_point \<Rightarrow> ms" where
  "ms_add_swing m s = m\<lparr>ms_swings := add_swing 50 (ms_swings m) s\<rparr>"

definition ms_latest_swing :: "ms \<Rightarrow> swing_type \<Rightarrow> swing_point option" where
  "ms_latest_swing m kind = latest_swing (ms_swings m) kind"

definition passes_prominence :: "ms \<Rightarrow> pyfloat \<Rightarrow> bool" where
  "passes_prominence m prominence =
     (if \<not> adaptive_swing m then True
      else let atr = compute_atr m in
        if atr \<le> 0 then True else prominence \<ge> fmul (prominence_atr_mult m) atr)"

definition detect_swings :: "ms \<Rightarrow> ms" where
  "detect_swings m =
     (let n = length (ms_candles m); k = swing_lookback m in
      if n < 2 * k + 1 then m
      else
        let pivot_idx = n - k - 1;
            pivot = ms_candles m ! pivot_idx;
            window = take (2 * k + 1) (drop (pivot_idx - k) (ms_candles m));
            max_high = Max (set (map c_high window));
            min_low = Min (set (map c_low window));
            others = filter (\<lambda>c. \<not> dt_eq (c_timestamp c) (c_timestamp pivot)) window;
            m1 = (if c_high pivot = max_high then
                    let prominence = (if others = [] then 0
                          else fsub (c_high pivot) (Max (set (map c_high others))))
                    in if passes_prominence m prominence
                       then ms_add_swing m \<lparr>sw_type = HIGH, sw_price = c_high pivot,
                              sw_timestamp = c_timestamp pivot, sw_index = pivot_idx, sw_prominence = prominence\<rparr>
                       else m
                  else m)
        in if c_low pivot = min_low then
             let prominence = (if others = [] then 0
                   else fsub (Min (set (map c_low others))) (c_low pivot))
             in if passes_prominence m1 prominence
                then ms_add_swing m1 \<lparr>sw_type = LOW, sw_price = c_low pivot,
                       sw_timestamp = c_timestamp pivot, sw_index = pivot_idx, sw_prominence = prominence\<rparr>
                else m1
           else m1)"

subsection \<open>Order blocks and gaps\<close>

fun opposing :: "zone_direction \<Rightarrow> candle \<Rightarrow> bool" where
  "opposing DIR_BULLISH c = is_bearish c"
| "opposing DIR_BEARISH c = is_bullish c"

definition detect_order_block :: "ms \<Rightarrow> candle \<Rightarrow> zone_direction \<Rightarrow> ms" where
  "detect_order_block m bos_candle d =
     (let atr = compute_atr m in
      if atr \<le> 0 then m
      else if c_body bos_candle < fmul (ob_displacement_mult m) atr then m
      else
        let bars = ms_candles m;
            end_i = length bars - 1;
            start = end_i - 10
        in case List.find (opposing d) (rev (drop start (take end_i bars))) of
             None \<Rightarrow> m
           | Some ob \<Rightarrow> m\<lparr>ms_order_blocks := dq_append 30 (ms_order_blocks m)
               \<lparr>ob_direction = d, ob_candle = ob,
                ob_zone_high = max (c_open ob) (c_close ob), ob_zone_low = min (c_open ob) (c_close ob),
                ob_timestamp = c_timestamp ob, ob_displacement_range = c_body bos_candle,
                ob_mitigated = False\<rparr>\<rparr>)"

definition detect_fvg :: "ms \<Rightarrow> ms" where
  "detect_fvg m =
     (let cs = ms_candles m; n = length cs in
      if n < 3 then m
      else
        let b0 = cs ! (n - 3); b1 = cs ! (n - 2); b2 = cs ! (n - 1);
            min_size = fmul (min_fvg_atr_mult m) (compute_atr m);
            m1 = (if c_high b0 < c_low b2 \<and> fsub (c_low b2) (c_high b0) \<ge> min_size
                  then m\<lparr>ms_fvgs := dq_append 30 (ms_fvgs m)
                         \<lparr>fvg_direction = DIR_BULLISH, fvg_gap_high = c_low b2, fvg_gap_low = c_high b0,
                          fvg_timestamp = c_timestamp b1, fvg_filled = False\<rparr>\<rparr>
                  else m)
        in if c_low b0 > c_high b2 \<and> fsub (c_low b0) (c_high b2) \<ge> min_size
           then m1\<lparr>ms_fvgs := dq_append 30 (ms_fvgs m1)
                   \<lparr>fvg_direction = DIR_BEARISH, fvg_gap_high = c_low b0, fvg_gap_low = c_high b2,
                    fvg_timestamp = c_timestamp b1, fvg_filled = False\<rparr>\<rparr>
           else m1)"

fun ob_touched :: "candle \<Rightarrow> order_block \<Rightarrow> bool" where
  "ob_touched c ob \<longleftrightarrow> (ob_direction ob = DIR_BULLISH \<and> c_low c \<le> ob_zone_high ob) \<or>
     (ob_direction ob = DIR_BEARISH \<and> c_high c \<ge> ob_zone_low ob)"

definition mitigate_ob :: "candle \<Rightarrow> order_block \<Rightarrow> order_block" where
  "mitigate_ob c ob = (if ob_mitigated ob then ob
     else if ob_touched c ob then ob\<lparr>ob_mitigated := True\<rparr> else ob)"

definition mitigate_obs :: "ms \<Rightarrow> candle \<Rightarrow> ms" where
  "mitigate_obs m c = m\<lparr>ms_order_blocks := take_last 30 (map (mitigate_ob c) (ms_order_blocks m))\<rparr>"

fun fvg_crossed :: "candle \<Rightarrow> fair_value_gap \<Rightarrow> bool" where
  "fvg_crossed c f \<longleftrightarrow> (fvg_direction f = DIR_BULLISH \<and> c_low c \<le> fvg_gap_low f) \<or>
     (fvg_direction f = DIR_BEARISH \<and> c_high c \<ge> fvg_gap_high f)"

definition fill_fvg :: "candle \<Rightarrow> fair_value_gap \<Rightarrow> fair_value_gap" where
  "fill_fvg c f = (if fvg_filled f then f
     else if fvg_crossed c f then f\<lparr>fvg_filled := True\<rparr> else f)"

definition fill_fvgs :: "ms \<Rightarrow> candle \<Rightarrow> ms" where
  "fill_fvgs m c = m\<lparr>ms_fvgs := take_last 30 (map (fill_fvg c) (ms_fvgs m))\<rparr>"

subsection \<open>update\<close>

definition ms_update :: "ms \<Rightarrow> candle \<Rightarrow> structure_event list \<times> ms" where
  "ms_update m c =
     (let m1 = detect_swings (m\<lparr>ms_candles := dq_append 512 (ms_candles m) c\<rparr>);
          last_high = ms_latest_swing m1 HIGH;
          last_low = ms_latest_swing m1 LOW;
          sweeps = sweep_events (sweep_wick_ratio m1) c last_high last_low;
          (events, m2) = (case break_event (ms_last_bos m1) c last_high last_low of
              None \<Rightarrow> (sweeps, m1)
            | Some (e, d) \<Rightarrow> (sweeps @ [e],
                detect_order_block (m1\<lparr>ms_last_bos := Some (trend_kind d)\<rparr>) c d))
      in (events, fill_fvgs (mitigate_obs (detect_fvg m2) c) c))"

subsection \<open>Queries\<close>

definition find_order_blocks :: "ms \<Rightarrow> zone_direction option \<Rightarrow> bool \<Rightarrow> order_block list" where
  "find_order_blocks m d active_only =
     filter (\<lambda>ob. \<not> (active_only \<and> ob_mitigated ob) \<and> (case d of None \<Rightarrow> True | Some x \<Rightarrow> ob_direction ob = x))
       (rev (ms_order_blocks m))"

definition find_fvg :: "ms \<Rightarrow> zone_direction option \<Rightarrow> bool \<Rightarrow> fair_value_gap list" where
  "find_fvg m d active_only =
     filter (\<lambda>f. \<not> (active_only \<and> fvg_filled f) \<and> (case d of None \<Rightarrow> True | Some x \<Rightarrow> fvg_direction f = x))
       (rev (ms_fvgs m))"

definition calculate_confluence_score :: "ms \<Rightarrow> pyfloat \<Rightarrow> zone_direction \<Rightarrow> pyfloat" where
  "calculate_confluence_score m price d =
     (let s0 = 0;
          s1 = (if d = DIR_BULLISH \<and> ms_htf_bias m = BULLISH then fadd s0 (rnd (1 / 4))
                else if d = DIR_BEARISH \<and> ms_htf_bias m = BEARISH then fadd s0 (rnd (1 / 4)) else s0);
          s2 = (if \<exists>ob \<in> set (find_order_blocks m (Some d) True). ob_zone_low ob \<le> price \<and> price \<le> ob_zone_high ob
                then fadd s1 (rnd (1 / 4)) else s1);
          s3 = (if \<exists>f \<in> set (find_fvg m (Some d) True). fvg_gap_low f \<le> price \<and> price \<le> fvg_gap_high f
                then fadd s2 (rnd (1 / 5)) else s2);
          s4 = (if d = DIR_BULLISH \<and> ms_last_bos m \<in> {Some BOS_BULL, Some CHOCH_BULL} then fadd s3 (rnd (1 / 5))
                else if d = DIR_BEARISH \<and> ms_last_bos m \<in> {Some BOS_BEAR, Some CHOCH_BEAR} then fadd s3 (rnd (1 / 5))
                else s3);
          atr = compute_atr m;
          threshold = fmul 2 atr;
          s5 = (if atr > 0 then
                  (case (if d = DIR_BULLISH then ms_latest_swing m LOW else ms_latest_swing m HIGH) of
                     None \<Rightarrow> s4
                   | Some sw \<Rightarrow> if \<bar>fsub price (sw_price sw)\<bar> \<le> threshold then fadd s4 (rnd (1 / 10)) else s4)
                else s4)
      in min s5 1)"

section \<open>Feeds and the labelling of breaks\<close>

text \<open>A feed hands candles to a tracker one by one and collects the events.\<close>

primrec feed :: "('s \<Rightarrow> candle \<Rightarrow> structure_event list \<times> 's) \<Rightarrow> 's \<Rightarrow> candle list \<Rightarrow> structure_event list \<times> 's" where
  "feed u s [] = ([], s)"
| "feed u s (c # cs) = (let (e, s1) = u s c; (es, s2) = feed u s1 cs in (e @ es, s2))"

lemma feed_append: "feed u s (xs @ ys) =
   (let (e, s1) = feed u s xs; (es, s2) = feed u s1 ys in (e @ es, s2))"
  by (induction xs arbitrary: s) (auto simp: Let_def split: prod.splits)

lemma feed_invariant:
  assumes "\<And>s c. I s \<Longrightarrow> P c \<Longrightarrow> I (snd (u s c))"
  shows "I s \<Longrightarrow> list_all P cs \<Longrightarrow> I (snd (feed u s cs))"
proof (induction cs arbitrary: s)
  case (Cons c cs)
  then have "I (snd (u s c))" using assms by simp
  with Cons.IH [of "snd (u s c)"] Cons.prems show ?case
    by (cases "u s c") (auto simp: Let_def split: prod.splits)
qed simp

fun side :: "structure_kind \<Rightarrow> zone_direction option" where
  "side BOS_BULL = Some DIR_BULLISH"
| "side CHOCH_BULL = Some DIR_BULLISH"
| "side BOS_BEAR = Some DIR_BEARISH"
| "side CHOCH_BEAR = Some DIR_BEARISH"
| "side SWEEP_HIGH = None"
| "side SWEEP_LOW = None"

definition is_choch :: "structure_kind \<Rightarrow> bool" where
  "is_choch k = (k \<in> {CHOCH_BULL, CHOCH_BEAR})"

definition breaks :: "structure_event list \<Rightarrow> structure_kind list" where
  "breaks es = filter (\<lambda>k. side k \<noteq> None) (map ev_kind es)"

lemma breaks_simps [simp]: "breaks [] = []" "breaks (xs @ ys) = breaks xs @ breaks ys"
  by (simp_all add: breaks_def)

text \<open>
  The textbook labelling, against which the trackers are checked: given the side of the previous
  break (if any), a break in the same direction, or the first one, is a BOS; a break in the other
  direction is a CHOCH.
\<close>

fun labelled :: "zone_direction option \<Rightarrow> structure_kind list \<Rightarrow> bool" where
  "labelled prev [] \<longleftrightarrow> True"
| "labelled prev (k # ks) \<longleftrightarrow>
     side k \<noteq> None \<and> (is_choch k \<longleftrightarrow> prev \<noteq> None \<and> side k \<noteq> prev) \<and> labelled (side k) ks"

definition last_side :: "zone_direction option \<Rightarrow> structure_kind list \<Rightarrow> zone_direction option" where
  "last_side prev ks = (if ks = [] then prev else side (last ks))"

lemma labelled_append: "labelled prev (xs @ ys) \<longleftrightarrow> labelled prev xs \<and> labelled (last_side prev xs) ys"
  by (induction xs arbitrary: prev) (auto simp: last_side_def)

lemma last_side_append: "last_side prev (xs @ ys) = last_side (last_side prev xs) ys"
  by (simp add: last_side_def)

lemma last_side_Nil [simp]: "last_side prev [] = prev"
  by (simp add: last_side_def)

text \<open>The trend a tracker keeps is never a CHOCH: a side, or nothing before the first break.\<close>

fun trend_side :: "structure_kind option \<Rightarrow> zone_direction option" where
  "trend_side (Some BOS_BULL) = Some DIR_BULLISH"
| "trend_side (Some BOS_BEAR) = Some DIR_BEARISH"
| "trend_side _ = None"

definition trend_ok :: "structure_kind option \<Rightarrow> bool" where
  "trend_ok b = (b \<in> {None, Some BOS_BULL, Some BOS_BEAR})"

lemma trend_side_trend_kind [simp]: "trend_side (Some (trend_kind d)) = Some d"
  by (cases d) simp_all

lemma trend_ok_trend_kind [simp]: "trend_ok (Some (trend_kind d))" "trend_ok None"
  by (cases d) (simp_all add: trend_ok_def)

text \<open>
  The contract of a tracker: one update keeps the trend well formed, labels its breaks against the
  trend before, and leaves the side of its last break as the trend.
\<close>

locale structure_tracker =
  fixes update :: "'s \<Rightarrow> candle \<Rightarrow> structure_event list \<times> 's"
    and trend :: "'s \<Rightarrow> structure_kind option"
  assumes update_trend_ok: "trend_ok (trend s) \<Longrightarrow> trend_ok (trend (snd (update s c)))"
    and update_labelled: "trend_ok (trend s) \<Longrightarrow> labelled (trend_side (trend s)) (breaks (fst (update s c)))"
    and update_trend: "trend_ok (trend s) \<Longrightarrow>
      trend_side (trend (snd (update s c))) = last_side (trend_side (trend s)) (breaks (fst (update s c)))"
begin

lemma feed_trend_ok: "trend_ok (trend s) \<Longrightarrow> trend_ok (trend (snd (feed update s cs)))"
  by (rule feed_invariant [where P = "\<lambda>c. True"]) (simp_all add: update_trend_ok list_all_iff)

lemma feed_labelled:
  "trend_ok (trend s) \<Longrightarrow> labelled (trend_side (trend s)) (breaks (fst (feed update s cs)))
    \<and> trend_side (trend (snd (feed update s cs))) = last_side (trend_side (trend s)) (breaks (fst (feed update s cs)))"
proof (induction cs arbitrary: s)
  case (Cons c cs)
  let ?s1 = "snd (update s c)"
  have ok: "trend_ok (trend ?s1)" using Cons.prems by (rule update_trend_ok)
  have fst_eq: "fst (feed update s (c # cs)) = fst (update s c) @ fst (feed update ?s1 cs)"
    and snd_eq: "snd (feed update s (c # cs)) = snd (feed update ?s1 cs)"
    by (auto simp: Let_def split: prod.splits)
  show ?case
    unfolding fst_eq snd_eq
    using Cons.IH [OF ok] update_labelled [OF Cons.prems] update_trend [OF Cons.prems]
    by (simp add: labelled_append last_side_append)
qed simp

end

lemma break_event_cases:
  assumes "break_event b c h l = Some (e, d)"
  shows "side (ev_kind e) = Some d" and "ev_candle e = c"
    and "is_choch (ev_kind e) \<longleftrightarrow> b = Some (if d = DIR_BULLISH then BOS_BEAR else BOS_BULL)"
    and "d = DIR_BULLISH \<Longrightarrow> \<exists>s. h = Some s \<and> ev_swing e = s \<and> sw_price s < c_close c"
    and "d = DIR_BEARISH \<Longrightarrow> \<exists>s. l = Some s \<and> ev_swing e = s \<and> c_close c < sw_price s"
  using assms by (auto simp: break_event_def is_choch_def split: if_splits option.splits)

lemma break_event_labelled:
  "trend_ok b \<Longrightarrow> break_event b c h l = Some (e, d) \<Longrightarrow> labelled (trend_side b) [ev_kind e]"
  using break_event_cases [of b c h l e d]
  by (cases d) (auto simp: trend_ok_def)

lemma breaks_sweep_events [simp]: "breaks (sweep_events r c h l) = []"
  by (auto simp: sweep_events_def breaks_def split: option.splits)

lemma breaks_single: "side (ev_kind e) = Some d \<Longrightarrow> breaks [e] = [ev_kind e]"
  by (simp add: breaks_def)

subsection \<open>Both trackers keep the contract\<close>

lemma htf_last_bos_detect [simp]:
  "h_last_bos (detect_swings_simple t) = h_last_bos t"
  "h_wick_ratio (detect_swings_simple t) = h_wick_ratio t"
  "h_lookback (detect_swings_simple t) = h_lookback t"
  "h_candles (detect_swings_simple t) = h_candles t"
  by (simp_all add: detect_swings_simple_def htf_add_swing_def Let_def)

lemma detect_swings_fields [simp]:
  "ms_last_bos (detect_swings m) = ms_last_bos m"
  "sweep_wick_ratio (detect_swings m) = sweep_wick_ratio m"
  "ms_candles (detect_swings m) = ms_candles m"
  "swing_lookback (detect_swings m) = swing_lookback m"
  "ms_order_blocks (detect_swings m) = ms_order_blocks m"
  "ms_fvgs (detect_swings m) = ms_fvgs m"
  "ms_htf_bias (detect_swings m) = ms_htf_bias m"
  by (simp_all add: detect_swings_def ms_add_swing_def Let_def)

lemma detect_order_block_fields [simp]:
  "ms_last_bos (detect_order_block m c d) = ms_last_bos m"
  "ms_candles (detect_order_block m c d) = ms_candles m"
  "ms_swings (detect_order_block m c d) = ms_swings m"
  "swing_lookback (detect_order_block m c d) = swing_lookback m"
  "ms_fvgs (detect_order_block m c d) = ms_fvgs m"
  "ms_htf_bias (detect_order_block m c d) = ms_htf_bias m"
  by (auto simp: detect_order_block_def Let_def split: option.splits)

lemma detect_fvg_fields [simp]:
  "ms_last_bos (detect_fvg m) = ms_last_bos m"
  "ms_candles (detect_fvg m) = ms_candles m"
  "ms_swings (detect_fvg m) = ms_swings m"
  "swing_lookback (detect_fvg m) = swing_lookback m"
  "ms_order_blocks (detect_fvg m) = ms_order_blocks m"
  "ms_htf_bias (detect_fvg m) = ms_htf_bias m"
  by (simp_all add: detect_fvg_def Let_def)

lemma mitigation_fields [simp]:
  "ms_last_bos (mitigate_obs m c) = ms_last_bos m" "ms_last_bos (fill_fvgs m c) = ms_last_bos m"
  "ms_candles (mitigate_obs m c) = ms_candles m" "ms_candles (fill_fvgs m c) = ms_candles m"
  "ms_swings (mitigate_obs m c) = ms_swings m" "ms_swings (fill_fvgs m c) = ms_swings m"
  "swing_lookback (mitigate_obs m c) = swing_lookback m" "swing_lookback (fill_fvgs m c) = swing_lookback m"
  "ms_fvgs (mitigate_obs m c) = ms_fvgs m" "ms_order_blocks (fill_fvgs m c) = ms_order_blocks m"
  "ms_htf_bias (mitigate_obs m c) = ms_htf_bias m" "ms_htf_bias (fill_fvgs m c) = ms_htf_bias m"
  by (simp_all add: mitigate_obs_def fill_fvgs_def)

text \<open>One update, by the break it reports.\<close>

lemma htf_update_break:
  obtains (none) "breaks (fst (htf_update t c)) = []" "h_last_bos (snd (htf_update t c)) = h_last_bos t"
  | (break) e d h l where "break_event (h_last_bos t) c h l = Some (e, d)"
      "breaks (fst (htf_update t c)) = [ev_kind e]"
      "h_last_bos (snd (htf_update t c)) = Some (trend_kind d)"
proof -
  let ?t1 = "detect_swings_simple (t\<lparr>h_candles := dq_append 256 (h_candles t) c\<rparr>)"
  show ?thesis
  proof (cases "break_event (h_last_bos t) c (htf_latest_swing ?t1 HIGH) (htf_latest_swing ?t1 LOW)")
    case None
    then show ?thesis by (intro none) (simp_all add: htf_update_def Let_def)
  next
    case (Some p)
    obtain e d where p: "p = (e, d)" by (cases p)
    from Some p have "breaks [e] = [ev_kind e]" by (simp add: break_event_cases(1) breaks_single)
    with Some p show ?thesis by (intro break) (auto simp: htf_update_def Let_def)
  qed
qed

lemma ms_update_break:
  obtains (none) "breaks (fst (ms_update m c)) = []" "ms_last_bos (snd (ms_update m c)) = ms_last_bos m"
  | (break) e d h l where "break_event (ms_last_bos m) c h l = Some (e, d)"
      "breaks (fst (ms_update m c)) = [ev_kind e]"
      "ms_last_bos (snd (ms_update m c)) = Some (trend_kind d)"
proof -
  let ?m1 = "detect_swings (m\<lparr>ms_candles := dq_append 512 (ms_candles m) c\<rparr>)"
  show ?thesis
  proof (cases "break_event (ms_last_bos m) c (ms_latest_swing ?m1 HIGH) (ms_latest_swing ?m1 LOW)")
    case None
    then show ?thesis by (intro none) (simp_all add: ms_update_def Let_def)
  next
    case (Some p)
    obtain e d where p: "p = (e, d)" by (cases p)
    from Some p have "breaks [e] = [ev_kind e]" by (simp add: break_event_cases(1) breaks_single)
    with Some p show ?thesis by (intro break) (auto simp: ms_update_def Let_def)
  qed
qed

lemma last_side_single: "side k = Some d \<Longrightarrow> last_side prev [k] = Some d"
  by (simp add: last_side_def)

interpretation htf_tracker: structure_tracker htf_update h_last_bos
proof
  fix t :: htf and c assume ok: "trend_ok (h_last_bos t)"
  show "trend_ok (h_last_bos (snd (htf_update t c)))"
    using ok by (cases rule: htf_update_break [of t c]) simp_all
  show "labelled (trend_side (h_last_bos t)) (breaks (fst (htf_update t c)))"
    using ok by (cases rule: htf_update_break [of t c]) (simp_all add: break_event_labelled del: labelled.simps(2))
  show "trend_side (h_last_bos (snd (htf_update t c)))
      = last_side (trend_side (h_last_bos t)) (breaks (fst (htf_update t c)))"
    by (cases rule: htf_update_break [of t c]) (simp_all add: break_event_cases(1) last_side_single)
qed

interpretation ms_tracker: structure_tracker ms_update ms_last_bos
proof
  fix m :: ms and c assume ok: "trend_ok (ms_last_bos m)"
  show "trend_ok (ms_last_bos (snd (ms_update m c)))"
    using ok by (cases rule: ms_update_break [of m c]) simp_all
  show "labelled (trend_side (ms_last_bos m)) (breaks (fst (ms_update m c)))"
    using ok by (cases rule: ms_update_break [of m c]) (simp_all add: break_event_labelled del: labelled.simps(2))
  show "trend_side (ms_last_bos (snd (ms_update m c)))
      = last_side (trend_side (ms_last_bos m)) (breaks (fst (ms_update m c)))"
    by (cases rule: ms_update_break [of m c]) (simp_all add: break_event_cases(1) last_side_single)
qed

section \<open>Swings\<close>

lemma latest_swing_Some:
  "latest_swing ss kind = Some s \<Longrightarrow>
     \<exists>pre post. ss = pre @ s # post \<and> sw_type s = kind \<and> (\<forall>x \<in> set post. sw_type x \<noteq> kind)"
  unfolding latest_swing_def
proof (induction ss rule: rev_induct)
  case (snoc x xs)
  show ?case
  proof (cases "sw_type x = kind")
    case True
    with snoc.prems have "xs @ [x] = xs @ s # []" "sw_type s = kind" by auto
    then show ?thesis by force
  next
    case False
    with snoc.prems snoc.IH obtain pre post
      where "xs = pre @ s # post" "sw_type s = kind" "\<forall>y \<in> set post. sw_type y \<noteq> kind" by auto
    with False have "xs @ [x] = pre @ s # (post @ [x])" "sw_type s = kind"
      "\<forall>y \<in> set (post @ [x]). sw_type y \<noteq> kind" by auto
    then show ?thesis by blast
  qed
qed simp

lemma latest_swing_mem: "latest_swing ss kind = Some s \<Longrightarrow> s \<in> set ss \<and> sw_type s = kind"
  using latest_swing_Some [of ss kind s] by auto

lemma set_add_swing: "set (add_swing cap ss s) \<subseteq> insert s (set ss)"
  by (simp add: add_swing_def set_dq_append subset_insertI)

lemma length_add_swing: "length ss \<le> cap \<Longrightarrow> length (add_swing cap ss s) \<le> cap"
  by (simp add: add_swing_def length_dq_append_le)

definition swing_eq :: "swing_point \<Rightarrow> swing_point \<Rightarrow> bool" where
  "swing_eq a b = (dt_eq (sw_timestamp a) (sw_timestamp b) \<and> sw_type a = sw_type b)"

definition swings_distinct :: "swing_point list \<Rightarrow> bool" where
  "swings_distinct ss = list_all (\<lambda>(a, b). \<not> swing_eq a b) (consec ss)"

lemma swings_distinct_add: "0 < cap \<Longrightarrow> swings_distinct ss \<Longrightarrow> swings_distinct (add_swing cap ss s)"
proof -
  assume cap: "0 < cap" and ok: "swings_distinct ss"
  have "swings_distinct (ss @ [s])" if "ss = [] \<or> \<not> swing_eq (last ss) s"
    using ok that by (cases "ss = []") (auto simp: swings_distinct_def consec_snoc)
  then have "swings_distinct (dq_append cap ss s)" if "ss = [] \<or> \<not> swing_eq (last ss) s"
    using that by (simp add: swings_distinct_def dq_append_def take_last_def consec_drop list_all_drop del: drop_append)
  with ok show ?thesis by (auto simp: add_swing_def swing_eq_def)
qed

text \<open>
  What a stored swing says of the bars fed so far: it is the extreme of the bars around bar \<open>i\<close>, and
  all \<open>k\<close> bars after \<open>i\<close> had been seen.
\<close>

definition pivot_at :: "nat \<Rightarrow> candle list \<Rightarrow> nat \<Rightarrow> swing_point \<Rightarrow> bool" where
  "pivot_at k cs i s \<longleftrightarrow> k \<le> i \<and> i + k < length cs \<and> sw_timestamp s = c_timestamp (cs ! i) \<and>
     (case sw_type s of
        HIGH \<Rightarrow> sw_price s = c_high (cs ! i) \<and> (\<forall>j \<in> {i - k .. i + k}. c_high (cs ! j) \<le> sw_price s)
      | LOW \<Rightarrow> sw_price s = c_low (cs ! i) \<and> (\<forall>j \<in> {i - k .. i + k}. sw_price s \<le> c_low (cs ! j)))"

lemma pivot_at_append: "pivot_at k cs i s \<Longrightarrow> pivot_at k (cs @ ds) i s"
  by (auto simp: pivot_at_def nth_append split: swing_type.splits)

lemma window_take_last:
  "2 * k + 1 \<le> length xs \<Longrightarrow> take (2 * k + 1) (drop (length xs - k - 1 - k) xs) = take_last (2 * k + 1) xs"
  by (simp add: take_last_def mult_2)

lemma take_last_take_last: "m \<le> n \<Longrightarrow> take_last m (take_last n xs) = take_last m xs"
  by (cases "n \<le> length xs"; cases "m \<le> length xs") (simp_all add: take_last_def)

lemma nth_take_last: "n \<le> length xs \<Longrightarrow> i < n \<Longrightarrow> take_last n xs ! i = xs ! (length xs - n + i)"
  by (simp add: take_last_def)

lemma pivot_take_last:
  assumes "2 * k + 1 \<le> length (take_last n cs)"
  shows "take_last n cs ! (length (take_last n cs) - k - 1) = cs ! (length cs - k - 1)"
  using assms by (simp add: take_last_def)

lemma window_nth_mem:
  assumes "2 * k + 1 \<le> length cs" and "length cs - k - 1 - k \<le> j" and "j < length cs"
  shows "cs ! j \<in> set (take_last (2 * k + 1) cs)"
proof -
  have "take_last (2 * k + 1) cs ! (j - (length cs - (2 * k + 1))) = cs ! j"
    using assms by (simp add: take_last_def)
  moreover have "j - (length cs - (2 * k + 1)) < length (take_last (2 * k + 1) cs)"
    using assms by simp
  ultimately show ?thesis using nth_mem by metis
qed

definition swing_inv :: "candle list \<Rightarrow> ms \<Rightarrow> bool" where
  "swing_inv cs m \<longleftrightarrow> ms_candles m = take_last 512 cs \<and>
     (\<forall>s \<in> set (ms_swings m). \<exists>i. pivot_at (swing_lookback m) cs i s)"

lemma ms_swings_add [simp]: "ms_swings (ms_add_swing m s) = add_swing 50 (ms_swings m) s"
  by (simp add: ms_add_swing_def)

lemma detect_swings_warmup: "length (ms_candles m) < 2 * swing_lookback m + 1 \<Longrightarrow> detect_swings m = m"
  by (simp add: detect_swings_def Let_def)

text \<open>The swings after detection: the old ones, and pivots of the last window.\<close>

lemma detect_swings_new:
  assumes "ms_candles m = take_last 512 cs" and "s \<in> set (ms_swings (detect_swings m))"
  shows "s \<in> set (ms_swings m) \<or> pivot_at (swing_lookback m) cs (length cs - swing_lookback m - 1) s"
proof (cases "2 * swing_lookback m + 1 \<le> length (take_last 512 cs)")
  case False
  then have "detect_swings m = m" unfolding assms(1) [symmetric] by (intro detect_swings_warmup) simp
  with assms(2) show ?thesis by simp
next
  case True
  let ?k = "swing_lookback m"
  let ?p = "cs ! (length cs - ?k - 1)"
  let ?w = "take_last (2 * ?k + 1) cs"
  have k: "2 * ?k + 1 \<le> 512" "2 * ?k + 1 \<le> length cs" using True by auto
  have w: "take (2 * ?k + 1) (drop (length (ms_candles m) - ?k - 1 - ?k) (ms_candles m)) = ?w"
    using True assms(1) by (simp only: window_take_last take_last_take_last k)
  have p: "ms_candles m ! (length (ms_candles m) - ?k - 1) = ?p"
    unfolding assms(1) using True by (rule pivot_take_last)
  have win: "cs ! j \<in> set ?w" if "j \<in> {length cs - ?k - 1 - ?k .. length cs - ?k - 1 + ?k}" for j
    using k that by (intro window_nth_mem) auto
  have hi: "c_high (cs ! j) \<le> Max (set (map c_high ?w))"
    and lo: "Min (set (map c_low ?w)) \<le> c_low (cs ! j)"
    if "j \<in> {length cs - ?k - 1 - ?k .. length cs - ?k - 1 + ?k}" for j
    using win [OF that] by (simp_all add: Max_ge Min_le)
  have "s \<in> set (ms_swings m)
      \<or> (sw_timestamp s = c_timestamp ?p \<and> sw_type s = HIGH \<and> sw_price s = c_high ?p \<and> c_high ?p = Max (set (map c_high ?w)))
      \<or> (sw_timestamp s = c_timestamp ?p \<and> sw_type s = LOW \<and> sw_price s = c_low ?p \<and> c_low ?p = Min (set (map c_low ?w)))"
    using assms(2) k set_add_swing
    unfolding detect_swings_def Let_def w p
    by (auto split: if_splits dest!: subsetD [OF set_add_swing])
  then show ?thesis
    using hi lo k by (auto simp: pivot_at_def)
qed

lemma swing_inv_new: "swing_inv [] (new_ms k r)"
  by (simp add: swing_inv_def new_ms_def)

lemma ms_update_candles [simp]: "ms_candles (snd (ms_update m c)) = dq_append 512 (ms_candles m) c"
  and ms_update_lookback [simp]: "swing_lookback (snd (ms_update m c)) = swing_lookback m"
  and ms_update_bias [simp]: "ms_htf_bias (snd (ms_update m c)) = ms_htf_bias m"
  by (simp_all add: ms_update_def Let_def split: option.splits prod.splits)

lemma ms_update_swings:
  "ms_swings (snd (ms_update m c)) = ms_swings (detect_swings (m\<lparr>ms_candles := dq_append 512 (ms_candles m) c\<rparr>))"
  by (simp add: ms_update_def Let_def split: option.splits prod.splits)

lemma swing_inv_update: "swing_inv cs m \<Longrightarrow> swing_inv (cs @ [c]) (snd (ms_update m c))"
proof -
  assume inv: "swing_inv cs m"
  let ?m0 = "m\<lparr>ms_candles := dq_append 512 (ms_candles m) c\<rparr>"
  have bars: "ms_candles ?m0 = take_last 512 (cs @ [c])"
    using inv by (simp add: swing_inv_def dq_append_def)
  have "\<exists>i. pivot_at (swing_lookback m) (cs @ [c]) i s" if "s \<in> set (ms_swings (detect_swings ?m0))" for s
    using detect_swings_new [OF bars that] inv pivot_at_append by (fastforce simp: swing_inv_def)
  with bars show ?thesis by (simp add: swing_inv_def ms_update_swings)
qed

lemma swing_inv_feed: "swing_inv cs m \<Longrightarrow> swing_inv (cs @ ds) (snd (feed ms_update m ds))"
proof (induction ds arbitrary: cs m)
  case (Cons d ds)
  from swing_inv_update [OF Cons.prems, of d] have "swing_inv ((cs @ [d]) @ ds) (snd (feed ms_update (snd (ms_update m d)) ds))"
    by (rule Cons.IH)
  then show ?case by (cases "ms_update m d") (auto simp: Let_def split: prod.splits)
qed simp

lemma lookback_feed [simp]: "swing_lookback (snd (feed ms_update m ds)) = swing_lookback m"
  using feed_invariant [where I = "\<lambda>x. swing_lookback x = swing_lookback m" and P = "\<lambda>c. True" and u = ms_update]
  by (simp add: list_all_iff)

section \<open>The stored zones\<close>

definition ob_ok :: "order_block \<Rightarrow> bool" where
  "ob_ok ob \<longleftrightarrow> opposing (ob_direction ob) (ob_candle ob) \<and> ob_timestamp ob = c_timestamp (ob_candle ob)
     \<and> ob_zone_low ob < ob_zone_high ob
     \<and> ob_zone_high ob = max (c_open (ob_candle ob)) (c_close (ob_candle ob))
     \<and> ob_zone_low ob = min (c_open (ob_candle ob)) (c_close (ob_candle ob))"

definition fvg_ok :: "fair_value_gap \<Rightarrow> bool" where
  "fvg_ok f = (fvg_gap_low f < fvg_gap_high f)"

definition ms_inv :: "ms \<Rightarrow> bool" where
  "ms_inv m \<longleftrightarrow> length (ms_candles m) \<le> 512 \<and> length (ms_swings m) \<le> 50 \<and> length (ms_order_blocks m) \<le> 30
     \<and> length (ms_fvgs m) \<le> 30 \<and> swings_distinct (ms_swings m) \<and> trend_ok (ms_last_bos m)
     \<and> list_all ob_ok (ms_order_blocks m) \<and> list_all fvg_ok (ms_fvgs m)"

lemma ms_inv_new: "ms_inv (new_ms k r)"
  by (simp add: ms_inv_def new_ms_def swings_distinct_def trend_ok_def)

lemma ms_inv_add_swing: "ms_inv m \<Longrightarrow> ms_inv (ms_add_swing m s)"
  by (simp add: ms_inv_def ms_add_swing_def length_add_swing swings_distinct_add)

lemma ms_inv_detect_swings: "ms_inv m \<Longrightarrow> ms_inv (detect_swings m)"
  by (simp add: detect_swings_def Let_def ms_inv_add_swing)

lemma ms_inv_detect_order_block: "ms_inv m \<Longrightarrow> ms_inv (detect_order_block m c d)"
proof -
  assume inv: "ms_inv m"
  have "ob_ok \<lparr>ob_direction = d, ob_candle = ob, ob_zone_high = max (c_open ob) (c_close ob),
      ob_zone_low = min (c_open ob) (c_close ob), ob_timestamp = c_timestamp ob,
      ob_displacement_range = x, ob_mitigated = b\<rparr>" if "opposing d ob" for ob x b
    using that by (cases d) (auto simp: ob_ok_def is_bearish_def is_bullish_def max_def min_def)
  with inv show ?thesis
    by (auto simp: detect_order_block_def Let_def ms_inv_def length_dq_append_le
        intro!: list_all_dq_append dest!: find_SomeD split: option.splits)
qed

lemma ms_inv_detect_fvg: "ms_inv m \<Longrightarrow> ms_inv (detect_fvg m)"
  by (auto simp: detect_fvg_def Let_def ms_inv_def length_dq_append_le fvg_ok_def intro!: list_all_dq_append)

lemma mitigate_ob_simps [simp]:
  "ob_direction (mitigate_ob c ob) = ob_direction ob" "ob_candle (mitigate_ob c ob) = ob_candle ob"
  "ob_zone_high (mitigate_ob c ob) = ob_zone_high ob" "ob_zone_low (mitigate_ob c ob) = ob_zone_low ob"
  "ob_timestamp (mitigate_ob c ob) = ob_timestamp ob"
  "ob_displacement_range (mitigate_ob c ob) = ob_displacement_range ob"
  "ob_mitigated (mitigate_ob c ob) \<longleftrightarrow> ob_mitigated ob \<or> ob_touched c ob"
  by (simp_all add: mitigate_ob_def)

lemma ob_ok_mitigate [simp]: "ob_ok (mitigate_ob c ob) \<longleftrightarrow> ob_ok ob"
  by (simp add: ob_ok_def)

lemma fill_fvg_simps [simp]:
  "fvg_direction (fill_fvg c f) = fvg_direction f" "fvg_gap_high (fill_fvg c f) = fvg_gap_high f"
  "fvg_gap_low (fill_fvg c f) = fvg_gap_low f" "fvg_timestamp (fill_fvg c f) = fvg_timestamp f"
  "fvg_filled (fill_fvg c f) \<longleftrightarrow> fvg_filled f \<or> fvg_crossed c f"
  by (simp_all add: fill_fvg_def)

lemma fvg_ok_fill [simp]: "fvg_ok (fill_fvg c f) \<longleftrightarrow> fvg_ok f"
  by (simp add: fvg_ok_def)

lemma ms_inv_mitigate: "ms_inv m \<Longrightarrow> ms_inv (mitigate_obs m c)"
  by (simp add: ms_inv_def mitigate_obs_def list_all_length)

lemma ms_inv_fill: "ms_inv m \<Longrightarrow> ms_inv (fill_fvgs m c)"
  by (simp add: ms_inv_def fill_fvgs_def list_all_length)

lemma ms_inv_trend: "ms_inv m \<Longrightarrow> ms_inv (m\<lparr>ms_last_bos := Some (trend_kind d)\<rparr>)"
  by (simp add: ms_inv_def)

lemma ms_inv_push: "ms_inv m \<Longrightarrow> ms_inv (m\<lparr>ms_candles := dq_append 512 (ms_candles m) c\<rparr>)"
  by (simp add: ms_inv_def length_dq_append_le)

lemmas ms_inv_steps = ms_inv_push ms_inv_detect_swings ms_inv_trend ms_inv_detect_order_block
  ms_inv_detect_fvg ms_inv_mitigate ms_inv_fill

lemma ms_inv_update: "ms_inv m \<Longrightarrow> ms_inv (snd (ms_update m c))"
  by (auto simp: ms_update_def Let_def intro!: ms_inv_steps split: option.splits prod.splits)

lemma ms_inv_feed: "ms_inv m \<Longrightarrow> ms_inv (snd (feed ms_update m cs))"
  by (rule feed_invariant [where P = "\<lambda>c. True"]) (simp_all add: ms_inv_update list_all_iff)

lemma ms_inv_set_bias: "ms_inv m \<Longrightarrow> ms_inv (set_htf_bias m b)"
  by (simp add: ms_inv_def set_htf_bias_def)

text \<open>Everything still active after an update lies beyond the bar just seen.\<close>

lemma ms_update_zones:
  "\<exists>m2 :: ms. ms_order_blocks (snd (ms_update m c)) = take_last 30 (map (mitigate_ob c) (ms_order_blocks m2))
     \<and> ms_fvgs (snd (ms_update m c)) = take_last 30 (map (fill_fvg c) (ms_fvgs m2))"
proof -
  have "\<exists>m2 :: ms. snd (ms_update m c) = fill_fvgs (mitigate_obs m2 c) c"
    by (auto simp: ms_update_def Let_def split: option.splits prod.splits)
  then obtain m2 :: ms where m2: "snd (ms_update m c) = fill_fvgs (mitigate_obs m2 c) c" ..
  show ?thesis by (rule exI [of _ m2]) (simp add: m2 fill_fvgs_def mitigate_obs_def)
qed

lemma active_ob_untouched:
  assumes "ob \<in> set (ms_order_blocks (snd (ms_update m c)))" and "\<not> ob_mitigated ob"
  shows "\<not> ob_touched c ob"
proof -
  obtain m2 :: ms where "ob \<in> set (take_last 30 (map (mitigate_ob c) (ms_order_blocks m2)))"
    using ms_update_zones [of m c] assms(1) by auto
  then obtain ob0 where "ob = mitigate_ob c ob0"
    using set_take_last [of 30 "map (mitigate_ob c) (ms_order_blocks m2)"] by auto
  with assms(2) show ?thesis by auto
qed

lemma active_fvg_uncrossed:
  assumes "f \<in> set (ms_fvgs (snd (ms_update m c)))" and "\<not> fvg_filled f"
  shows "\<not> fvg_crossed c f"
proof -
  obtain m2 :: ms where "f \<in> set (take_last 30 (map (fill_fvg c) (ms_fvgs m2)))"
    using ms_update_zones [of m c] assms(1) by auto
  then obtain f0 where "f = fill_fvg c f0"
    using set_take_last [of 30 "map (fill_fvg c) (ms_fvgs m2)"] by auto
  with assms(2) show ?thesis by auto
qed

section \<open>The events of one update\<close>

lemma sweep_events_cases:
  "e \<in> set (sweep_events r c h l) \<Longrightarrow> ev_candle e = c \<and>
     (ev_kind e = SWEEP_HIGH \<and> h = Some (ev_swing e) \<and> c_close c < sw_price (ev_swing e) \<and> sw_price (ev_swing e) < c_high c
    \<or> ev_kind e = SWEEP_LOW \<and> l = Some (ev_swing e) \<and> sw_price (ev_swing e) < c_close c \<and> c_low c < sw_price (ev_swing e))"
  by (auto simp: sweep_events_def is_sweep_high_def is_sweep_low_def split: option.splits if_splits)

lemma length_sweep_events: "length (sweep_events r c h l) \<le> 2"
  by (simp add: sweep_events_def split: option.splits)

text \<open>The condition under which an event of each kind is raised at a bar \<open>c\<close>.\<close>

fun event_at :: "candle \<Rightarrow> structure_kind \<Rightarrow> swing_point \<Rightarrow> bool" where
  "event_at c SWEEP_HIGH s \<longleftrightarrow> sw_type s = HIGH \<and> c_close c < sw_price s \<and> sw_price s < c_high c"
| "event_at c SWEEP_LOW s \<longleftrightarrow> sw_type s = LOW \<and> c_low c < sw_price s \<and> sw_price s < c_close c"
| "event_at c BOS_BULL s \<longleftrightarrow> sw_type s = HIGH \<and> sw_price s < c_close c"
| "event_at c CHOCH_BULL s \<longleftrightarrow> sw_type s = HIGH \<and> sw_price s < c_close c"
| "event_at c BOS_BEAR s \<longleftrightarrow> sw_type s = LOW \<and> c_close c < sw_price s"
| "event_at c CHOCH_BEAR s \<longleftrightarrow> sw_type s = LOW \<and> c_close c < sw_price s"

text \<open>The events of \<open>ms_update\<close> and the swings they were computed from.\<close>

lemma ms_update_events:
  obtains h l where "h = latest_swing (ms_swings (snd (ms_update m c))) HIGH"
    and "l = latest_swing (ms_swings (snd (ms_update m c))) LOW"
    and "fst (ms_update m c) = sweep_events (sweep_wick_ratio m) c h l
      @ (case break_event (ms_last_bos m) c h l of None \<Rightarrow> [] | Some (e, d) \<Rightarrow> [e])"
proof
  let ?m1 = "detect_swings (m\<lparr>ms_candles := dq_append 512 (ms_candles m) c\<rparr>)"
  show "fst (ms_update m c) = sweep_events (sweep_wick_ratio m) c
      (latest_swing (ms_swings (snd (ms_update m c))) HIGH) (latest_swing (ms_swings (snd (ms_update m c))) LOW)
      @ (case break_event (ms_last_bos m) c (latest_swing (ms_swings (snd (ms_update m c))) HIGH)
          (latest_swing (ms_swings (snd (ms_update m c))) LOW) of None \<Rightarrow> [] | Some (e, d) \<Rightarrow> [e])"
    unfolding ms_update_swings
    by (simp add: ms_update_def Let_def ms_latest_swing_def split: option.splits prod.splits)
qed (rule refl)+

lemma break_event_at:
  assumes "break_event b c (latest_swing ss HIGH) (latest_swing ss LOW) = Some (e, d)"
  shows "ev_candle e = c \<and> ev_swing e \<in> set ss \<and> event_at c (ev_kind e) (ev_swing e)"
proof -
  note * = break_event_cases [OF assms]
  show ?thesis
    using *(1,2,4,5) latest_swing_mem
    by (cases d; cases "ev_kind e") (auto dest!: latest_swing_mem)
qed

lemma sweep_event_at:
  assumes "e \<in> set (sweep_events r c (latest_swing ss HIGH) (latest_swing ss LOW))"
  shows "ev_candle e = c \<and> ev_swing e \<in> set ss \<and> event_at c (ev_kind e) (ev_swing e)"
  using sweep_events_cases [OF assms] by (auto dest!: latest_swing_mem)

lemma ms_event_at:
  assumes "e \<in> set (fst (ms_update m c))"
  shows "ev_candle e = c \<and> ev_swing e \<in> set (ms_swings (snd (ms_update m c))) \<and> event_at c (ev_kind e) (ev_swing e)"
proof -
  obtain h l where h: "h = latest_swing (ms_swings (snd (ms_update m c))) HIGH"
    and l: "l = latest_swing (ms_swings (snd (ms_update m c))) LOW"
    and ev: "fst (ms_update m c) = sweep_events (sweep_wick_ratio m) c h l
      @ (case break_event (ms_last_bos m) c h l of None \<Rightarrow> [] | Some (e, d) \<Rightarrow> [e])"
    by (rule ms_update_events)
  show ?thesis
    using assms sweep_event_at [of e] break_event_at [of "ms_last_bos m" c _ e]
    unfolding ev h l
    by (cases "break_event (ms_last_bos m) c (latest_swing (ms_swings (snd (ms_update m c))) HIGH)
          (latest_swing (ms_swings (snd (ms_update m c))) LOW)") auto
qed

lemma event_exclusive:
  "\<lbrakk>side k = Some DIR_BULLISH; event_at c k s; event_at c SWEEP_HIGH s\<rbrakk> \<Longrightarrow> False"
  "\<lbrakk>side k = Some DIR_BEARISH; event_at c k s; event_at c SWEEP_LOW s\<rbrakk> \<Longrightarrow> False"
  by (cases k; simp)+

lemma sweep_break_at_most_two:
  "length (sweep_events r c h l @ (case break_event b c h l of None \<Rightarrow> [] | Some (e, d) \<Rightarrow> [e])) \<le> 2"
  by (auto simp: sweep_events_def break_event_def is_sweep_high_def is_sweep_low_def split: option.splits if_splits)

text \<open>Before \<open>2 * k + 1\<close> bars there is no swing, hence no event.\<close>

lemma sweep_events_None [simp]: "sweep_events r c None None = []"
  by (simp add: sweep_events_def)

lemma break_event_None [simp]: "break_event b c None None = None"
  by (simp add: break_event_def)

lemma latest_swing_Nil [simp]: "latest_swing [] kind = None"
  by (simp add: latest_swing_def)

lemma ms_update_no_swings: "ms_swings (snd (ms_update m c)) = [] \<Longrightarrow> fst (ms_update m c) = []"
  by (rule ms_update_events [of m c]) simp

lemma swing_inv_warmup: "swing_inv cs m \<Longrightarrow> length cs \<le> 2 * swing_lookback m \<Longrightarrow> ms_swings m = []"
  by (cases "ms_swings m") (fastforce simp: swing_inv_def pivot_at_def)+

lemma feed_warmup:
  "swing_inv bs m \<Longrightarrow> length bs + length cs \<le> 2 * swing_lookback m \<Longrightarrow> fst (feed ms_update m cs) = []"
proof (induction cs arbitrary: bs m)
  case (Cons c cs)
  let ?m1 = "snd (ms_update m c)"
  have inv: "swing_inv (bs @ [c]) ?m1" using Cons.prems(1) by (rule swing_inv_update)
  then have "fst (ms_update m c) = []"
    using Cons.prems(2) by (intro ms_update_no_swings swing_inv_warmup) auto
  moreover have "fst (feed ms_update ?m1 cs) = []"
    using inv Cons.prems(2) by (intro Cons.IH) auto
  ultimately show ?case by (cases "ms_update m c") (auto simp: Let_def split: prod.splits)
qed simp

section \<open>Average true range\<close>

lemma true_range_nonneg: "0 \<le> true_range p c"
  by (simp add: true_range_def le_max_iff_disj)

lemma atr_of_nonneg: "0 \<le> atr_of n bars"
  by (auto simp: atr_of_def Let_def true_range_nonneg split: prod.splits intro!: fquot_nonneg fsum_nonneg)

lemma compute_atr_nonneg: "0 \<le> compute_atr m"
  by (simp add: compute_atr_def atr_of_nonneg)

section \<open>Confluence score\<close>

lemma active_ob_excludes:
  assumes "ob \<in> set (find_order_blocks (snd (ms_update m c)) d True)" and "ms_inv m"
    and "c_low c \<le> p" and "p \<le> c_high c"
  shows "\<not> (ob_zone_low ob \<le> p \<and> p \<le> ob_zone_high ob)"
proof -
  have mem: "ob \<in> set (ms_order_blocks (snd (ms_update m c)))" and act: "\<not> ob_mitigated ob"
    using assms(1) by (simp_all add: find_order_blocks_def)
  have "\<not> ob_touched c ob" using mem act by (rule active_ob_untouched)
  then show ?thesis using assms(3,4) by (cases "ob_direction ob") auto
qed

text \<open>The score adds its factors in order; each addend is non-negative, so the sum only grows.\<close>

definition score_terms :: "ms \<Rightarrow> pyfloat \<Rightarrow> zone_direction \<Rightarrow> bool list" where
  "score_terms m price d =
     [(d = DIR_BULLISH \<and> ms_htf_bias m = BULLISH) \<or> (d = DIR_BEARISH \<and> ms_htf_bias m = BEARISH),
      \<exists>ob \<in> set (find_order_blocks m (Some d) True). ob_zone_low ob \<le> price \<and> price \<le> ob_zone_high ob,
      \<exists>f \<in> set (find_fvg m (Some d) True). fvg_gap_low f \<le> price \<and> price \<le> fvg_gap_high f,
      (d = DIR_BULLISH \<and> ms_last_bos m \<in> {Some BOS_BULL, Some CHOCH_BULL}) \<or>
        (d = DIR_BEARISH \<and> ms_last_bos m \<in> {Some BOS_BEAR, Some CHOCH_BEAR}),
      compute_atr m > 0 \<and> (case (if d = DIR_BULLISH then ms_latest_swing m LOW else ms_latest_swing m HIGH) of None \<Rightarrow> False
         | Some sw \<Rightarrow> \<bar>fsub price (sw_price sw)\<bar> \<le> fmul 2 (compute_atr m))]"

definition score_weights :: "pyfloat list" where
  "score_weights = [rnd (1 / 4), rnd (1 / 4), rnd (1 / 5), rnd (1 / 5), rnd (1 / 10)]"

definition add_if :: "bool \<Rightarrow> pyfloat \<Rightarrow> pyfloat \<Rightarrow> pyfloat" where
  "add_if b w s = (if b then fadd s w else s)"

definition weigh :: "bool list \<Rightarrow> pyfloat" where
  "weigh bs = foldl (\<lambda>s (b, w). add_if b w s) 0 (zip bs score_weights)"

lemma add_if_folds:
  "(if b then fadd s w else s) = add_if b w s"
  "(if a then fadd s w else add_if b w s) = add_if (a \<or> b) w s"
  "(if a then (case x of None \<Rightarrow> s | Some y \<Rightarrow> add_if (p y) w s) else s)
     = add_if (a \<and> (case x of None \<Rightarrow> False | Some y \<Rightarrow> p y)) w s"
  by (auto simp: add_if_def split: option.split)

lemma score_eq_weigh: "calculate_confluence_score m price d = min (weigh (score_terms m price d)) 1"
  unfolding calculate_confluence_score_def add_if_folds
  by (simp only: Let_def weigh_def score_terms_def score_weights_def zip_Cons_Cons zip_Nil foldl.simps prod.case)

lemma is_float_add_if [simp]: "is_float s \<Longrightarrow> is_float (add_if b w s)"
  by (simp add: add_if_def)

lemma score_weights_pos: "\<forall>w \<in> set score_weights. 0 \<le> w"
  by (simp add: score_weights_def rnd_nonneg)

lemma foldl_weigh_nonneg:
  "\<forall>(b, w) \<in> set ps. 0 \<le> w \<Longrightarrow> 0 \<le> a \<Longrightarrow> 0 \<le> foldl (\<lambda>s (b, w). add_if b w s) a ps"
  by (induction ps arbitrary: a) (auto simp: add_if_def fadd_nonneg)

lemma weigh_nonneg: "0 \<le> weigh bs"
  unfolding weigh_def by (rule foldl_weigh_nonneg) (use score_weights_pos in \<open>auto dest: set_zip_rightD\<close>)

text \<open>Monotonicity in the factors that hold.\<close>

lemma foldl_weigh_mono:
  "\<lbrakk>list_all2 (\<lambda>(b, w) (b', w'). w = w' \<and> 0 \<le> w \<and> (b \<longrightarrow> b')) ps qs; a \<le> a'; is_float a; is_float a'\<rbrakk>
    \<Longrightarrow> foldl (\<lambda>s (b, w). add_if b w s) a ps \<le> foldl (\<lambda>s (b, w). add_if b w s) a' qs"
proof (induction ps qs arbitrary: a a' rule: list_all2_induct)
  case (Cons p ps q qs)
  obtain b w b' w' where pq: "p = (b, w)" "q = (b', w')" by (cases p; cases q)
  with Cons.hyps have w: "w' = w" "0 \<le> w" "b \<longrightarrow> b'" by auto
  have "a \<le> fadd a' w" using Cons.prems w fadd_ge_left [of a' w] by simp
  moreover have "fadd a w \<le> fadd a' w" using Cons.prems by (intro fadd_mono) simp_all
  ultimately have "add_if b w a \<le> add_if b' w a'"
    using Cons.prems w by (auto simp: add_if_def)
  then show ?case using Cons.prems w by (simp add: pq Cons.IH is_float_add_if)
qed simp

lemma weigh_no_ob: "weigh [h, False, f, t, s] \<le> rnd (3 / 4)"
proof -
  have "weigh [h, False, f, t, s] \<le> weigh [True, False, True, True, True]"
    unfolding weigh_def by (rule foldl_weigh_mono) (simp_all add: score_weights_def rnd_nonneg)
  also have "\<dots> \<le> rnd (3 / 4)"
    by (simp add: weigh_def score_weights_def add_if_def fl_eval)
  finally show ?thesis .
qed

lemma score_range: "0 \<le> calculate_confluence_score m price d \<and> calculate_confluence_score m price d \<le> 1"
  by (simp add: score_eq_weigh weigh_nonneg)

lemma score_at_close:
  assumes "ms_inv m" and "c_low c \<le> p" and "p \<le> c_high c"
  shows "calculate_confluence_score (snd (ms_update m c)) p d \<le> rnd (3 / 4)"
proof -
  have "\<not> (\<exists>ob \<in> set (find_order_blocks (snd (ms_update m c)) (Some d) True). ob_zone_low ob \<le> p \<and> p \<le> ob_zone_high ob)"
    using active_ob_excludes [OF _ assms] by blast
  then have "score_terms (snd (ms_update m c)) p d ! 1 = False"
    by (simp add: score_terms_def)
  moreover obtain h b f t s where "score_terms (snd (ms_update m c)) p d = [h, b, f, t, s]"
    by (simp add: score_terms_def)
  ultimately have "score_terms (snd (ms_update m c)) p d = [h, False, f, t, s]" by simp
  then show ?thesis using weigh_no_ob by (simp add: score_eq_weigh min_le_iff_disj)
qed

section \<open>Properties\<close>

text \<open>
  C1. Labels of structure breaks: over any feed of a fresh \<open>MarketStructure\<close>, the sequence of its
  break events is labelled as the textbook says (first break or same direction: BOS; change of
  direction: CHOCH), and \<open>last_trend\<close> is the side of the last break.
\<close>

theorem ms_feed_labels:
  "labelled None (breaks (fst (feed ms_update (new_ms k r) cs)))
    \<and> trend_side (last_trend (snd (feed ms_update (new_ms k r) cs)))
      = last_side None (breaks (fst (feed ms_update (new_ms k r) cs)))"
  using ms_tracker.feed_labelled [of "new_ms k r" cs] by (simp add: new_ms_def last_trend_def)

text \<open>
  The higher-timeframe bias: over any feed of a fresh \<open>HTFStructure\<close> the breaks are labelled the
  same way, and \<open>bias\<close> is neutral before the first break and the direction of the last break after.
\<close>

theorem htf_bias_follows_breaks:
  "labelled None (breaks (fst (feed htf_update (new_htf k r) cs)))
    \<and> htf_bias_of (snd (feed htf_update (new_htf k r) cs))
      = (case last_side None (breaks (fst (feed htf_update (new_htf k r) cs))) of
           None \<Rightarrow> NEUTRAL | Some DIR_BULLISH \<Rightarrow> BULLISH | Some DIR_BEARISH \<Rightarrow> BEARISH)"
proof -
  let ?t = "snd (feed htf_update (new_htf k r) cs)"
  have "trend_ok (h_last_bos ?t)"
    by (rule htf_tracker.feed_trend_ok) (simp add: new_htf_def)
  then have "htf_bias_of ?t = (case trend_side (h_last_bos ?t) of
      None \<Rightarrow> NEUTRAL | Some DIR_BULLISH \<Rightarrow> BULLISH | Some DIR_BEARISH \<Rightarrow> BEARISH)"
    by (auto simp: htf_bias_of_def trend_ok_def)
  then show ?thesis
    using htf_tracker.feed_labelled [of "new_htf k r" cs] by (simp add: new_htf_def)
qed

text \<open>
  C13. Swings do not look ahead and are extremes: every swing stored after a feed of a fresh tracker is
  the highest high (lowest low) of the \<open>2 k + 1\<close> bars around some fed bar, and the \<open>k\<close> bars after
  it had been fed, whatever the adaptive filter and the capacities dropped.
\<close>

theorem ms_swings_are_pivots:
  "list_all (\<lambda>s. \<exists>i. pivot_at k cs i s) (ms_swings (snd (feed ms_update (new_ms k r) cs)))"
  using swing_inv_feed [OF swing_inv_new [of k r], of cs]
  by (simp add: swing_inv_def list_all_iff) (simp add: new_ms_def)

text \<open>
  The state stays well formed: after any feed the deques are within their capacities, no two
  neighbouring swings are duplicates, every order block is built on an opposing candle with a
  non-empty zone, and every fair value gap is a real gap.
\<close>

theorem ms_feed_inv: "ms_inv (snd (feed ms_update (new_ms k r) cs))"
  by (rule ms_inv_feed [OF ms_inv_new])

text \<open>
  C35. Events are sound and exclusive: every event of an update refers to the bar just fed and to a
  stored swing of the right type that the bar sweeps or closes beyond, and a bar raises at most two
  events.
\<close>

theorem ms_events_sound:
  "list_all (\<lambda>e. ev_candle e = c \<and> ev_swing e \<in> set (ms_swings (snd (ms_update m c)))
      \<and> event_at c (ev_kind e) (ev_swing e)) (fst (ms_update m c))
    \<and> length (fst (ms_update m c)) \<le> 2"
proof
  show "list_all (\<lambda>e. ev_candle e = c \<and> ev_swing e \<in> set (ms_swings (snd (ms_update m c)))
      \<and> event_at c (ev_kind e) (ev_swing e)) (fst (ms_update m c))"
    using ms_event_at by (simp add: list_all_iff)
  show "length (fst (ms_update m c)) \<le> 2"
    by (rule ms_update_events [of m c]) (simp only: sweep_break_at_most_two)
qed

text \<open>
  C14. Mitigation is immediate: after an update no active order block is touched by the bar just fed
  and no active gap is crossed by it; so active demand lies below the bar and active supply above.
\<close>

theorem ms_active_zones_clear:
  "list_all (\<lambda>ob. \<not> ob_touched c ob) (find_order_blocks (snd (ms_update m c)) None True)
    \<and> list_all (\<lambda>f. \<not> fvg_crossed c f) (find_fvg (snd (ms_update m c)) None True)"
  using active_ob_untouched active_fvg_uncrossed
  by (auto simp: list_all_iff find_order_blocks_def find_fvg_def simp del: ob_touched.simps fvg_crossed.simps)

text \<open>
  Warm-up: the first \<open>2 k\<close> bars of a fresh tracker raise no event at all.
\<close>

theorem ms_warmup_silent:
  "length cs \<le> 2 * k \<Longrightarrow> fst (feed ms_update (new_ms k r) cs) = []"
  by (rule feed_warmup [OF swing_inv_new]) (simp add: new_ms_def)

lemma ms_warmup_silent_witness:
  "fst (feed ms_update (new_ms 1 (1 / 2)) [sample_bar 10 12 9 11 0, sample_bar 11 15 10 14 1]) = []"
  by (rule ms_warmup_silent) simp

text \<open>
  The score of \<open>calculate_confluence_score\<close> is always in \<open>[0, 1]\<close>; evaluated at the close of the
  bar just fed (the way the strategy uses order blocks) it is at most 0.75, since every order block
  that contains the close was mitigated by that bar.
\<close>

theorem ms_score_bounds:
  assumes "ohlc_ok c"
  shows "0 \<le> calculate_confluence_score m price d \<and> calculate_confluence_score m price d \<le> 1
    \<and> calculate_confluence_score (snd (feed ms_update (new_ms k r) (cs @ [c]))) (c_close c) d \<le> 3 / 4"
proof -
  have "snd (feed ms_update (new_ms k r) (cs @ [c])) = snd (ms_update (snd (feed ms_update (new_ms k r) cs)) c)"
    by (simp add: feed_append Let_def split: prod.splits)
  moreover have "calculate_confluence_score (snd (ms_update (snd (feed ms_update (new_ms k r) cs)) c)) (c_close c) d
      \<le> rnd (3 / 4)"
    using assms by (intro score_at_close [OF ms_feed_inv]) (simp_all add: ohlc_ok_def)
  moreover have "rnd (3 / 4) = 3 / 4" by (simp add: fl_eval)
  ultimately show ?thesis using score_range by metis
qed

lemma ms_score_bounds_witness:
  "0 \<le> calculate_confluence_score (new_ms 3 (1 / 2)) 7 DIR_BULLISH
    \<and> calculate_confluence_score (new_ms 3 (1 / 2)) 7 DIR_BULLISH \<le> 1
    \<and> calculate_confluence_score (snd (feed ms_update (new_ms 3 (1 / 2)) ([] @ [sample_bar 10 12 9 11 0])))
        (c_close (sample_bar 10 12 9 11 0)) DIR_BULLISH \<le> 3 / 4"
  by (rule ms_score_bounds) (simp add: ohlc_ok_def)

end
