(* ===== verification/Strategy.thy ===== *)
theory Strategy
  imports Instruments Market_Structure
begin

text \<open>
  The strategy of \<open>src/app/strategy\<close>: the candle patterns (candles.py), the record of a confluence
  evaluation (confluence.py) and \<open>SmcScalpStrategy\<close> (scalp_smc.py).  An evaluation returns the
  rejection records it logs, its result (a signal, nothing, or the exception that escapes from the
  constructor of the signal) and the strategy, whose \<open>_last_signal_ts\<close> it may set.

  The lemmas show: which points a score can have, what an emitted signal guarantees, which bars
  leave the strategy untouched, and that a bar is not signalled twice.
\<close>

section \<open>Candle patterns\<close>

definition is_strong_bullish_rejection :: "candle \<Rightarrow> pyfloat \<Rightarrow> bool" where
  "is_strong_bullish_rejection c min_wick_ratio =
     (if c_range c = 0 then False
      else is_bullish c \<and> fquot (lower_wick c) (c_range c) \<ge> min_wick_ratio
           \<and> fquot (c_body c) (c_range c) \<le> 1 / 2)"

definition is_strong_bearish_rejection :: "candle \<Rightarrow> pyfloat \<Rightarrow> bool" where
  "is_strong_bearish_rejection c min_wick_ratio =
     (if c_range c = 0 then False
      else is_bearish c \<and> fquot (upper_wick c) (c_range c) \<ge> min_wick_ratio
           \<and> fquot (c_body c) (c_range c) \<le> 1 / 2)"

definition is_displacement :: "candle \<Rightarrow> pyfloat \<Rightarrow> pyfloat \<Rightarrow> bool" where
  "is_displacement c atr multiplier =
     (if atr \<le> 0 then False
      else c_range c \<ge> fmul multiplier atr
           \<and> fquot (c_body c) (max (c_range c) (rnd (1 / 1000000000))) \<ge> rnd (65 / 100))"

text \<open>\<open>candles.atr\<close> is the same computation as \<open>MarketStructure._compute_atr\<close>.\<close>

definition candles_atr :: "candle list \<Rightarrow> nat \<Rightarrow> pyfloat" where
  "candles_atr candles period =
     (if length candles < 2 then 0
      else let sample = take_last (period + 1) candles;
               trs = map (\<lambda>(prev, cur). true_range prev cur) (consec sample)
           in if trs = [] then 0 else fquot (fsum trs) (of_nat (length trs)))"

text \<open>The default \<open>min_wick_ratio\<close>.\<close>

definition default_wick_ratio :: pyfloat where
  "default_wick_ratio = rnd (55 / 100)"

section \<open>SignalConfluence\<close>

record confluence =
  cf_score :: int
  cf_max_score :: int
  cf_factors_hit :: nat
  cf_factors_total :: nat
  cf_sweep :: int
  cf_rejection :: int
  cf_bos_htf :: int
  cf_order_block :: int
  cf_session_spread :: int
  cf_direction :: string
  cf_htf_bias :: string
  cf_tags :: "string list"
  cf_rejection_reason :: string

definition cf_accepted :: "confluence \<Rightarrow> bool" where
  "cf_accepted cf = (cf_rejection_reason cf = [])"

text \<open>The bullet of the source (U+2022) is written as its UTF-8 bytes.\<close>

definition factors_summary :: "confluence \<Rightarrow> string" where
  "factors_summary cf = py_str_int (cf_score cf) @ ''/'' @ py_str_int (cf_max_score cf)
     @ '' '' @ [CHR 0xE2, CHR 0x80, CHR 0xA2] @ '' ''
     @ py_str_int (int (cf_factors_hit cf)) @ ''/'' @ py_str_int (int (cf_factors_total cf)) @ '' factors''"

definition count_hits :: "int list \<Rightarrow> nat" where
  "count_hits pts = length (filter (\<lambda>v. v > 0) pts)"

definition cf_rejected :: "string \<Rightarrow> string \<Rightarrow> string \<Rightarrow> int \<Rightarrow> string list \<Rightarrow> int \<Rightarrow> int \<Rightarrow> int \<Rightarrow> int
    \<Rightarrow> int \<Rightarrow> confluence" where
  "cf_rejected direction bias reason score tags sweep rejection_pts bos_htf order_block session_spread =
     \<lparr>cf_score = score, cf_max_score = 100,
      cf_factors_hit = count_hits [sweep, rejection_pts, bos_htf, order_block, session_spread],
      cf_factors_total = 5, cf_sweep = sweep, cf_rejection = rejection_pts, cf_bos_htf = bos_htf,
      cf_order_block = order_block, cf_session_spread = session_spread, cf_direction = direction,
      cf_htf_bias = bias, cf_tags = tags, cf_rejection_reason = reason\<rparr>"

text \<open>The record as a dictionary, for the log: the fields in their order and whether it is accepted.\<close>

datatype conf_value = ConfInt int | ConfNum pyfloat | ConfText string | ConfTags "string list" | ConfFlag bool

definition to_dict :: "confluence \<Rightarrow> (string \<times> conf_value) list" where
  "to_dict cf =
     [(''score'', ConfInt (cf_score cf)), (''max_score'', ConfInt (cf_max_score cf)),
      (''factors_hit'', ConfInt (int (cf_factors_hit cf))), (''factors_total'', ConfInt (int (cf_factors_total cf))),
      (''sweep'', ConfInt (cf_sweep cf)), (''rejection'', ConfInt (cf_rejection cf)), (''bos_htf'', ConfInt (cf_bos_htf cf)),
      (''order_block'', ConfInt (cf_order_block cf)), (''session_spread'', ConfInt (cf_session_spread cf)),
      (''direction'', ConfText (cf_direction cf)), (''htf_bias'', ConfText (cf_htf_bias cf)), (''tags'', ConfTags (cf_tags cf)),
      (''rejection_reason'', ConfText (cf_rejection_reason cf)), (''accepted'', ConfFlag (cf_accepted cf))]"

lemma to_dict_lossless: "to_dict cf = to_dict cf' \<Longrightarrow> cf = cf'" and to_dict_keys: "distinct (map fst (to_dict cf))"
  by (simp_all add: to_dict_def)

section \<open>SmcScalpStrategy\<close>

definition score_sweep :: int where "score_sweep = 40"
definition score_rejection :: int where "score_rejection = 25"
definition score_bos_htf :: int where "score_bos_htf = 20"
definition score_order_block :: int where "score_order_block = 10"
definition score_session_spread :: int where "score_session_spread = 5"
definition min_confluence_default :: int where "min_confluence_default = 60"

lemmas score_defs = score_sweep_def score_rejection_def score_bos_htf_def score_order_block_def
  score_session_spread_def

fun bias_value :: "htf_bias \<Rightarrow> string" where
  "bias_value BULLISH = ''BULLISH''"
| "bias_value BEARISH = ''BEARISH''"
| "bias_value NEUTRAL = ''NEUTRAL''"

record strategy =
  st_symbol :: string
  st_timeframe :: string
  st_sessions :: session_filter
  st_tp_min :: pyfloat
  st_tp_max :: pyfloat
  st_min_rr :: pyfloat
  st_min_confluence :: int
  st_series :: candle_series
  st_ms :: ms
  st_instrument :: instrument
  st_last_signal_ts :: "py_datetime option"

text \<open>The log entry of a rejection; the text of a time is an argument.\<close>

definition log_rejection :: "(py_datetime \<Rightarrow> string) \<Rightarrow> strategy \<Rightarrow> confluence \<Rightarrow> candle \<Rightarrow> (string \<times> conf_value) list" where
  "log_rejection time_text st cf c =
     [(''symbol'', ConfText (st_symbol st)), (''direction'', ConfText (cf_direction cf)), (''timestamp'', ConfText (time_text (c_timestamp c))),
      (''price'', ConfNum (c_close c)), (''rejection_reason'', ConfText (cf_rejection_reason cf)), (''score'', ConfInt (cf_score cf)),
      (''factors_hit'', ConfInt (int (cf_factors_hit cf))), (''factors_total'', ConfInt (int (cf_factors_total cf))),
      (''htf_bias'', ConfText (cf_htf_bias cf)), (''sweep_pts'', ConfInt (cf_sweep cf)), (''rejection_pts'', ConfInt (cf_rejection cf)),
      (''bos_htf_pts'', ConfInt (cf_bos_htf cf)), (''ob_pts'', ConfInt (cf_order_block cf)), (''session_pts'', ConfInt (cf_session_spread cf)),
      (''tags'', ConfTags (cf_tags cf))]"

text \<open>The constructor with the given profit targets; the other parameters have their defaults.\<close>

definition new_strategy :: "registry \<Rightarrow> string \<Rightarrow> string \<Rightarrow> session_filter \<Rightarrow> pyfloat \<Rightarrow> pyfloat
    \<Rightarrow> strategy res" where
  "new_strategy reg symb tf sessions tp_min tp_max =
     bind_res (get_instrument_in reg symb) (\<lambda>i.
       Inr \<lparr>st_symbol = symb, st_timeframe = tf, st_sessions = sessions, st_tp_min = tp_min,
            st_tp_max = tp_max, st_min_rr = rnd (6 / 5), st_min_confluence = min_confluence_default,
            st_series = new_series symb tf 512, st_ms = new_ms 2 (1 / 2), st_instrument = i,
            st_last_signal_ts = None\<rparr>)"

definition strategy_set_htf_bias :: "strategy \<Rightarrow> htf_bias \<Rightarrow> strategy" where
  "strategy_set_htf_bias st b = st\<lparr>st_ms := set_htf_bias (st_ms st) b\<rparr>"

definition price_in_order_block :: "strategy \<Rightarrow> pyfloat \<Rightarrow> zone_direction \<Rightarrow> order_block option" where
  "price_in_order_block st price d =
     List.find (\<lambda>ob. ob_zone_low ob \<le> price \<and> price \<le> ob_zone_high ob) (find_order_blocks (st_ms st) (Some d) True)"

definition confluence_low :: "int \<Rightarrow> int \<Rightarrow> string" where
  "confluence_low score threshold = ''CONFLUENCE_LOW ('' @ py_str_int score @ ''<'' @ py_str_int threshold @ '')''"

subsection \<open>Signal construction\<close>

definition tp_distance :: "strategy \<Rightarrow> pyfloat \<Rightarrow> pyfloat \<Rightarrow> pyfloat" where
  "tp_distance st entry risk_dist =
     min (max (fmul entry (st_tp_min st)) (fmul (st_min_rr st) risk_dist))
         (fmul (fmul entry (st_tp_max st)) (3 / 2))"

definition build_signal_long :: "strategy \<Rightarrow> candle \<Rightarrow> pyfloat \<Rightarrow> confluence \<Rightarrow> signal option res" where
  "build_signal_long st c swept_low cf =
     (let entry = c_close c;
          sl = fsub (min swept_low (c_low c)) (inst_price_delta (st_instrument st) 1);
          risk_dist = fsub entry sl
      in if risk_dist \<le> 0 then Inr None
         else
           let tp = fadd entry (tp_distance st entry risk_dist);
               confidence = min (fquot (of_int (cf_score cf)) 100) 1;
               reason = ''sweep_low+rejection confluence='' @ factors_summary cf;
               tags = cf_tags cf @ [''CONFLUENCE:'' @ py_str_int (cf_score cf)]
           in bind_res (signal_long (st_symbol st) (st_timeframe st) entry sl tp reason
                (session_value (classify (st_sessions st) (c_timestamp c))) tags (c_timestamp c) confidence)
              (\<lambda>sig. Inr (if rr_ratio sig < st_min_rr st then None else Some sig)))"

definition build_signal_short :: "strategy \<Rightarrow> candle \<Rightarrow> pyfloat \<Rightarrow> confluence \<Rightarrow> signal option res" where
  "build_signal_short st c swept_high cf =
     (let entry = c_close c;
          sl = fadd (max swept_high (c_high c)) (inst_price_delta (st_instrument st) 1);
          risk_dist = fsub sl entry
      in if risk_dist \<le> 0 then Inr None
         else
           let tp = fsub entry (tp_distance st entry risk_dist);
               confidence = min (fquot (of_int (cf_score cf)) 100) 1;
               reason = ''sweep_high+rejection confluence='' @ factors_summary cf;
               tags = cf_tags cf @ [''CONFLUENCE:'' @ py_str_int (cf_score cf)]
           in bind_res (signal_short (st_symbol st) (st_timeframe st) entry sl tp reason
                (session_value (classify (st_sessions st) (c_timestamp c))) tags (c_timestamp c) confidence)
              (\<lambda>sig. Inr (if rr_ratio sig < st_min_rr st then None else Some sig)))"

subsection \<open>Evaluation\<close>

text \<open>The points and tags of an evaluation; a variable that the code updates in place is bound again.\<close>

definition score_long :: "strategy \<Rightarrow> candle \<Rightarrow> structure_event list \<Rightarrow> htf_bias \<Rightarrow> confluence" where
  "score_long st c events bias =
     (let sweep_pts = score_sweep;
          tags = [''SWEEP_LOW''];
          rejection_pts = (if is_strong_bullish_rejection c default_wick_ratio then score_rejection else 0);
          tags = tags @ (if is_strong_bullish_rejection c default_wick_ratio then [''REJECTION_BULL''] else []);
          kinds = map ev_kind events;
          bos_aligned = (BOS_BULL \<in> set kinds \<or> CHOCH_BULL \<in> set kinds \<or> last_trend (st_ms st) = Some BOS_BULL);
          bos_htf_pts = (if bos_aligned \<and> bias = BULLISH then score_bos_htf
                         else if bos_aligned then score_bos_htf div 2 else 0);
          tags = tags @ (if bos_aligned \<and> bias = BULLISH then [''BOS_HTF_ALIGNED'']
                         else if bos_aligned then [''BOS_NEUTRAL_HTF''] else []);
          entry_price = c_close c;
          ob_hit = price_in_order_block st entry_price DIR_BULLISH;
          ob_pts = (if ob_hit \<noteq> None then score_order_block else 0);
          tags = tags @ (if ob_hit \<noteq> None then [''OB_DEMAND''] else []);
          session_pts = score_session_spread;
          tags = tags @ [''SESSION_OK''];
          fvgs = find_fvg (st_ms st) (Some DIR_BULLISH) True;
          tags = tags @ (if \<exists>f \<in> set fvgs. fvg_gap_low f \<le> entry_price \<and> entry_price \<le> fvg_gap_high f
                         then [''FVG_BULLISH''] else []);
          pts = [sweep_pts, rejection_pts, bos_htf_pts, ob_pts, session_pts]
      in \<lparr>cf_score = sweep_pts + rejection_pts + bos_htf_pts + ob_pts + session_pts, cf_max_score = 100,
          cf_factors_hit = count_hits pts, cf_factors_total = 5, cf_sweep = sweep_pts,
          cf_rejection = rejection_pts, cf_bos_htf = bos_htf_pts, cf_order_block = ob_pts,
          cf_session_spread = session_pts, cf_direction = ''LONG'', cf_htf_bias = bias_value bias,
          cf_tags = tags, cf_rejection_reason = []\<rparr>)"

definition score_short :: "strategy \<Rightarrow> candle \<Rightarrow> structure_event list \<Rightarrow> htf_bias \<Rightarrow> confluence" where
  "score_short st c events bias =
     (let sweep_pts = score_sweep;
          tags = [''SWEEP_HIGH''];
          rejection_pts = (if is_strong_bearish_rejection c default_wick_ratio then score_rejection else 0);
          tags = tags @ (if is_strong_bearish_rejection c default_wick_ratio then [''REJECTION_BEAR''] else []);
          kinds = map ev_kind events;
          bos_aligned = (BOS_BEAR \<in> set kinds \<or> CHOCH_BEAR \<in> set kinds \<or> last_trend (st_ms st) = Some BOS_BEAR);
          bos_htf_pts = (if bos_aligned \<and> bias = BEARISH then score_bos_htf
                         else if bos_aligned then score_bos_htf div 2 else 0);
          tags = tags @ (if bos_aligned \<and> bias = BEARISH then [''BOS_HTF_ALIGNED'']
                         else if bos_aligned then [''BOS_NEUTRAL_HTF''] else []);
          entry_price = c_close c;
          ob_hit = price_in_order_block st entry_price DIR_BEARISH;
          ob_pts = (if ob_hit \<noteq> None then score_order_block else 0);
          tags = tags @ (if ob_hit \<noteq> None then [''OB_SUPPLY''] else []);
          session_pts = score_session_spread;
          tags = tags @ [''SESSION_OK''];
          fvgs = find_fvg (st_ms st) (Some DIR_BEARISH) True;
          tags = tags @ (if \<exists>f \<in> set fvgs. fvg_gap_low f \<le> entry_price \<and> entry_price \<le> fvg_gap_high f
                         then [''FVG_BEARISH''] else []);
          pts = [sweep_pts, rejection_pts, bos_htf_pts, ob_pts, session_pts]
      in \<lparr>cf_score = sweep_pts + rejection_pts + bos_htf_pts + ob_pts + session_pts, cf_max_score = 100,
          cf_factors_hit = count_hits pts, cf_factors_total = 5, cf_sweep = sweep_pts,
          cf_rejection = rejection_pts, cf_bos_htf = bos_htf_pts, cf_order_block = ob_pts,
          cf_session_spread = session_pts, cf_direction = ''SHORT'', cf_htf_bias = bias_value bias,
          cf_tags = tags, cf_rejection_reason = []\<rparr>)"

definition evaluate_long :: "strategy \<Rightarrow> candle \<Rightarrow> structure_event list \<Rightarrow> htf_bias
    \<Rightarrow> (confluence list \<times> signal option res) \<times> strategy" where
  "evaluate_long st c events bias =
     (if bias = BEARISH then
        (([cf_rejected ''LONG'' (bias_value bias) ''HTF_BIAS_OPPOSED'' 0 [] 0 0 0 0 0], Inr None), st)
      else case List.find (\<lambda>e. ev_kind e = SWEEP_LOW) events of
        None \<Rightarrow> (([], Inr None), st)
      | Some sweep_event \<Rightarrow>
          let cf = score_long st c events bias in
          if cf_score cf < st_min_confluence st then
            (([cf\<lparr>cf_rejection_reason := confluence_low (cf_score cf) (st_min_confluence st)\<rparr>], Inr None), st)
          else case build_signal_long st c (sw_price (ev_swing sweep_event)) cf of
              Inl e \<Rightarrow> (([], Inl e), st)
            | Inr None \<Rightarrow> (([], Inr None), st)
            | Inr (Some sig) \<Rightarrow> (([], Inr (Some sig)), st\<lparr>st_last_signal_ts := Some (c_timestamp c)\<rparr>))"

definition evaluate_short :: "strategy \<Rightarrow> candle \<Rightarrow> structure_event list \<Rightarrow> htf_bias
    \<Rightarrow> (confluence list \<times> signal option res) \<times> strategy" where
  "evaluate_short st c events bias =
     (if bias = BULLISH then
        (([cf_rejected ''SHORT'' (bias_value bias) ''HTF_BIAS_OPPOSED'' 0 [] 0 0 0 0 0], Inr None), st)
      else case List.find (\<lambda>e. ev_kind e = SWEEP_HIGH) events of
        None \<Rightarrow> (([], Inr None), st)
      | Some sweep_event \<Rightarrow>
          let cf = score_short st c events bias in
          if cf_score cf < st_min_confluence st then
            (([cf\<lparr>cf_rejection_reason := confluence_low (cf_score cf) (st_min_confluence st)\<rparr>], Inr None), st)
          else case build_signal_short st c (sw_price (ev_swing sweep_event)) cf of
              Inl e \<Rightarrow> (([], Inl e), st)
            | Inr None \<Rightarrow> (([], Inr None), st)
            | Inr (Some sig) \<Rightarrow> (([], Inr (Some sig)), st\<lparr>st_last_signal_ts := Some (c_timestamp c)\<rparr>))"

subsection \<open>The entry point\<close>

text \<open>The end of \<open>on_candle\<close>, once the bar was fed: the long side first, then the short side.\<close>

definition evaluate :: "strategy \<Rightarrow> candle \<Rightarrow> structure_event list
    \<Rightarrow> (confluence list \<times> signal option res) \<times> strategy" where
  "evaluate st c events =
     (if events = [] then (([], Inr None), st)
      else let bias = get_htf_bias (st_ms st);
               lo = evaluate_long st c events bias
           in case snd (fst lo) of
                Inr None \<Rightarrow> let sh = evaluate_short (snd lo) c events bias
                            in ((fst (fst lo) @ fst (fst sh), snd (fst sh)), snd sh)
              | _ \<Rightarrow> lo)"

definition on_candle :: "strategy \<Rightarrow> candle \<Rightarrow> (confluence list \<times> signal option res) \<times> strategy" where
  "on_candle st c =
     (if c_symbol c \<noteq> st_symbol st \<or> c_timeframe c \<noteq> st_timeframe st then (([], Inr None), st)
      else if \<not> is_active (st_sessions st) (c_timestamp c) (st_symbol st) then (([], Inr None), st)
      else if (case st_last_signal_ts st of None \<Rightarrow> False | Some t \<Rightarrow> dt_eq t (c_timestamp c)) then (([], Inr None), st)
      else case series_append (st_series st) c of
          Inl e \<Rightarrow> (([], Inl e), st)
        | Inr series \<Rightarrow>
            let (events, m) = ms_update (st_ms st) c
            in evaluate (st\<lparr>st_series := series, st_ms := m\<rparr>) c events)"

section \<open>Scores\<close>

lemma score_long_fields:
  "cf_sweep (score_long st c es b) = 40" "cf_session_spread (score_long st c es b) = 5"
  "cf_rejection (score_long st c es b) = (if is_strong_bullish_rejection c default_wick_ratio then 25 else 0)"
  "cf_bos_htf (score_long st c es b) \<in> {0, 10, 20}"
  "cf_bos_htf (score_long st c es b) = 20 \<Longrightarrow> b = BULLISH"
  "cf_order_block (score_long st c es b) = (if price_in_order_block st (c_close c) DIR_BULLISH = None then 0 else 10)"
  "cf_max_score (score_long st c es b) = 100" "cf_factors_total (score_long st c es b) = 5"
  "cf_direction (score_long st c es b) = ''LONG''"
  by (simp_all add: score_long_def Let_def score_defs split: if_splits)

lemma score_short_fields:
  "cf_sweep (score_short st c es b) = 40" "cf_session_spread (score_short st c es b) = 5"
  "cf_rejection (score_short st c es b) = (if is_strong_bearish_rejection c default_wick_ratio then 25 else 0)"
  "cf_bos_htf (score_short st c es b) \<in> {0, 10, 20}"
  "cf_bos_htf (score_short st c es b) = 20 \<Longrightarrow> b = BEARISH"
  "cf_order_block (score_short st c es b) = (if price_in_order_block st (c_close c) DIR_BEARISH = None then 0 else 10)"
  "cf_max_score (score_short st c es b) = 100" "cf_factors_total (score_short st c es b) = 5"
  "cf_direction (score_short st c es b) = ''SHORT''"
  by (simp_all add: score_short_def Let_def score_defs split: if_splits)

definition cf_wf :: "confluence \<Rightarrow> bool" where
  "cf_wf cf \<longleftrightarrow> cf_score cf = cf_sweep cf + cf_rejection cf + cf_bos_htf cf + cf_order_block cf + cf_session_spread cf
     \<and> cf_factors_hit cf = count_hits [cf_sweep cf, cf_rejection cf, cf_bos_htf cf, cf_order_block cf, cf_session_spread cf]
     \<and> 0 \<le> cf_score cf \<and> cf_score cf \<le> cf_max_score cf \<and> cf_max_score cf = 100
     \<and> cf_factors_hit cf \<le> cf_factors_total cf \<and> cf_factors_total cf = 5"

lemma count_hits_le: "count_hits pts \<le> length pts"
  by (simp add: count_hits_def)

lemma score_sum:
  "cf_score (score_long st c es b) = 45 + cf_rejection (score_long st c es b) + cf_bos_htf (score_long st c es b)
     + cf_order_block (score_long st c es b)"
  "cf_score (score_short st c es b) = 45 + cf_rejection (score_short st c es b) + cf_bos_htf (score_short st c es b)
     + cf_order_block (score_short st c es b)"
  by (simp_all add: score_long_def score_short_def Let_def score_defs)

lemma score_hits:
  "cf_factors_hit (score_long st c es b) = count_hits [cf_sweep (score_long st c es b), cf_rejection (score_long st c es b),
     cf_bos_htf (score_long st c es b), cf_order_block (score_long st c es b), cf_session_spread (score_long st c es b)]"
  "cf_factors_hit (score_short st c es b) = count_hits [cf_sweep (score_short st c es b), cf_rejection (score_short st c es b),
     cf_bos_htf (score_short st c es b), cf_order_block (score_short st c es b), cf_session_spread (score_short st c es b)]"
  by (simp_all add: score_long_def score_short_def Let_def)

lemma score_wf: "cf_wf (score_long st c es b)" "cf_wf (score_short st c es b)"
  using score_long_fields [of st c es b] score_short_fields [of st c es b]
    count_hits_le [of "[40, cf_rejection (score_long st c es b), cf_bos_htf (score_long st c es b), cf_order_block (score_long st c es b), 5]"]
    count_hits_le [of "[40, cf_rejection (score_short st c es b), cf_bos_htf (score_short st c es b), cf_order_block (score_short st c es b), 5]"]
  by (auto simp: cf_wf_def score_sum score_hits)

lemma price_in_order_block_None:
  "ms_inv m \<Longrightarrow> st_ms st = snd (ms_update m c) \<Longrightarrow> ohlc_ok c \<Longrightarrow> price_in_order_block st (c_close c) d = None"
  unfolding price_in_order_block_def find_None_iff
  using active_ob_excludes [of _ m c "Some d" "c_close c"] by (auto simp: ohlc_ok_def)

section \<open>Signals that are built\<close>

lemma build_signal_long_Some:
  assumes "build_signal_long st c swept cf = Inr (Some sg)"
  shows "signal_ok sg" "sg_direction sg = LONG" "sg_symbol sg = st_symbol st" "sg_timeframe sg = st_timeframe st"
    "sg_entry sg = c_close c" "sg_sl sg = fsub (min swept (c_low c)) (inst_price_delta (st_instrument st) 1)"
    "st_min_rr st \<le> rr_ratio sg" "sg_generated_at sg = to_utc (c_timestamp c)"
    "sg_tags sg = cf_tags cf @ [''CONFLUENCE:'' @ py_str_int (cf_score cf)]"
    "sg_confidence sg = min (fquot (of_int (cf_score cf)) 100) 1"
    "sg_tp sg \<le> fadd (c_close c) (fmul (fmul (c_close c) (st_tp_max st)) (3 / 2))"
  using assms
  by (auto simp: build_signal_long_def Let_def tp_distance_def bind_res_eq_Inr not_less
      dest!: signal_long_ok intro!: fadd_mono split: if_splits)

lemma build_signal_short_Some:
  assumes "build_signal_short st c swept cf = Inr (Some sg)"
  shows "signal_ok sg" "sg_direction sg = SHORT" "sg_symbol sg = st_symbol st" "sg_timeframe sg = st_timeframe st"
    "sg_entry sg = c_close c" "sg_sl sg = fadd (max swept (c_high c)) (inst_price_delta (st_instrument st) 1)"
    "st_min_rr st \<le> rr_ratio sg" "sg_generated_at sg = to_utc (c_timestamp c)"
    "sg_tags sg = cf_tags cf @ [''CONFLUENCE:'' @ py_str_int (cf_score cf)]"
    "sg_confidence sg = min (fquot (of_int (cf_score cf)) 100) 1"
    "fsub (c_close c) (fmul (fmul (c_close c) (st_tp_max st)) (3 / 2)) \<le> sg_tp sg"
  using assms
  by (auto simp: build_signal_short_def Let_def tp_distance_def bind_res_eq_Inr not_less
      dest!: signal_short_ok intro!: fsub_mono split: if_splits)

lemma confidence_range:
  "0 \<le> k \<Longrightarrow> 0 \<le> min (fquot (of_int k) 100) (1 :: pyfloat) \<and> min (fquot (of_int k) 100) (1 :: pyfloat) \<le> 1"
  by (simp add: fquot_nonneg)

text \<open>When the construction raises: no room between entry and target, or a stop that is not positive.\<close>

lemma build_signal_long_raises:
  assumes "0 < c_close c" and "0 \<le> cf_score cf"
    and "sl = fsub (min swept (c_low c)) (inst_price_delta (st_instrument st) 1)"
    and "tp = fadd (c_close c) (tp_distance st (c_close c) (fsub (c_close c) sl))"
  shows "build_signal_long st c swept cf = Inl e \<longleftrightarrow>
    0 < fsub (c_close c) sl \<and> (tp \<le> c_close c \<and> e = ValueError \<or> c_close c < tp \<and> sl \<le> 0 \<and> e = ValidationError)"
  using assms confidence_range [of "cf_score cf"] fsub_posD [of "c_close c" sl]
  by (auto simp: build_signal_long_def Let_def bind_res_eq_Inl signal_long_def mk_signal_def not_less not_le)

lemma build_signal_short_raises:
  assumes "0 < c_close c" and "0 \<le> cf_score cf"
    and "sl = fadd (max swept (c_high c)) (inst_price_delta (st_instrument st) 1)"
    and "tp = fsub (c_close c) (tp_distance st (c_close c) (fsub sl (c_close c)))"
  shows "build_signal_short st c swept cf = Inl e \<longleftrightarrow>
    0 < fsub sl (c_close c) \<and> (c_close c \<le> tp \<and> e = ValueError \<or> tp < c_close c \<and> tp \<le> 0 \<and> e = ValidationError)"
  using assms confidence_range [of "cf_score cf"] fsub_posD [of sl "c_close c"]
  by (auto simp: build_signal_short_def Let_def bind_res_eq_Inl signal_short_def mk_signal_def not_less not_le)

section \<open>One bar\<close>

lemma evaluate_long_Some:
  assumes "evaluate_long st c es b = ((logs, Inr (Some sg)), st')"
  obtains e where "b \<noteq> BEARISH" "e \<in> set es" "ev_kind e = SWEEP_LOW"
    "st_min_confluence st \<le> cf_score (score_long st c es b)"
    "build_signal_long st c (sw_price (ev_swing e)) (score_long st c es b) = Inr (Some sg)"
    "st' = st\<lparr>st_last_signal_ts := Some (c_timestamp c)\<rparr>" "logs = []"
  using assms
  by (auto simp: evaluate_long_def Let_def not_less dest!: find_SomeD split: if_splits option.splits sum.splits)

lemma evaluate_short_Some:
  assumes "evaluate_short st c es b = ((logs, Inr (Some sg)), st')"
  obtains e where "b \<noteq> BULLISH" "e \<in> set es" "ev_kind e = SWEEP_HIGH"
    "st_min_confluence st \<le> cf_score (score_short st c es b)"
    "build_signal_short st c (sw_price (ev_swing e)) (score_short st c es b) = Inr (Some sg)"
    "st' = st\<lparr>st_last_signal_ts := Some (c_timestamp c)\<rparr>" "logs = []"
  using assms
  by (auto simp: evaluate_short_def Let_def not_less dest!: find_SomeD split: if_splits option.splits sum.splits)

text \<open>The only state an evaluation changes is the time of the last signal, when it returns one.\<close>

lemma evaluate_long_state:
  "snd (evaluate_long st c es b) = (case snd (fst (evaluate_long st c es b)) of
     Inr (Some sg) \<Rightarrow> st\<lparr>st_last_signal_ts := Some (c_timestamp c)\<rparr> | _ \<Rightarrow> st)"
  by (simp add: evaluate_long_def Let_def split: option.split sum.split)

lemma evaluate_short_state:
  "snd (evaluate_short st c es b) = (case snd (fst (evaluate_short st c es b)) of
     Inr (Some sg) \<Rightarrow> st\<lparr>st_last_signal_ts := Some (c_timestamp c)\<rparr> | _ \<Rightarrow> st)"
  by (simp add: evaluate_short_def Let_def split: option.split sum.split)

text \<open>What is logged for a rejection.\<close>

definition opposed :: "string \<Rightarrow> htf_bias \<Rightarrow> confluence" where
  "opposed d b = cf_rejected d (bias_value b) ''HTF_BIAS_OPPOSED'' 0 [] 0 0 0 0 0"

definition too_low :: "confluence \<Rightarrow> int \<Rightarrow> confluence" where
  "too_low cf threshold = cf\<lparr>cf_rejection_reason := confluence_low (cf_score cf) threshold\<rparr>"

lemma evaluate_long_logs:
  "set (fst (fst (evaluate_long st c es b))) \<subseteq>
     {opposed ''LONG'' b, too_low (score_long st c es b) (st_min_confluence st)}"
  by (simp add: evaluate_long_def Let_def opposed_def too_low_def split: option.split sum.split)

lemma evaluate_short_logs:
  "set (fst (fst (evaluate_short st c es b))) \<subseteq>
     {opposed ''SHORT'' b, too_low (score_short st c es b) (st_min_confluence st)}"
  by (simp add: evaluate_short_def Let_def opposed_def too_low_def split: option.split sum.split)

lemma logged_wf:
  "cf_wf (opposed d b)" "\<not> cf_accepted (opposed d b)"
  "cf_wf (too_low cf n) = cf_wf cf" "\<not> cf_accepted (too_low cf n)"
  by (simp_all add: opposed_def too_low_def cf_rejected_def cf_wf_def count_hits_def cf_accepted_def confluence_low_def)

text \<open>A bar the guards of \<open>on_candle\<close> refuse.\<close>

definition skipped :: "strategy \<Rightarrow> candle \<Rightarrow> bool" where
  "skipped st c \<longleftrightarrow> c_symbol c \<noteq> st_symbol st \<or> c_timeframe c \<noteq> st_timeframe st
     \<or> \<not> is_active (st_sessions st) (c_timestamp c) (st_symbol st)
     \<or> (case st_last_signal_ts st of None \<Rightarrow> False | Some t \<Rightarrow> dt_eq t (c_timestamp c))"

lemma on_candle_skipped: "skipped st c \<Longrightarrow> on_candle st c = (([], Inr None), st)"
  by (auto simp: on_candle_def skipped_def)

text \<open>The strategy after a bar was fed to its trackers, before the evaluation.\<close>

definition fed :: "strategy \<Rightarrow> candle_series \<Rightarrow> candle \<Rightarrow> strategy" where
  "fed st series c = st\<lparr>st_series := series, st_ms := snd (ms_update (st_ms st) c)\<rparr>"

lemma fed_simps [simp]:
  "st_symbol (fed st s c) = st_symbol st" "st_timeframe (fed st s c) = st_timeframe st"
  "st_sessions (fed st s c) = st_sessions st" "st_tp_min (fed st s c) = st_tp_min st"
  "st_tp_max (fed st s c) = st_tp_max st" "st_min_rr (fed st s c) = st_min_rr st"
  "st_min_confluence (fed st s c) = st_min_confluence st" "st_instrument (fed st s c) = st_instrument st"
  "st_series (fed st s c) = s" "st_ms (fed st s c) = snd (ms_update (st_ms st) c)"
  "st_last_signal_ts (fed st s c) = st_last_signal_ts st"
  by (simp_all add: fed_def)

definition strategy_inv :: "strategy \<Rightarrow> bool" where
  "strategy_inv st \<longleftrightarrow> ms_inv (st_ms st) \<and> series_inv (st_series st)
     \<and> sr_symbol (st_series st) = st_symbol st \<and> sr_timeframe (st_series st) = st_timeframe st"

lemma series_append_strategy:
  "strategy_inv st \<Longrightarrow> \<not> skipped st c \<Longrightarrow>
     \<exists>s. series_append (st_series st) c = Inr s \<and> series_inv s \<and> sr_symbol s = st_symbol st
       \<and> sr_timeframe s = st_timeframe st"
proof -
  assume inv: "strategy_inv st" and go: "\<not> skipped st c"
  then have "c_symbol c = sr_symbol (st_series st)" "c_timeframe c = sr_timeframe (st_series st)"
    by (auto simp: strategy_inv_def skipped_def)
  then obtain s where "series_append (st_series st) c = Inr s"
    by (simp add: series_append_def split: if_split_asm) (metis (full_types))
  with inv show ?thesis
    using series_append_inv series_append_fields by (auto simp: strategy_inv_def)
qed

lemma on_candle_fed:
  assumes "\<not> skipped st c" and "series_append (st_series st) c = Inr s"
  shows "on_candle st c = evaluate (fed st s c) c (fst (ms_update (st_ms st) c))"
  using assms by (auto simp: on_candle_def skipped_def fed_def split: prod.split)

lemma evaluate_state:
  "snd (evaluate st c es) = (case snd (fst (evaluate st c es)) of
     Inr (Some sg) \<Rightarrow> st\<lparr>st_last_signal_ts := Some (c_timestamp c)\<rparr> | _ \<Rightarrow> st)"
  using evaluate_long_state [of st c es "get_htf_bias (st_ms st)"] evaluate_short_state [of st c es "get_htf_bias (st_ms st)"]
  by (simp add: evaluate_def Let_def split: sum.splits option.splits)

lemma strategy_inv_step: "strategy_inv st \<Longrightarrow> strategy_inv (snd (on_candle st c))"
proof (cases "skipped st c")
  case False
  assume inv: "strategy_inv st"
  from series_append_strategy [OF inv False] obtain s where
    s: "series_append (st_series st) c = Inr s" "series_inv s" "sr_symbol s = st_symbol st" "sr_timeframe s = st_timeframe st"
    by auto
  then have "strategy_inv (fed st s c)" using inv by (simp add: strategy_inv_def ms_inv_update)
  then show ?thesis
    using evaluate_state [of "fed st s c" c "fst (ms_update (st_ms st) c)"]
    unfolding on_candle_fed [OF False s(1)] by (auto simp: strategy_inv_def split: sum.splits option.splits)
qed (simp add: on_candle_skipped)

text \<open>
  What a signal of a fed bar promises, on either side: no opposed bias, a sweep of the right kind on
  this bar, a stop one pip beyond both the swept level and the bar's extreme, enough points, and a
  target no further than one and a half times the maximal profit.
\<close>

definition signal_contract :: "strategy \<Rightarrow> candle \<Rightarrow> structure_event list \<Rightarrow> signal \<Rightarrow> bool" where
  "signal_contract st c es sg \<longleftrightarrow>
     (let pip = inst_price_delta (st_instrument st) 1;
          cap = fmul (fmul (c_close c) (st_tp_max st)) (3 / 2);
          b = get_htf_bias (st_ms st)
      in signal_ok sg \<and> sg_symbol sg = st_symbol st \<and> sg_timeframe sg = st_timeframe st
         \<and> sg_entry sg = c_close c \<and> sg_generated_at sg = to_utc (c_timestamp c) \<and> st_min_rr st \<le> rr_ratio sg
         \<and> (case sg_direction sg of
              LONG \<Rightarrow> b \<noteq> BEARISH \<and> sg_tp sg \<le> fadd (c_close c) cap
                \<and> st_min_confluence st \<le> cf_score (score_long st c es b)
                \<and> (\<exists>e \<in> set es. ev_kind e = SWEEP_LOW \<and> sg_sl sg = fsub (min (sw_price (ev_swing e)) (c_low c)) pip)
            | SHORT \<Rightarrow> b \<noteq> BULLISH \<and> fsub (c_close c) cap \<le> sg_tp sg
                \<and> st_min_confluence st \<le> cf_score (score_short st c es b)
                \<and> (\<exists>e \<in> set es. ev_kind e = SWEEP_HIGH \<and> sg_sl sg = fadd (max (sw_price (ev_swing e)) (c_high c)) pip)))"

text \<open>A signal comes from the evaluation of one side, and from a record with enough points.\<close>

lemma evaluate_Some:
  assumes "snd (fst (evaluate st c es)) = Inr (Some sg)"
  obtains (long) e where "get_htf_bias (st_ms st) \<noteq> BEARISH" "e \<in> set es" "ev_kind e = SWEEP_LOW"
      "st_min_confluence st \<le> cf_score (score_long st c es (get_htf_bias (st_ms st)))"
      "build_signal_long st c (sw_price (ev_swing e)) (score_long st c es (get_htf_bias (st_ms st))) = Inr (Some sg)"
  | (short) e where "get_htf_bias (st_ms st) \<noteq> BULLISH" "e \<in> set es" "ev_kind e = SWEEP_HIGH"
      "st_min_confluence st \<le> cf_score (score_short st c es (get_htf_bias (st_ms st)))"
      "build_signal_short st c (sw_price (ev_swing e)) (score_short st c es (get_htf_bias (st_ms st))) = Inr (Some sg)"
proof -
  let ?b = "get_htf_bias (st_ms st)"
  consider (L) logs st' where "evaluate_long st c es ?b = ((logs, Inr (Some sg)), st')"
    | (S) logs st' where "evaluate_short st c es ?b = ((logs, Inr (Some sg)), st')"
    using assms evaluate_long_state [of st c es ?b]
    by (auto simp: evaluate_def Let_def split: sum.splits option.splits if_splits) (metis prod.collapse)+
  then show ?thesis
  proof cases
    case L
    then show ?thesis by (rule evaluate_long_Some) (rule long)
  next
    case S
    then show ?thesis by (rule evaluate_short_Some) (rule short)
  qed
qed

lemma evaluate_contract:
  assumes "snd (fst (evaluate st c es)) = Inr (Some sg)"
  shows "signal_contract st c es sg"
  using assms
proof (cases rule: evaluate_Some)
  case (long e)
  then show ?thesis using build_signal_long_Some [OF long(5)] by (auto simp: signal_contract_def Let_def)
next
  case (short e)
  then show ?thesis using build_signal_short_Some [OF short(5)] by (auto simp: signal_contract_def Let_def)
qed

lemma on_candle_Some:
  assumes "snd (fst (on_candle st c)) = Inr (Some sg)"
  obtains s where "\<not> skipped st c" "series_append (st_series st) c = Inr s"
    "snd (fst (evaluate (fed st s c) c (fst (ms_update (st_ms st) c)))) = Inr (Some sg)"
    "snd (on_candle st c) = (fed st s c)\<lparr>st_last_signal_ts := Some (c_timestamp c)\<rparr>"
proof -
  have go: "\<not> skipped st c" using assms on_candle_skipped [of st c] by auto
  obtain s where s: "series_append (st_series st) c = Inr s"
    using assms go by (cases "series_append (st_series st) c") (auto simp: on_candle_def skipped_def)
  note eq = on_candle_fed [OF go s]
  with assms have ev: "snd (fst (evaluate (fed st s c) c (fst (ms_update (st_ms st) c)))) = Inr (Some sg)" by simp
  moreover have "snd (on_candle st c) = (fed st s c)\<lparr>st_last_signal_ts := Some (c_timestamp c)\<rparr>"
    unfolding eq by (simp add: evaluate_state ev)
  ultimately show ?thesis using go s that by simp
qed

lemma signal_marks_bar:
  assumes "snd (fst (on_candle st c)) = Inr (Some sg)" and "dt_eq (c_timestamp c) (c_timestamp c')"
  shows "skipped (snd (on_candle st c)) c'"
  using assms(1)
proof (rule on_candle_Some)
  fix s assume "snd (on_candle st c) = (fed st s c)\<lparr>st_last_signal_ts := Some (c_timestamp c)\<rparr>"
  then show ?thesis using assms(2) by (simp add: skipped_def)
qed

section \<open>Whole runs\<close>

text \<open>The engine and the backtests hand the bars to \<open>on_candle\<close> one by one.\<close>

primrec run_strategy :: "strategy \<Rightarrow> candle list \<Rightarrow> (confluence list \<times> signal option res) list \<times> strategy" where
  "run_strategy st [] = ([], st)"
| "run_strategy st (c # cs) =
     (let r = on_candle st c; rs = run_strategy (snd r) cs in (fst r # fst rs, snd rs))"

lemma run_strategy_snoc:
  "run_strategy st (cs @ [c]) =
     (let r = run_strategy st cs; x = on_candle (snd r) c in (fst r @ [fst x], snd x))"
  by (induction cs arbitrary: st) (simp_all add: Let_def)

lemma strategy_inv_run: "strategy_inv st \<Longrightarrow> strategy_inv (snd (run_strategy st cs))"
  by (induction cs arbitrary: st) (simp_all add: Let_def strategy_inv_step)

text \<open>What no bar changes: the parameters and the bias, which only \<open>set_htf_bias\<close> sets.\<close>

definition same_config :: "strategy \<Rightarrow> strategy \<Rightarrow> bool" where
  "same_config a b \<longleftrightarrow> st_symbol a = st_symbol b \<and> st_timeframe a = st_timeframe b \<and> st_sessions a = st_sessions b
     \<and> st_tp_min a = st_tp_min b \<and> st_tp_max a = st_tp_max b \<and> st_min_rr a = st_min_rr b
     \<and> st_min_confluence a = st_min_confluence b \<and> st_instrument a = st_instrument b
     \<and> get_htf_bias (st_ms a) = get_htf_bias (st_ms b)"

lemma same_config_refl [simp]: "same_config st st"
  by (simp add: same_config_def)

lemma same_config_trans: "same_config a b \<Longrightarrow> same_config b c \<Longrightarrow> same_config a c"
  by (simp add: same_config_def)

lemma same_config_step: "same_config (snd (on_candle st c)) st"
proof (cases "skipped st c")
  case False
  show ?thesis
  proof (cases "series_append (st_series st) c")
    case (Inl e)
    with False show ?thesis by (auto simp: on_candle_def skipped_def)
  next
    case (Inr s)
    show ?thesis
      unfolding on_candle_fed [OF False Inr] evaluate_state
      by (auto simp: same_config_def get_htf_bias_def split: sum.split option.split)
  qed
qed (simp add: on_candle_skipped)

lemma same_config_run: "same_config (snd (run_strategy st cs)) st"
  by (induction cs arbitrary: st) (auto simp: Let_def intro: same_config_trans same_config_step)

subsection \<open>The points of a real bar\<close>

text \<open>On consistent bars the order-block factor never scores, and half points need no bias.\<close>

definition attainable :: "htf_bias \<Rightarrow> int \<Rightarrow> bool" where
  "attainable b n \<longleftrightarrow> n \<in> (if b = NEUTRAL then {45, 55, 70, 80} else {45, 55, 65, 70, 80, 90})"

lemma score_attainable:
  assumes "strategy_inv st" and "ohlc_ok c"
  shows "attainable b (cf_score (score_long (fed st s c) c es b))"
    and "attainable b (cf_score (score_short (fed st s c) c es b))"
proof -
  have "price_in_order_block (fed st s c) (c_close c) d = None" for d
    using assms price_in_order_block_None [of "st_ms st" "fed st s c" c d] by (simp add: strategy_inv_def)
  then show "attainable b (cf_score (score_long (fed st s c) c es b))"
    and "attainable b (cf_score (score_short (fed st s c) c es b))"
    using score_long_fields [of "fed st s c" c es b] score_short_fields [of "fed st s c" c es b]
    by (auto simp: attainable_def score_sum)
qed

lemma score_tags:
  "''OB_DEMAND'' \<in> set (cf_tags (score_long st c es b)) \<longleftrightarrow> cf_order_block (score_long st c es b) = 10"
  "''OB_SUPPLY'' \<notin> set (cf_tags (score_long st c es b))"
  "''REJECTION_BULL'' \<in> set (cf_tags (score_long st c es b)) \<longleftrightarrow> cf_rejection (score_long st c es b) = 25"
  "''OB_SUPPLY'' \<in> set (cf_tags (score_short st c es b)) \<longleftrightarrow> cf_order_block (score_short st c es b) = 10"
  "''OB_DEMAND'' \<notin> set (cf_tags (score_short st c es b))"
  "''REJECTION_BEAR'' \<in> set (cf_tags (score_short st c es b)) \<longleftrightarrow> cf_rejection (score_short st c es b) = 25"
  by (auto simp: score_long_def score_short_def Let_def score_defs)

lemma score_fed:
  "score_long (fed st s c) c es b = score_long (fed st (st_series st) c) c es b"
  "score_short (fed st s c) c es b = score_short (fed st (st_series st) c) c es b"
  by (simp_all add: score_long_def score_short_def price_in_order_block_def)

lemma signal_contract_fed: "signal_contract (fed st s c) c es sg = signal_contract (fed st (st_series st) c) c es sg"
  by (simp add: signal_contract_def Let_def score_fed [of st s] split: signal_direction.split)

lemma run_results:
  "x \<in> set (fst (run_strategy st cs)) \<Longrightarrow>
     \<exists>pre c post. cs = pre @ c # post \<and> x = fst (on_candle (snd (run_strategy st pre)) c)"
proof (induction cs rule: rev_induct)
  case (snoc c cs)
  then consider "x \<in> set (fst (run_strategy st cs))" | "x = fst (on_candle (snd (run_strategy st cs)) c)"
    by (auto simp: run_strategy_snoc Let_def)
  then show ?case
  proof cases
    case 1
    with snoc.IH obtain pre d post where "cs = pre @ d # post" "x = fst (on_candle (snd (run_strategy st pre)) d)" by blast
    then have "cs @ [c] = pre @ d # (post @ [c])" "x = fst (on_candle (snd (run_strategy st pre)) d)" by auto
    then show ?thesis by blast
  qed blast
qed simp

lemma strategy_inv_new: "new_strategy reg symb tf sf tmin tmax = Inr st \<Longrightarrow> strategy_inv st"
  by (auto simp: new_strategy_def bind_res_eq_Inr strategy_inv_def ms_inv_new series_inv_new) (simp_all add: new_series_def)

lemma new_strategy_fields:
  "new_strategy reg symb tf sf tmin tmax = Inr st \<Longrightarrow>
     st_min_confluence st = 60 \<and> get_htf_bias (st_ms st) = NEUTRAL \<and> st_min_rr st = rnd (6 / 5) \<and> st_tp_max st = tmax"
  by (auto simp: new_strategy_def bind_res_eq_Inr min_confluence_default_def new_ms_def get_htf_bias_def)

text \<open>With a neutral bias only a rejection candle reaches 60 points.\<close>

lemma neutral_score:
  assumes "strategy_inv st" and "ohlc_ok c"
  shows "60 \<le> cf_score (score_long (fed st s c) c es NEUTRAL) \<Longrightarrow>
      cf_score (score_long (fed st s c) c es NEUTRAL) \<in> {70, 80}
      \<and> ''REJECTION_BULL'' \<in> set (cf_tags (score_long (fed st s c) c es NEUTRAL))
      \<and> set (cf_tags (score_long (fed st s c) c es NEUTRAL)) \<inter> {''OB_DEMAND'', ''OB_SUPPLY''} = {}"
    and "60 \<le> cf_score (score_short (fed st s c) c es NEUTRAL) \<Longrightarrow>
      cf_score (score_short (fed st s c) c es NEUTRAL) \<in> {70, 80}
      \<and> ''REJECTION_BEAR'' \<in> set (cf_tags (score_short (fed st s c) c es NEUTRAL))
      \<and> set (cf_tags (score_short (fed st s c) c es NEUTRAL)) \<inter> {''OB_DEMAND'', ''OB_SUPPLY''} = {}"
proof -
  have "price_in_order_block (fed st s c) (c_close c) d = None" for d
    using assms price_in_order_block_None [of "st_ms st" "fed st s c" c d] by (simp add: strategy_inv_def)
  then have ob: "cf_order_block (score_long (fed st s c) c es NEUTRAL) = 0"
    "cf_order_block (score_short (fed st s c) c es NEUTRAL) = 0"
    by (simp_all add: score_long_fields score_short_fields)
  {
    assume "60 \<le> cf_score (score_long (fed st s c) c es NEUTRAL)"
    then show "cf_score (score_long (fed st s c) c es NEUTRAL) \<in> {70, 80}
      \<and> ''REJECTION_BULL'' \<in> set (cf_tags (score_long (fed st s c) c es NEUTRAL))
      \<and> set (cf_tags (score_long (fed st s c) c es NEUTRAL)) \<inter> {''OB_DEMAND'', ''OB_SUPPLY''} = {}"
      using ob(1) score_long_fields(3-5) [of "fed st s c" c es NEUTRAL] score_tags(1-3) [of "fed st s c" c es NEUTRAL]
      by (auto simp: score_sum split: if_splits)
  next
    assume "60 \<le> cf_score (score_short (fed st s c) c es NEUTRAL)"
    then show "cf_score (score_short (fed st s c) c es NEUTRAL) \<in> {70, 80}
      \<and> ''REJECTION_BEAR'' \<in> set (cf_tags (score_short (fed st s c) c es NEUTRAL))
      \<and> set (cf_tags (score_short (fed st s c) c es NEUTRAL)) \<inter> {''OB_DEMAND'', ''OB_SUPPLY''} = {}"
      using ob(2) score_short_fields(3-5) [of "fed st s c" c es NEUTRAL] score_tags(4-6) [of "fed st s c" c es NEUTRAL]
      by (auto simp: score_sum split: if_splits)
  }
qed

section \<open>A strategy for the witnesses\<close>

text \<open>A pip of one, a single swing low at 100, and a maximal profit of 20%.\<close>

definition demo_strategy :: strategy where
  "demo_strategy = \<lparr>st_symbol = ''EURUSD'', st_timeframe = ''M1'', st_sessions = new_session_filter 7 11 12 16,
     st_tp_min = rnd (1 / 1000), st_tp_max = rnd (1 / 5), st_min_rr = rnd (6 / 5), st_min_confluence = 60,
     st_series = new_series ''EURUSD'' ''M1'' 512,
     st_ms = (new_ms 2 (1 / 2))\<lparr>ms_swings := [\<lparr>sw_type = LOW, sw_price = 100, sw_timestamp = utc 0, sw_index = 0,
       sw_prominence = 0\<rparr>]\<rparr>,
     st_instrument = \<lparr>i_symbol = ''EURUSD'', pip_size = 1, contract_size = 1, quote_per_pip_per_lot = 1, is_metal = False\<rparr>,
     st_last_signal_ts = None\<rparr>"

definition demo_bar :: candle where
  "demo_bar = sample_bar 106 110 98 108 480"

lemma demo_update:
  "ms_update (st_ms demo_strategy) demo_bar =
     ([\<lparr>ev_kind = SWEEP_LOW, ev_candle = demo_bar, ev_swing = \<lparr>sw_type = LOW, sw_price = 100, sw_timestamp = utc 0,
        sw_index = 0, sw_prominence = 0\<rparr>\<rparr>],
      (st_ms demo_strategy)\<lparr>ms_candles := [demo_bar]\<rparr>)"
  by (simp add: ms_update_def demo_strategy_def demo_bar_def new_ms_def dq_append_def detect_swings_def
      ms_latest_swing_def latest_swing_def sweep_events_def is_sweep_low_def c_range_def break_event_def
      detect_fvg_def mitigate_obs_def fill_fvgs_def fl_eval)

lemma demo_skipped: "\<not> skipped demo_strategy demo_bar"
  by (simp add: skipped_def demo_strategy_def demo_bar_def is_active_def classify_def new_session_filter_def
      utc_def to_utc_def dt_hour_def symbols_24h_default_def py_upper_def upper_char_def)

lemma demo_series:
  "series_append (st_series demo_strategy) demo_bar = Inr ((new_series ''EURUSD'' ''M1'' 512)\<lparr>sr_buffer := [demo_bar]\<rparr>)"
  by (simp add: series_append_def demo_strategy_def demo_bar_def new_series_def dq_append_def)

lemma demo_fields [simp]:
  "c_open demo_bar = 106" "c_high demo_bar = 110" "c_low demo_bar = 98" "c_close demo_bar = 108"
  "c_timestamp demo_bar = utc 28800000000"
  "st_symbol demo_strategy = ''EURUSD''" "st_timeframe demo_strategy = ''M1''"
  "st_sessions demo_strategy = new_session_filter 7 11 12 16" "st_min_confluence demo_strategy = 60"
  "st_min_rr demo_strategy = rnd (6 / 5)" "st_tp_min demo_strategy = rnd (1 / 1000)" "st_tp_max demo_strategy = rnd (1 / 5)"
  "pip_size (st_instrument demo_strategy) = 1" "ms_fvgs (st_ms demo_strategy) = []"
  "ms_order_blocks (st_ms demo_strategy) = []" "ms_last_bos (st_ms demo_strategy) = None"
  "ms_htf_bias (st_ms demo_strategy) = NEUTRAL"
  by (simp_all add: demo_bar_def demo_strategy_def new_ms_def)

lemma demo_rejection: "is_strong_bullish_rejection demo_bar default_wick_ratio"
  by (simp add: is_strong_bullish_rejection_def c_range_def is_bullish_def lower_wick_def c_body_def
      default_wick_ratio_def fl_eval)

lemma demo_score:
  "score_long (fed demo_strategy s demo_bar) demo_bar es NEUTRAL = \<lparr>cf_score = 70, cf_max_score = 100, cf_factors_hit = 3, cf_factors_total = 5,
     cf_sweep = 40, cf_rejection = 25, cf_bos_htf = 0, cf_order_block = 0, cf_session_spread = 5,
     cf_direction = ''LONG'', cf_htf_bias = ''NEUTRAL'', cf_tags = [''SWEEP_LOW'', ''REJECTION_BULL'', ''SESSION_OK''],
     cf_rejection_reason = []\<rparr>" if "map ev_kind es = [SWEEP_LOW]"
  using that demo_rejection
  by (simp add: score_long_def demo_update price_in_order_block_def find_order_blocks_def find_fvg_def
      last_trend_def score_defs count_hits_def)

lemma demo_classify: "session_value (classify (new_session_filter 7 11 12 16) (utc 28800000000)) = ''LONDON''"
  by (simp add: classify_def new_session_filter_def utc_def to_utc_def dt_hour_def)

lemma demo_build:
  "\<exists>sg. build_signal_long (fed demo_strategy s demo_bar) demo_bar 100 (score_long (fed demo_strategy s demo_bar) demo_bar es NEUTRAL) = Inr (Some sg)"
  if "map ev_kind es = [SWEEP_LOW]"
  by (simp add: demo_score [OF that] build_signal_long_def tp_distance_def inst_price_delta_def signal_long_def mk_signal_def
      rr_ratio_def risk_distance_def reward_distance_def fl_eval)

text \<open>So the bar is signalled.\<close>

lemma demo_signal_conf:
  "\<exists>sg. snd (fst (on_candle demo_strategy demo_bar)) = Inr (Some sg) \<and> sg_confidence sg = min (fquot 70 100) 1"
proof -
  let ?s = "(new_series ''EURUSD'' ''M1'' 512)\<lparr>sr_buffer := [demo_bar]\<rparr>"
  let ?es = "fst (ms_update (st_ms demo_strategy) demo_bar)"
  have es: "map ev_kind ?es = [SWEEP_LOW]" by (simp add: demo_update)
  obtain sg where sg: "build_signal_long (fed demo_strategy ?s demo_bar) demo_bar 100
      (score_long (fed demo_strategy ?s demo_bar) demo_bar ?es NEUTRAL) = Inr (Some sg)"
    using demo_build [OF es] by blast
  then have "snd (fst (on_candle demo_strategy demo_bar)) = Inr (Some sg)"
    unfolding on_candle_fed [OF demo_skipped demo_series]
    by (simp add: evaluate_def evaluate_long_def demo_update get_htf_bias_def Let_def demo_score)
  moreover have "sg_confidence sg = min (fquot 70 100) 1"
    using build_signal_long_Some(10) [OF sg] by (simp add: demo_score [OF es])
  ultimately show ?thesis by blast
qed

lemma demo_signal: "\<exists>sg. snd (fst (on_candle demo_strategy demo_bar)) = Inr (Some sg)"
  using demo_signal_conf by blast

section \<open>Properties\<close>

text \<open>
  C2. Soundness of signals: whatever state the strategy is in, a signal is only emitted for a bar of its
  symbol and timeframe inside an active session, and it satisfies the contract: valid levels on the
  right sides, entry at the close, no opposed bias, a sweep of the right kind on this very bar, the
  stop one pip beyond the swept level and the bar, enough points, at least the minimal reward:risk
  ratio, and a target within 1.5 times the maximal profit.
\<close>

theorem strategy_signal_sound:
  assumes "snd (fst (on_candle st c)) = Inr (Some sg)"
  shows "c_symbol c = st_symbol st \<and> c_timeframe c = st_timeframe st
    \<and> is_active (st_sessions st) (c_timestamp c) (st_symbol st)
    \<and> signal_contract (fed st (st_series st) c) c (fst (ms_update (st_ms st) c)) sg"
proof -
  obtain s where go: "\<not> skipped st c"
    and ev: "snd (fst (evaluate (fed st s c) c (fst (ms_update (st_ms st) c)))) = Inr (Some sg)"
    by (rule on_candle_Some [OF assms])
  have "signal_contract (fed st (st_series st) c) c (fst (ms_update (st_ms st) c)) sg"
    using evaluate_contract [OF ev] by (simp only: signal_contract_fed [of st s])
  with go show ?thesis by (simp add: skipped_def)
qed

lemma strategy_signal_sound_witness:
  "\<exists>sg. c_symbol demo_bar = st_symbol demo_strategy \<and> c_timeframe demo_bar = st_timeframe demo_strategy
    \<and> is_active (st_sessions demo_strategy) (c_timestamp demo_bar) (st_symbol demo_strategy)
    \<and> signal_contract (fed demo_strategy (st_series demo_strategy) demo_bar) demo_bar
        (fst (ms_update (st_ms demo_strategy) demo_bar)) sg"
  using demo_signal strategy_signal_sound by blast

text \<open>
  A bar is signalled once: after a signal, every further tick of a bar with the same timestamp is
  answered with no signal and leaves the whole strategy unchanged.
\<close>

theorem strategy_bar_signalled_once:
  assumes "snd (fst (on_candle st c)) = Inr (Some sg)" and "dt_eq (c_timestamp c) (c_timestamp c')"
  shows "on_candle (snd (on_candle st c)) c' = (([], Inr None), snd (on_candle st c))"
  using signal_marks_bar [OF assms] by (rule on_candle_skipped)

lemma strategy_bar_signalled_once_witness:
  "on_candle (snd (on_candle demo_strategy demo_bar)) (sample_bar 106 112 98 111 480)
     = (([], Inr None), snd (on_candle demo_strategy demo_bar))"
proof -
  obtain sg where "snd (fst (on_candle demo_strategy demo_bar)) = Inr (Some sg)" using demo_signal ..
  then show ?thesis
    by (rule strategy_bar_signalled_once) (simp add: demo_bar_def dt_eq_def utc_def)
qed

text \<open>
  What scores can be: along any run over consistent bars, with the neutral bias a strategy starts
  with and a threshold of at least 60, every signal carries a strong rejection candle, its score is
  70 or 80, and it is never tagged with an order block (that factor is unreachable).
\<close>

theorem strategy_run_scores:
  assumes "strategy_inv st" and "get_htf_bias (st_ms st) = NEUTRAL" and "60 \<le> st_min_confluence st"
    and "list_all ohlc_ok cs" and "x \<in> set (fst (run_strategy st cs))" and "snd x = Inr (Some sg)"
  shows "sg_confidence sg \<in> {min (fquot 70 100) 1, min (fquot 80 100) 1}
    \<and> (''REJECTION_BULL'' \<in> set (sg_tags sg) \<or> ''REJECTION_BEAR'' \<in> set (sg_tags sg))
    \<and> set (sg_tags sg) \<inter> {''OB_DEMAND'', ''OB_SUPPLY''} = {}"
proof -
  from run_results [OF assms(5)] obtain pre c post where cs: "cs = pre @ c # post"
    and x: "x = fst (on_candle (snd (run_strategy st pre)) c)" by blast
  let ?st = "snd (run_strategy st pre)"
  have inv: "strategy_inv ?st" by (rule strategy_inv_run [OF assms(1)])
  have ok: "ohlc_ok c" using assms(4) cs by simp
  have cfg: "get_htf_bias (st_ms ?st) = NEUTRAL" "60 \<le> st_min_confluence ?st"
    using same_config_run [of st pre] assms(2,3) by (auto simp: same_config_def)
  from assms(6) x have "snd (fst (on_candle ?st c)) = Inr (Some sg)" by simp
  then obtain s where ev: "snd (fst (evaluate (fed ?st s c) c (fst (ms_update (st_ms ?st) c)))) = Inr (Some sg)"
    by (rule on_candle_Some)
  let ?es = "fst (ms_update (st_ms ?st) c)"
  have b: "get_htf_bias (st_ms (fed ?st s c)) = NEUTRAL" using cfg by (simp add: get_htf_bias_def)
  from ev show ?thesis
  proof (cases rule: evaluate_Some)
    case (long e)
    then show ?thesis
      using neutral_score(1) [OF inv ok, of s ?es] build_signal_long_Some(9,10) [OF long(5)] b cfg by auto
  next
    case (short e)
    then show ?thesis
      using neutral_score(2) [OF inv ok, of s ?es] build_signal_short_Some(9,10) [OF short(5)] b cfg by auto
  qed
qed


lemma strategy_run_scores_witness:
  "\<exists>sg :: signal. sg_confidence sg \<in> {min (fquot 70 100) 1, min (fquot 80 100) 1}
    \<and> (''REJECTION_BULL'' \<in> set (sg_tags sg) \<or> ''REJECTION_BEAR'' \<in> set (sg_tags sg))
    \<and> set (sg_tags sg) \<inter> {''OB_DEMAND'', ''OB_SUPPLY''} = {}"
proof -
  obtain sg where sg: "snd (fst (on_candle demo_strategy demo_bar)) = Inr (Some sg)" using demo_signal ..
  have "strategy_inv demo_strategy"
    by (simp add: strategy_inv_def ms_inv_def demo_strategy_def new_ms_def swings_distinct_def series_inv_def new_series_def)
  then have "sg_confidence sg \<in> {min (fquot 70 100) 1, min (fquot 80 100) 1}
    \<and> (''REJECTION_BULL'' \<in> set (sg_tags sg) \<or> ''REJECTION_BEAR'' \<in> set (sg_tags sg))
    \<and> set (sg_tags sg) \<inter> {''OB_DEMAND'', ''OB_SUPPLY''} = {}"
    by (rule strategy_run_scores [where cs = "[demo_bar]" and x = "fst (on_candle demo_strategy demo_bar)"])
      (simp_all add: get_htf_bias_def ohlc_ok_def sg Let_def)
  then show ?thesis by (rule exI [of _ sg])
qed

text \<open>
  The exceptions that escape from the construction of a LONG signal, exactly: with a stop below
  the close, \<open>ValueError\<close> when the target does not clear the entry, and otherwise
  \<open>ValidationError\<close> when the stop is not positive; nothing else is raised.
\<close>

theorem strategy_long_errors:
  assumes "0 < c_close c" and "0 \<le> cf_score cf"
  shows "(let sl = fsub (min swept (c_low c)) (inst_price_delta (st_instrument st) 1);
              tp = fadd (c_close c) (tp_distance st (c_close c) (fsub (c_close c) sl))
          in build_signal_long st c swept cf = Inl e \<longleftrightarrow>
            0 < fsub (c_close c) sl \<and> (tp \<le> c_close c \<and> e = ValueError \<or> c_close c < tp \<and> sl \<le> 0 \<and> e = ValidationError))"
  unfolding Let_def by (rule build_signal_long_raises [OF assms refl refl])

text \<open>A maximal profit of zero, which the settings allow, makes every setup raise.\<close>

lemma strategy_long_errors_witness:
  "build_signal_long (demo_strategy\<lparr>st_tp_max := 0\<rparr>) demo_bar 100
     (score_long (fed demo_strategy (st_series demo_strategy) demo_bar) demo_bar [] NEUTRAL) = Inl ValueError"
proof -
  let ?cf = "score_long (fed demo_strategy (st_series demo_strategy) demo_bar) demo_bar [] NEUTRAL"
  have "0 \<le> cf_score ?cf" using score_wf(1) unfolding cf_wf_def by blast
  from strategy_long_errors [OF _ this, of demo_bar 100 "demo_strategy\<lparr>st_tp_max := 0\<rparr>" ValueError]
  show ?thesis
    by (simp add: Let_def inst_price_delta_def tp_distance_def fl_eval)
qed

text \<open>
  Every rejection the strategy logs is well formed: the points add up to the score, the number of
  factors hit is counted from them, the score is within 0 and 100, and the record is not an accepted one.
\<close>

theorem strategy_logs_wf:
  "list_all (\<lambda>cf. cf_wf cf \<and> \<not> cf_accepted cf) (fst (fst (on_candle st c)))"
proof (cases "skipped st c")
  case False
  have ev: "cf_wf cf \<and> \<not> cf_accepted cf" if "cf \<in> set (fst (fst (evaluate s1 c es)))" for cf s1 es
    using that evaluate_long_logs [of s1 c es "get_htf_bias (st_ms s1)"]
      evaluate_short_logs [of "snd (evaluate_long s1 c es (get_htf_bias (st_ms s1)))" c es "get_htf_bias (st_ms s1)"]
    by (auto simp: evaluate_def Let_def logged_wf score_wf split: if_splits sum.splits option.splits)
  show ?thesis
  proof (cases "series_append (st_series st) c")
    case (Inl e)
    with False show ?thesis by (auto simp: on_candle_def skipped_def)
  next
    case (Inr s)
    show ?thesis unfolding on_candle_fed [OF False Inr] using ev by (auto simp: list_all_iff)
  qed
qed (simp add: on_candle_skipped)

text \<open>
  Rounding: a setup whose target is placed at exactly the minimal reward:risk ratio can come out below
  it when the ratio is computed back, and is then dropped.
\<close>

lemma min_rr_setup_dropped:
  "tp_distance demo_strategy 108 18 = fmul (st_min_rr demo_strategy) 18"
  "build_signal_long demo_strategy (sample_bar 106 110 91 108 480) 92
     (score_long (fed demo_strategy (st_series demo_strategy) demo_bar) demo_bar
       (fst (ms_update (st_ms demo_strategy) demo_bar)) NEUTRAL) = Inr None"
proof -
  have es: "map ev_kind (fst (ms_update (st_ms demo_strategy) demo_bar)) = [SWEEP_LOW]" by (simp add: demo_update)
  show "tp_distance demo_strategy 108 18 = fmul (st_min_rr demo_strategy) 18"
    by (simp add: tp_distance_def fl_eval)
  show "build_signal_long demo_strategy (sample_bar 106 110 91 108 480) 92
     (score_long (fed demo_strategy (st_series demo_strategy) demo_bar) demo_bar
       (fst (ms_update (st_ms demo_strategy) demo_bar)) NEUTRAL) = Inr None"
    by (simp add: demo_score [OF es] build_signal_long_def tp_distance_def inst_price_delta_def signal_long_def mk_signal_def
      rr_ratio_def risk_distance_def reward_distance_def fl_eval)
qed

section \<open>A source of signals\<close>

text \<open>
  What the engine and the backtests rely on (the protocol \<open>Strategy\<close> of \<open>src/app/strategy/base.py\<close>, as
  its implementation keeps it): a signal is well formed and enters at the close of the bar.
\<close>

locale signal_source =
  fixes next_signal :: "'s \<Rightarrow> candle \<Rightarrow> signal option res \<times> 's"
  assumes signal_wf: "next_signal s c = (Inr (Some sg), s') \<Longrightarrow> signal_ok sg \<and> sg_entry sg = c_close c \<and> sg_symbol sg = c_symbol c"

definition smc_next :: "strategy \<Rightarrow> candle \<Rightarrow> signal option res \<times> strategy" where
  "smc_next st c = (let r = on_candle st c in (snd (fst r), snd r))"

interpretation smc: signal_source smc_next
proof
  fix st c sg st'
  assume "smc_next st c = (Inr (Some sg), st')"
  then have "snd (fst (on_candle st c)) = Inr (Some sg)" by (simp add: smc_next_def Let_def)
  then show "signal_ok sg \<and> sg_entry sg = c_close c \<and> sg_symbol sg = c_symbol c"
  proof (rule on_candle_Some)
    fix s
    assume "\<not> skipped st c" and "snd (fst (evaluate (fed st s c) c (fst (ms_update (st_ms st) c)))) = Inr (Some sg)"
    then show ?thesis
      using evaluate_contract by (fastforce simp: signal_contract_def skipped_def Let_def)
  qed
qed

end
