(* ===== verification/Risk.thy ===== *)
theory Risk
  imports Config
begin

text \<open>
  The risk manager of \<open>src/app/risk/manager.py\<close>.  The clock (\<open>utcnow().date()\<close>, a day number) and the
  instrument registry are arguments of the operations that read them.  The display strings
  \<open>detail\<close> of the decisions are left out (\<open>Notify\<close> takes them as an argument).

  The lemmas show: when a signal is accepted, what the day counters and balances are along any
  history of calls, that a halted manager stays halted for the day, how much an accepted position
  can lose at its stop, and which exceptions can escape.
\<close>

section \<open>State\<close>

datatype risk_reason = R_OK | DAILY_TRADE_LIMIT | DAILY_LOSS_LIMIT | CONSECUTIVE_LOSSES | TOTAL_DRAWDOWN
  | SPREAD_TOO_WIDE | INVALID_SIGNAL | SIZE_TOO_SMALL | DISABLED | CONSISTENCY_RULE

record risk_decision =
  rd_accepted :: bool
  rd_quantity :: pyfloat
  rd_risk_amount :: pyfloat
  rd_reason :: risk_reason

record risk_manager =
  rm_settings :: settings
  starting_balance :: pyfloat
  current_balance :: pyfloat
  high_water_mark :: pyfloat
  rm_today :: int
  trades_today :: int
  realized_today :: pyfloat
  consecutive_losses :: int
  rm_disabled :: bool
  trading_start_date :: "int option"
  trading_days_counted :: int
  highest_day_pnl :: pyfloat
  simulated_now :: "int option"

text \<open>The constructor: a balance or mark that is not positive is replaced by the starting balance.\<close>

definition new_risk_manager :: "settings \<Rightarrow> pyfloat \<Rightarrow> pyfloat \<Rightarrow> pyfloat \<Rightarrow> int \<Rightarrow> risk_manager" where
  "new_risk_manager s start current mark now =
     \<lparr>rm_settings = s, starting_balance = start, current_balance = (if current \<le> 0 then start else current),
      high_water_mark = (if mark \<le> 0 then start else mark), rm_today = now, trades_today = 0,
      realized_today = 0, consecutive_losses = 0, rm_disabled = False, trading_start_date = None,
      trading_days_counted = 0, highest_day_pnl = 0, simulated_now = None\<rparr>"

definition set_simulated_time :: "risk_manager \<Rightarrow> py_datetime \<Rightarrow> risk_manager" where
  "set_simulated_time rm t = rm\<lparr>simulated_now := Some (dt_date t)\<rparr>"

definition now_date :: "risk_manager \<Rightarrow> int \<Rightarrow> int" where
  "now_date rm now = (case simulated_now rm of None \<Rightarrow> now | Some d \<Rightarrow> d)"

definition maybe_rollover :: "risk_manager \<Rightarrow> int \<Rightarrow> risk_manager" where
  "maybe_rollover rm now =
     (let today = now_date rm now in
      if today \<noteq> rm_today rm then
        rm\<lparr>trading_days_counted := (if trades_today rm > 0 then trading_days_counted rm + 1 else trading_days_counted rm),
           highest_day_pnl := (if realized_today rm > highest_day_pnl rm then realized_today rm else highest_day_pnl rm),
           rm_today := today, trades_today := 0, realized_today := 0, consecutive_losses := 0, rm_disabled := False\<rparr>
      else rm)"

section \<open>Decisions\<close>

definition reject :: "risk_reason \<Rightarrow> risk_decision" where
  "reject r = \<lparr>rd_accepted = False, rd_quantity = 0, rd_risk_amount = 0, rd_reason = r\<rparr>"

definition is_spread_acceptable :: "registry \<Rightarrow> risk_manager \<Rightarrow> string \<Rightarrow> pyfloat \<Rightarrow> bool res" where
  "is_spread_acceptable reg rm symb spread_pips =
     bind_res (get_instrument_in reg symb) (\<lambda>i.
       Inr (spread_pips \<le> (if is_metal i then max_spread_pips_metals (rm_settings rm)
                            else max_spread_pips_fx (rm_settings rm))))"

definition size_position :: "registry \<Rightarrow> risk_manager \<Rightarrow> signal \<Rightarrow> pyfloat res" where
  "size_position reg rm sg =
     bind_res (get_instrument_in reg (sg_symbol sg)) (\<lambda>i.
     let risk_amount = fmul (current_balance rm) (risk_per_trade_pct (rm_settings rm)) in
     bind_res (inst_pips i (risk_distance sg)) (\<lambda>risk_pips.
     if risk_pips \<le> 0 then Inr 0
     else let loss_per_lot = fmul risk_pips (quote_per_pip_per_lot i) in
       if loss_per_lot \<le> 0 then Inr 0
       else let raw_lots = fquot risk_amount loss_per_lot in
         if sg_direction sg = LONG \<and> raw_lots \<le> 0 then Inr 0
         else Inr (fquot (of_int \<lfloor>fmul raw_lots 100\<rfloor>) 100)))"

text \<open>The checks of \<open>evaluate\<close> after the drawdown was computed: consistency, spread, signal, size.\<close>

definition evaluate_size :: "registry \<Rightarrow> risk_manager \<Rightarrow> signal \<Rightarrow> pyfloat option
    \<Rightarrow> risk_decision res \<times> risk_manager" where
  "evaluate_size reg rm sg spread =
     (let spread_ok = (case spread of None \<Rightarrow> Inr True | Some p \<Rightarrow> is_spread_acceptable reg rm (sg_symbol sg) p)
      in case spread_ok of
           Inl e \<Rightarrow> (Inl e, rm)
         | Inr False \<Rightarrow> (Inr (reject SPREAD_TOO_WIDE), rm)
         | Inr True \<Rightarrow>
             if risk_distance sg \<le> 0 then (Inr (reject INVALID_SIGNAL), rm)
             else case size_position reg rm sg of
               Inl e \<Rightarrow> (Inl e, rm)
             | Inr lots \<Rightarrow>
                 if lots \<le> 0 then (Inr (reject SIZE_TOO_SMALL), rm)
                 else (Inr \<lparr>rd_accepted = True, rd_quantity = lots,
                        rd_risk_amount = fmul (current_balance rm) (risk_per_trade_pct (rm_settings rm)),
                        rd_reason = R_OK\<rparr>, rm))"

definition evaluate_risk :: "registry \<Rightarrow> risk_manager \<Rightarrow> int \<Rightarrow> signal \<Rightarrow> pyfloat option
    \<Rightarrow> risk_decision res \<times> risk_manager" where
  "evaluate_risk reg rm0 now sg spread =
     (let rm = maybe_rollover rm0 now; s = rm_settings rm in
      if rm_disabled rm then (Inr (reject DISABLED), rm)
      else if trades_today rm \<ge> max_trades_per_day s then (Inr (reject DAILY_TRADE_LIMIT), rm)
      else if consecutive_losses rm \<ge> max_consecutive_losses s
        then (Inr (reject CONSECUTIVE_LOSSES), rm\<lparr>rm_disabled := True\<rparr>)
      else if realized_today rm \<le> - daily_loss_limit_amount s
        then (Inr (reject DAILY_LOSS_LIMIT), rm\<lparr>rm_disabled := True\<rparr>)
      else case fdiv (fsub (high_water_mark rm) (current_balance rm)) (high_water_mark rm) of
          Inl e \<Rightarrow> (Inl e, rm)
        | Inr dd_pct \<Rightarrow>
            if dd_pct \<ge> max_total_dd_pct s then (Inr (reject TOTAL_DRAWDOWN), rm\<lparr>rm_disabled := True\<rparr>)
            else let total_profit = fsub (current_balance rm) (starting_balance rm) in
              if total_profit > 0 \<and> realized_today rm > fmul (consistency_pct s) total_profit
              then (Inr (reject CONSISTENCY_RULE), rm\<lparr>rm_disabled := True\<rparr>)
              else evaluate_size reg rm sg spread)"

definition is_min_trading_days_met :: "risk_manager \<Rightarrow> bool" where
  "is_min_trading_days_met rm = (trading_days_counted rm \<ge> min_trading_days (rm_settings rm))"

section \<open>Updates from the execution layer\<close>

definition register_trade_open :: "risk_manager \<Rightarrow> int \<Rightarrow> risk_manager" where
  "register_trade_open rm0 now =
     (let rm = maybe_rollover rm0 now in
      rm\<lparr>trading_start_date := (if trading_start_date rm = None then Some (now_date rm now) else trading_start_date rm),
         trades_today := trades_today rm + 1\<rparr>)"

definition register_trade_close :: "risk_manager \<Rightarrow> int \<Rightarrow> trade \<Rightarrow> risk_manager" where
  "register_trade_close rm0 now t =
     (let rm = maybe_rollover rm0 now;
          pnl = pnl_or_0 t;
          balance = fadd (current_balance rm) pnl;
          realized = fadd (realized_today rm) pnl
      in rm\<lparr>current_balance := balance, realized_today := realized,
            highest_day_pnl := (if realized > highest_day_pnl rm then realized else highest_day_pnl rm),
            high_water_mark := max (high_water_mark rm) balance,
            consecutive_losses :=
              (if t_status t = CLOSED_LOSS \<or> pnl < 0 then consecutive_losses rm + 1
               else if t_status t = CLOSED_WIN \<or> pnl > 0 then 0
               else consecutive_losses rm)\<rparr>)"

definition force_disable :: "risk_manager \<Rightarrow> risk_manager" where
  "force_disable rm = rm\<lparr>rm_disabled := True\<rparr>"

text \<open>The dictionary of \<open>snapshot\<close>; its two strings for display are left out.\<close>

record risk_snapshot =
  sn_date :: int
  sn_balance :: pyfloat
  sn_high_water_mark :: pyfloat
  sn_trades_today :: int
  sn_realized_today :: pyfloat
  sn_consecutive_losses :: int
  sn_disabled :: bool
  sn_drawdown_pct :: pyfloat
  sn_trading_days_counted :: int
  sn_min_trading_days :: int
  sn_trading_days_met :: bool
  sn_trading_start_date :: "int option"
  sn_consistency_pct :: pyfloat
  sn_highest_day_pnl :: pyfloat

definition snapshot :: "risk_manager \<Rightarrow> int \<Rightarrow> risk_snapshot \<times> risk_manager" where
  "snapshot rm0 now =
     (let rm = maybe_rollover rm0 now in
      (\<lparr>sn_date = rm_today rm, sn_balance = current_balance rm, sn_high_water_mark = high_water_mark rm,
        sn_trades_today = trades_today rm, sn_realized_today = realized_today rm,
        sn_consecutive_losses = consecutive_losses rm, sn_disabled = rm_disabled rm,
        sn_drawdown_pct = (if high_water_mark rm \<noteq> 0
          then fquot (fsub (high_water_mark rm) (current_balance rm)) (high_water_mark rm) else 0),
        sn_trading_days_counted = trading_days_counted rm,
        sn_min_trading_days = min_trading_days (rm_settings rm),
        sn_trading_days_met = (trading_days_counted rm \<ge> min_trading_days (rm_settings rm)),
        sn_trading_start_date = trading_start_date rm, sn_consistency_pct = consistency_pct (rm_settings rm),
        sn_highest_day_pnl = fround 2 (highest_day_pnl rm)\<rparr>, rm))"

section \<open>The day counters\<close>

lemma maybe_rollover_fields [simp]:
  "rm_settings (maybe_rollover rm now) = rm_settings rm"
  "starting_balance (maybe_rollover rm now) = starting_balance rm"
  "current_balance (maybe_rollover rm now) = current_balance rm"
  "high_water_mark (maybe_rollover rm now) = high_water_mark rm"
  "trading_start_date (maybe_rollover rm now) = trading_start_date rm"
  "simulated_now (maybe_rollover rm now) = simulated_now rm"
  by (simp_all add: maybe_rollover_def Let_def)

lemma now_date_rollover [simp]: "now_date (maybe_rollover rm now) t = now_date rm t"
  by (simp add: now_date_def)

lemma rm_today_rollover [simp]: "rm_today (maybe_rollover rm now) = now_date rm now"
  by (simp add: maybe_rollover_def Let_def)

lemma rollover_same_day: "now_date rm now = rm_today rm \<Longrightarrow> maybe_rollover rm now = rm"
  by (simp add: maybe_rollover_def Let_def)

lemma rollover_idem [simp]: "maybe_rollover (maybe_rollover rm now) now = maybe_rollover rm now"
  by (rule rollover_same_day) simp

text \<open>Everything a call of \<open>evaluate\<close> can change after the rollover is the halt flag.\<close>

lemma evaluate_size_state [simp]: "snd (evaluate_size reg rm sg spread) = rm"
  by (auto simp: evaluate_size_def Let_def split: sum.split bool.split)

lemma evaluate_risk_state:
  "snd (evaluate_risk reg rm now sg spread) \<in> {maybe_rollover rm now, (maybe_rollover rm now)\<lparr>rm_disabled := True\<rparr>}"
  by (simp add: evaluate_risk_def Let_def split: sum.split)

section \<open>Acceptance\<close>

text \<open>The guards an accepted signal has passed, on the manager after the rollover.\<close>

definition may_trade :: "risk_manager \<Rightarrow> bool" where
  "may_trade rm \<longleftrightarrow> \<not> rm_disabled rm \<and> trades_today rm < max_trades_per_day (rm_settings rm)
     \<and> consecutive_losses rm < max_consecutive_losses (rm_settings rm)
     \<and> - daily_loss_limit_amount (rm_settings rm) < realized_today rm
     \<and> high_water_mark rm \<noteq> 0
     \<and> fquot (fsub (high_water_mark rm) (current_balance rm)) (high_water_mark rm) < max_total_dd_pct (rm_settings rm)
     \<and> (let profit = fsub (current_balance rm) (starting_balance rm)
        in 0 < profit \<longrightarrow> realized_today rm \<le> fmul (consistency_pct (rm_settings rm)) profit)"

definition signal_fits :: "registry \<Rightarrow> risk_manager \<Rightarrow> signal \<Rightarrow> pyfloat option \<Rightarrow> pyfloat \<Rightarrow> bool" where
  "signal_fits reg rm sg spread lots \<longleftrightarrow>
     (case spread of None \<Rightarrow> True | Some p \<Rightarrow> is_spread_acceptable reg rm (sg_symbol sg) p = Inr True)
     \<and> 0 < risk_distance sg \<and> size_position reg rm sg = Inr lots \<and> 0 < lots"

lemma evaluate_size_accepted:
  "fst (evaluate_size reg rm sg spread) = Inr d \<Longrightarrow>
     rd_accepted d \<longleftrightarrow> signal_fits reg rm sg spread (rd_quantity d) \<and> rd_reason d = R_OK
       \<and> rd_risk_amount d = fmul (current_balance rm) (risk_per_trade_pct (rm_settings rm))"
  by (auto simp: evaluate_size_def signal_fits_def reject_def Let_def not_le split: option.splits sum.splits if_splits bool.splits)

lemma evaluate_size_may_accept:
  "signal_fits reg rm sg spread lots \<Longrightarrow> evaluate_size reg rm sg spread =
     (Inr \<lparr>rd_accepted = True, rd_quantity = lots,
       rd_risk_amount = fmul (current_balance rm) (risk_per_trade_pct (rm_settings rm)), rd_reason = R_OK\<rparr>, rm)"
  by (auto simp: evaluate_size_def signal_fits_def Let_def split: option.splits)

lemma evaluate_risk_may_trade:
  "may_trade (maybe_rollover rm now) \<Longrightarrow>
     evaluate_risk reg rm now sg spread = evaluate_size reg (maybe_rollover rm now) sg spread"
  by (auto simp: evaluate_risk_def may_trade_def Let_def not_le)

lemma evaluate_risk_blocked:
  "\<not> may_trade (maybe_rollover rm now) \<Longrightarrow> fst (evaluate_risk reg rm now sg spread) = Inr d \<Longrightarrow> \<not> rd_accepted d"
  by (cases "high_water_mark rm = 0")
     (auto simp: evaluate_risk_def may_trade_def reject_def Let_def not_le not_less split: if_splits)

lemma evaluate_risk_accepts_iff:
  "(\<exists>d. fst (evaluate_risk reg rm now sg spread) = Inr d \<and> rd_accepted d \<and> rd_quantity d = lots) \<longleftrightarrow>
     may_trade (maybe_rollover rm now) \<and> signal_fits reg (maybe_rollover rm now) sg spread lots"
proof (cases "may_trade (maybe_rollover rm now)")
  case True
  show ?thesis
    unfolding evaluate_risk_may_trade [OF True]
    using True evaluate_size_accepted [of reg "maybe_rollover rm now" sg spread]
      evaluate_size_may_accept [of reg "maybe_rollover rm now" sg spread lots] by auto
next
  case False
  then show ?thesis using evaluate_risk_blocked [of rm now reg sg spread] by auto
qed

text \<open>The exceptions of \<open>evaluate\<close>.\<close>

lemma size_position_total:
  "get_instrument_in reg (sg_symbol sg) = Inr i \<Longrightarrow> pip_size i \<noteq> 0 \<Longrightarrow> \<exists>x. size_position reg rm sg = Inr x"
  by (simp add: size_position_def inst_pips_def Let_def)

lemma evaluate_risk_total:
  assumes "high_water_mark rm \<noteq> 0" and "get_instrument_in reg (sg_symbol sg) = Inr i" and "pip_size i \<noteq> 0"
  shows "\<exists>d. fst (evaluate_risk reg rm now sg spread) = Inr d"
proof -
  obtain x where x: "size_position reg (maybe_rollover rm now) sg = Inr x"
    using size_position_total [OF assms(2,3)] by blast
  have "\<exists>d. fst (evaluate_size reg (maybe_rollover rm now) sg spread) = Inr d"
    using assms(2) by (auto simp: evaluate_size_def is_spread_acceptable_def x Let_def split: option.splits bool.splits)
  with assms(1) show ?thesis by (auto simp: evaluate_risk_def Let_def)
qed

section \<open>Position size\<close>

lemma rnd_le: "0 \<le> x \<Longrightarrow> rnd x \<le> x * (1 + 1 / 2 ^ 53) + 2 powi (- 1075)"
  using rnd_error [of x] by (simp add: algebra_simps)

text \<open>
  The lots are computed with three roundings and a floor; their loss at the stop can exceed the
  intended risk only by these roundings.
\<close>

lemma size_position_bound:
  assumes "size_position reg rm sg = Inr lots" and "get_instrument_in reg (sg_symbol sg) = Inr i"
    and "0 \<le> current_balance rm" and "0 \<le> risk_per_trade_pct (rm_settings rm)" and "0 < lots"
  defines "risk \<equiv> fmul (current_balance rm) (risk_per_trade_pct (rm_settings rm))"
    and "loss \<equiv> fmul (fquot (risk_distance sg) (pip_size i)) (quote_per_pip_per_lot i)"
  shows "0 < loss" and "lots * loss \<le> risk * (1 + 1 / 2 ^ 51) + 4 * loss * 2 powi (- 1075)"
proof -
  let ?u = "1 + 1 / 2 ^ 53 :: rat" and ?e = "2 powi (- 1075) :: rat"
  have e: "0 < ?e" by simp
  have pip: "pip_size i \<noteq> 0"
    using assms(1,2) by (auto simp: size_position_def inst_pips_def fdiv_def bind_res_eq_Inr split: if_splits)
  have lots: "0 < loss \<and> lots = fquot (of_int \<lfloor>fmul (fquot risk loss) 100\<rfloor>) 100"
    using assms(1,2,5) pip unfolding risk_def loss_def
    by (auto simp: size_position_def inst_pips_def Let_def not_le split: if_splits)
  then show loss: "0 < loss" ..
  have risk: "0 \<le> risk" using assms(3,4) by (simp add: risk_def fmul_nonneg)
  let ?q = "risk / loss" and ?raw = "fquot risk loss"
  have q: "0 \<le> ?q" using risk loss by simp
  have raw: "?raw \<le> ?q * ?u + ?e" and raw0: "0 \<le> ?raw"
    using rnd_le [OF q] rnd_nonneg [OF q] by (simp_all add: fquot_def)
  let ?n = "of_int \<lfloor>fmul ?raw 100\<rfloor> :: rat"
  have "?n \<le> fmul ?raw 100" by (rule of_int_floor_le)
  also have "\<dots> \<le> ?raw * 100 * ?u + ?e" using rnd_le [of "?raw * 100"] raw0 by (simp add: fmul_def)
  finally have n: "?n / 100 \<le> ?raw * ?u + ?e" using e by simp
  have n0: "0 \<le> ?n / 100" using raw0 by (simp add: fmul_nonneg)
  have "lots \<le> ?n / 100 * ?u + ?e" using lots rnd_le [OF n0] by (simp add: fquot_def)
  also have "\<dots> \<le> (?raw * ?u + ?e) * ?u + ?e" using n by (intro add_right_mono mult_right_mono) simp_all
  also have "\<dots> \<le> ((?q * ?u + ?e) * ?u + ?e) * ?u + ?e"
    using raw by (intro add_right_mono mult_right_mono) simp_all
  also have "\<dots> = ?q * (?u * ?u * ?u) + ?e * (?u * ?u + ?u + 1)" by (simp add: algebra_simps)
  also have "\<dots> \<le> ?q * (1 + 1 / 2 ^ 51) + ?e * 4"
    using q e by (intro add_mono mult_left_mono) (simp_all add: field_simps)
  finally have "lots \<le> ?q * (1 + 1 / 2 ^ 51) + ?e * 4" .
  then have "lots * loss \<le> (?q * (1 + 1 / 2 ^ 51) + ?e * 4) * loss" using loss by (intro mult_right_mono) simp_all
  also have "\<dots> = risk * (1 + 1 / 2 ^ 51) + 4 * loss * ?e" using loss by (simp add: field_simps)
  finally show "lots * loss \<le> risk * (1 + 1 / 2 ^ 51) + 4 * loss * ?e" .
qed

section \<open>Histories of calls\<close>

datatype risk_op = OpEvaluate signal "pyfloat option" int | OpOpen int | OpClose trade int | OpDisable
  | OpTime py_datetime | OpSnapshot int

fun risk_step :: "registry \<Rightarrow> risk_manager \<Rightarrow> risk_op \<Rightarrow> risk_manager" where
  "risk_step reg rm (OpEvaluate sg spread now) = snd (evaluate_risk reg rm now sg spread)"
| "risk_step reg rm (OpOpen now) = register_trade_open rm now"
| "risk_step reg rm (OpClose t now) = register_trade_close rm now t"
| "risk_step reg rm OpDisable = force_disable rm"
| "risk_step reg rm (OpTime t) = set_simulated_time rm t"
| "risk_step reg rm (OpSnapshot now) = snd (snapshot rm now)"

definition risk_run :: "registry \<Rightarrow> risk_manager \<Rightarrow> risk_op list \<Rightarrow> risk_manager" where
  "risk_run reg rm ops = foldl (risk_step reg) rm ops"

fun pnls :: "risk_op list \<Rightarrow> pyfloat list" where
  "pnls [] = []"
| "pnls (OpClose t now # ops) = pnl_or_0 t # pnls ops"
| "pnls (op # ops) = pnls ops"

definition rm_inv :: "risk_manager \<Rightarrow> bool" where
  "rm_inv rm \<longleftrightarrow> 0 \<le> trades_today rm \<and> 0 \<le> consecutive_losses rm \<and> 0 \<le> trading_days_counted rm
     \<and> 0 \<le> highest_day_pnl rm \<and> realized_today rm \<le> highest_day_pnl rm \<and> current_balance rm \<le> high_water_mark rm"

lemma rm_inv_new: "0 < start \<Longrightarrow> rm_inv (new_risk_manager s start 0 0 now)"
  by (simp add: rm_inv_def new_risk_manager_def)

lemma rm_inv_rollover: "rm_inv rm \<Longrightarrow> rm_inv (maybe_rollover rm now)"
  by (simp add: rm_inv_def maybe_rollover_def Let_def)

lemma rm_inv_open: "rm_inv rm \<Longrightarrow> rm_inv (register_trade_open rm now)"
  using rm_inv_rollover [of rm now] by (simp add: rm_inv_def register_trade_open_def Let_def)

lemma rm_inv_close: "rm_inv rm \<Longrightarrow> rm_inv (register_trade_close rm now t)"
  using rm_inv_rollover [of rm now] by (simp add: rm_inv_def register_trade_close_def Let_def)

lemma rm_inv_evaluate: "rm_inv rm \<Longrightarrow> rm_inv (snd (evaluate_risk reg rm now sg spread))"
  using rm_inv_rollover [of rm now] evaluate_risk_state [of reg rm now sg spread] by (auto simp: rm_inv_def)

lemma rm_inv_step: "rm_inv rm \<Longrightarrow> rm_inv (risk_step reg rm op)"
  by (cases op) (simp_all add: rm_inv_evaluate rm_inv_open rm_inv_close rm_inv_rollover snapshot_def Let_def,
      simp_all add: rm_inv_def force_disable_def set_simulated_time_def)

lemma rm_inv_run: "rm_inv rm \<Longrightarrow> rm_inv (risk_run reg rm ops)"
  unfolding risk_run_def by (induction ops arbitrary: rm) (simp_all add: rm_inv_step)

lemma evaluate_risk_fields [simp]:
  "current_balance (snd (evaluate_risk reg rm now sg spread)) = current_balance rm"
  "starting_balance (snd (evaluate_risk reg rm now sg spread)) = starting_balance rm"
  "rm_settings (snd (evaluate_risk reg rm now sg spread)) = rm_settings rm"
  "high_water_mark (snd (evaluate_risk reg rm now sg spread)) = high_water_mark rm"
  "simulated_now (snd (evaluate_risk reg rm now sg spread)) = simulated_now rm"
  "trades_today (snd (evaluate_risk reg rm now sg spread)) = trades_today (maybe_rollover rm now)"
  using evaluate_risk_state [of reg rm now sg spread] by auto

lemmas risk_op_defs = register_trade_open_def register_trade_close_def force_disable_def set_simulated_time_def
  snapshot_def Let_def

lemma risk_step_balance:
  "current_balance (risk_step reg rm op) = foldl fadd (current_balance rm) (pnls [op])"
  "starting_balance (risk_step reg rm op) = starting_balance rm"
  "rm_settings (risk_step reg rm op) = rm_settings rm"
  "high_water_mark rm \<le> high_water_mark (risk_step reg rm op)"
  by (cases op; simp add: risk_op_defs)+

lemma pnls_Cons: "pnls (op # ops) = pnls [op] @ pnls ops"
  by (cases op) simp_all

lemma risk_run_ledger:
  fixes rm :: risk_manager
  shows "current_balance (risk_run reg rm ops) = foldl fadd (current_balance rm) (pnls ops)
    \<and> starting_balance (risk_run reg rm ops) = starting_balance rm
    \<and> rm_settings (risk_run reg rm ops) = rm_settings rm
    \<and> high_water_mark rm \<le> high_water_mark (risk_run reg rm ops)"
  unfolding risk_run_def
proof (induction ops arbitrary: rm)
  case (Cons op ops)
  show ?case
    using Cons.IH [of "risk_step reg rm op"] risk_step_balance [where reg = reg and rm = rm and op = op]
    by (simp add: pnls_Cons [of op ops] del: pnls.simps)
qed simp

section \<open>The halt flag within a day\<close>

text \<open>A call that does not leave day \<open>d\<close>.\<close>

fun on_day :: "int \<Rightarrow> risk_op \<Rightarrow> bool" where
  "on_day d (OpEvaluate sg spread now) \<longleftrightarrow> now = d"
| "on_day d (OpOpen now) \<longleftrightarrow> now = d"
| "on_day d (OpClose t now) \<longleftrightarrow> now = d"
| "on_day d OpDisable \<longleftrightarrow> True"
| "on_day d (OpTime t) \<longleftrightarrow> dt_date t = d"
| "on_day d (OpSnapshot now) \<longleftrightarrow> now = d"

definition at_day :: "int \<Rightarrow> risk_manager \<Rightarrow> bool" where
  "at_day d rm \<longleftrightarrow> rm_today rm = d \<and> simulated_now rm \<in> {None, Some d}"

lemma at_day_rollover: "at_day d rm \<Longrightarrow> maybe_rollover rm d = rm"
  by (rule rollover_same_day) (auto simp: at_day_def now_date_def)

lemma halted_rejects: "at_day d rm \<Longrightarrow> rm_disabled rm \<Longrightarrow> evaluate_risk reg rm d sg spread = (Inr (reject DISABLED), rm)"
  by (simp add: evaluate_risk_def at_day_rollover)

lemma halted_step:
  assumes "at_day d rm" and "rm_disabled rm" and "on_day d op"
  shows "at_day d (risk_step reg rm op) \<and> rm_disabled (risk_step reg rm op)"
  using assms at_day_rollover [OF assms(1)]
  by (cases op) (auto simp: halted_rejects risk_op_defs, auto simp: at_day_def)

lemma halted_run:
  "at_day d rm \<Longrightarrow> rm_disabled rm \<Longrightarrow> list_all (on_day d) ops \<Longrightarrow>
     at_day d (risk_run reg rm ops) \<and> rm_disabled (risk_run reg rm ops)"
  unfolding risk_run_def by (induction ops arbitrary: rm) (simp_all add: halted_step)

text \<open>Losing trades in a row.\<close>

lemma losing_closes:
  "at_day d rm \<Longrightarrow> list_all (\<lambda>t. pnl_or_0 t < 0) ts \<Longrightarrow>
     consecutive_losses (risk_run reg rm (map (\<lambda>t. OpClose t d) ts)) = consecutive_losses rm + int (length ts)
     \<and> at_day d (risk_run reg rm (map (\<lambda>t. OpClose t d) ts))"
  unfolding risk_run_def
proof (induction ts arbitrary: rm)
  case (Cons t ts)
  have "at_day d (register_trade_close rm d t)"
    "consecutive_losses (register_trade_close rm d t) = consecutive_losses rm + 1"
    using Cons.prems at_day_rollover [of d rm] by (auto simp: register_trade_close_def at_day_def Let_def)
  then show ?case using Cons by simp
qed simp

section \<open>The daily cap\<close>

text \<open>
  The interface of a gate that counts openings against a cap.  A client that opens only right after
  the gate said yes, and calls other operations in between, keeps the count within the cap.
\<close>

datatype ('q, 'o) gate_op = Submit 'q | Other 'o

locale trade_gate =
  fixes check :: "'s \<Rightarrow> 'q \<Rightarrow> bool \<times> 's"
    and opened :: "'s \<Rightarrow> 'q \<Rightarrow> 's"
    and other :: "'s \<Rightarrow> 'o \<Rightarrow> 's"
    and count :: "'s \<Rightarrow> int"
    and cap :: "'s \<Rightarrow> int"
  assumes caps: "cap (snd (check s q)) = cap s" "cap (opened s q) = cap s" "cap (other s r) = cap s"
    and counts_nonneg: "0 \<le> count s \<Longrightarrow> 0 \<le> count (snd (check s q)) \<and> 0 \<le> count (opened s q) \<and> 0 \<le> count (other s r)"
    and counts_le: "0 \<le> count s \<Longrightarrow> count (snd (check s q)) \<le> count s \<and> count (other s r) \<le> count s"
    and check_room: "fst (check s q) \<Longrightarrow> count (snd (check s q)) < cap s"
    and opened_count: "0 \<le> count s \<Longrightarrow> count (opened s q) \<le> count s + 1"
begin

definition submit :: "'s \<Rightarrow> 'q \<Rightarrow> 's" where
  "submit s q = (if fst (check s q) then opened (snd (check s q)) q else snd (check s q))"

definition gate_step :: "'s \<Rightarrow> ('q, 'o) gate_op \<Rightarrow> 's" where
  "gate_step s op = (case op of Submit q \<Rightarrow> submit s q | Other r \<Rightarrow> other s r)"

lemma gate_step_bounded:
  assumes "0 \<le> count s" and "count s \<le> cap s"
  shows "0 \<le> count (gate_step s op) \<and> count (gate_step s op) \<le> cap (gate_step s op) \<and> cap (gate_step s op) = cap s"
proof (cases op)
  case (Submit q)
  have c: "0 \<le> count (snd (check s q))" "count (snd (check s q)) \<le> count s"
    using counts_nonneg [OF assms(1)] counts_le [OF assms(1)] by blast+
  have "fst (check s q) \<Longrightarrow> count (opened (snd (check s q)) q) \<le> cap s"
    using opened_count [OF c(1), of q] check_room [of s q] by linarith
  then show ?thesis
    using Submit assms c counts_nonneg [OF c(1)] by (auto simp: gate_step_def submit_def caps)
next
  case (Other r)
  have "count (other s r) \<le> cap s" "0 \<le> count (other s r)"
    using assms(2) counts_nonneg [OF assms(1)] counts_le [OF assms(1)] by (meson order_trans)+
  with Other show ?thesis by (simp add: gate_step_def caps)
qed

lemma gate_bounded:
  "0 \<le> count s \<Longrightarrow> count s \<le> cap s \<Longrightarrow> count (foldl gate_step s ops) \<le> cap s"
proof (induction ops arbitrary: s)
  case (Cons op ops)
  with gate_step_bounded [of s op] Cons.IH [of "gate_step s op"] show ?case by simp
qed simp

end

text \<open>The manager as a gate: a submission carries the signal, the spread and the two clock readings.\<close>

type_synonym risk_query = "signal \<times> pyfloat option \<times> int \<times> int"

definition gate_check :: "registry \<Rightarrow> risk_manager \<Rightarrow> risk_query \<Rightarrow> bool \<times> risk_manager" where
  "gate_check reg rm q = (case q of (sg, spread, now, now') \<Rightarrow>
     let r = evaluate_risk reg rm now sg spread
     in (case fst r of Inl e \<Rightarrow> False | Inr d \<Rightarrow> rd_accepted d, snd r))"

definition gate_opened :: "risk_manager \<Rightarrow> risk_query \<Rightarrow> risk_manager" where
  "gate_opened rm q = (case q of (sg, spread, now, now') \<Rightarrow> register_trade_open rm now')"

text \<open>The other calls, openings excepted.\<close>

fun gate_other :: "registry \<Rightarrow> risk_manager \<Rightarrow> risk_op \<Rightarrow> risk_manager" where
  "gate_other reg rm (OpOpen now) = rm"
| "gate_other reg rm op = risk_step reg rm op"

lemma gate_check_accepts:
  "fst (gate_check reg rm (sg, spread, now, now')) \<Longrightarrow> may_trade (maybe_rollover rm now)"
  using evaluate_risk_accepts_iff [of reg rm now sg spread]
  by (auto simp: gate_check_def Let_def split: sum.splits)

lemma rollover_count: "0 \<le> trades_today rm \<Longrightarrow> 0 \<le> trades_today (maybe_rollover rm now) \<and> trades_today (maybe_rollover rm now) \<le> trades_today rm"
  by (simp add: maybe_rollover_def Let_def)

lemma gate_other_fields:
  "rm_settings (gate_other reg rm op) = rm_settings rm"
  "0 \<le> trades_today rm \<Longrightarrow> 0 \<le> trades_today (gate_other reg rm op) \<and> trades_today (gate_other reg rm op) \<le> trades_today rm"
  using rollover_count by (cases op; simp add: risk_op_defs)+

interpretation risk_gate: trade_gate "gate_check reg" gate_opened "gate_other reg" trades_today
  "\<lambda>rm. max_trades_per_day (rm_settings rm)" for reg
proof
  fix s :: risk_manager and q :: risk_query and r :: risk_op
  obtain sg spread now now' where q: "q = (sg, spread, now, now')" by (cases q)
  show "max_trades_per_day (rm_settings (snd (gate_check reg s q))) = max_trades_per_day (rm_settings s)"
    "max_trades_per_day (rm_settings (gate_opened s q)) = max_trades_per_day (rm_settings s)"
    "max_trades_per_day (rm_settings (gate_other reg s r)) = max_trades_per_day (rm_settings s)"
    by (simp_all add: q gate_check_def gate_opened_def register_trade_open_def gate_other_fields Let_def)
  show "fst (gate_check reg s q) \<Longrightarrow> trades_today (snd (gate_check reg s q)) < max_trades_per_day (rm_settings s)"
    using gate_check_accepts [of reg s sg spread now now'] by (simp add: q may_trade_def gate_check_def Let_def)
  assume nonneg: "0 \<le> trades_today s"
  show "0 \<le> trades_today (snd (gate_check reg s q)) \<and> 0 \<le> trades_today (gate_opened s q) \<and> 0 \<le> trades_today (gate_other reg s r)"
    using rollover_count [OF nonneg, of now] rollover_count [OF nonneg, of now'] gate_other_fields(2) [OF nonneg, of reg r]
    by (simp add: q gate_check_def gate_opened_def register_trade_open_def Let_def)
  show "trades_today (snd (gate_check reg s q)) \<le> trades_today s \<and> trades_today (gate_other reg s r) \<le> trades_today s"
    using rollover_count [OF nonneg, of now] gate_other_fields(2) [OF nonneg, of reg r]
    by (simp add: q gate_check_def Let_def)
  show "trades_today (gate_opened s q) \<le> trades_today s + 1"
    using rollover_count [OF nonneg, of now'] by (simp add: q gate_opened_def register_trade_open_def Let_def)
qed

definition submit_all :: "registry \<Rightarrow> risk_manager \<Rightarrow> (risk_query, risk_op) gate_op list \<Rightarrow> risk_manager" where
  "submit_all reg = foldl (\<lambda>rm op. case op of
      Submit q \<Rightarrow> (if fst (gate_check reg rm q) then gate_opened (snd (gate_check reg rm q)) q else snd (gate_check reg rm q))
    | Other r \<Rightarrow> gate_other reg rm r)"

lemma submit_all_gate: "submit_all reg = foldl (risk_gate.gate_step reg)"
  unfolding submit_all_def
  by (rule arg_cong [of _ _ foldl]) (intro ext, simp add: risk_gate.gate_step_def risk_gate.submit_def split: gate_op.split)

section \<open>A manager and a signal for the witnesses\<close>

definition demo_risk :: risk_manager where
  "demo_risk = new_risk_manager default_settings 100000 0 0 19000"

definition demo_btc_signal :: signal where
  "demo_btc_signal = \<lparr>sg_symbol = ''BTCUSD'', sg_timeframe = ''M1'', sg_direction = LONG, sg_entry = 108, sg_sl = 97,
     sg_tp = 122, sg_reason = [], sg_session = ''LONDON'', sg_tags = [], sg_generated_at = utc 0, sg_confidence = 0\<rparr>"

lemma demo_risk_distance: "risk_distance demo_btc_signal = 11"
  by (simp add: risk_distance_def demo_btc_signal_def fl_eval)

lemma demo_signal_fields [simp]: "sg_symbol demo_btc_signal = ''BTCUSD''" "sg_direction demo_btc_signal = LONG"
  by (simp_all add: demo_btc_signal_def)

lemma demo_risk_fields [simp]:
  "current_balance demo_risk = 100000" "high_water_mark demo_risk = 100000" "starting_balance demo_risk = 100000"
  "rm_settings demo_risk = default_settings" "trades_today demo_risk = 0" "consecutive_losses demo_risk = 0"
  "realized_today demo_risk = 0" "\<not> rm_disabled demo_risk" "rm_today demo_risk = 19000" "simulated_now demo_risk = None"
  by (simp_all add: demo_risk_def new_risk_manager_def)

lemma default_settings_fields [simp]:
  "risk_per_trade_pct default_settings = rnd (1 / 100)" "max_trades_per_day default_settings = 5"
  "max_consecutive_losses default_settings = 3" "max_total_dd_pct default_settings = rnd (5 / 100)"
  "max_daily_loss_pct default_settings = rnd (3 / 100)" "account_balance default_settings = 100000"
  by (simp_all add: default_settings_def)

lemma floor_frac [fl_eval]: "\<lfloor>numeral a / numeral b :: rat\<rfloor> = (numeral a div numeral b :: int)"
  using floor_divide_of_int_eq [of "numeral a :: int" "numeral b :: int", where 'a = rat] by simp

lemma demo_size: "size_position default_registry demo_risk demo_btc_signal = Inr (rnd (909 / 10))"
  by (simp add: size_position_def demo_risk_distance get_instrument_btcusd inst_pips_def fl_eval)

lemma demo_may_trade: "may_trade (maybe_rollover demo_risk 19000)"
proof -
  have "maybe_rollover demo_risk 19000 = demo_risk" by (rule rollover_same_day) (simp add: now_date_def)
  then show ?thesis by (simp add: may_trade_def daily_loss_limit_amount_def Let_def fl_eval)
qed

lemma demo_fits: "signal_fits default_registry (maybe_rollover demo_risk 19000) demo_btc_signal None (rnd (909 / 10))"
proof -
  have "maybe_rollover demo_risk 19000 = demo_risk" by (rule rollover_same_day) (simp add: now_date_def)
  then show ?thesis by (simp add: signal_fits_def demo_size demo_risk_distance) (simp add: fl_eval)
qed

definition demo_loss :: trade where
  "demo_loss = \<lparr>trade_id = ''t'', t_symbol = ''BTCUSD'', t_direction = LONG, t_entry_time = utc 0, t_entry_price = 108,
     t_stop_loss = 97, t_take_profit = 122, t_quantity = 1, t_exit_time = Some (utc 60000000), t_exit_price = Some 97,
     t_pnl = Some (- 11), t_pnl_pct = None, t_status = CLOSED_LOSS, t_session = ''LONDON'', t_entry_reason = [],
     t_exit_reason = None, t_structure_tags = [], t_spread_pips = None, t_slippage_pips = None, t_latency_ms = None,
     t_rr_ratio = None, t_screenshot_path = None\<rparr>"

section \<open>Properties\<close>

text \<open>
  C8. When a signal is accepted, exactly: \<open>evaluate\<close> accepts with \<open>lots\<close> if and only if, after the day
  rollover, the manager is not halted and below every limit, and the signal passes the spread filter,
  has a positive stop distance and is sized to \<open>lots > 0\<close>.
\<close>

theorem risk_accepts_iff:
  "(\<exists>d. fst (evaluate_risk reg rm now sg spread) = Inr d \<and> rd_accepted d \<and> rd_quantity d = lots) \<longleftrightarrow>
     may_trade (maybe_rollover rm now) \<and> signal_fits reg (maybe_rollover rm now) sg spread lots"
  by (rule evaluate_risk_accepts_iff)

text \<open>
  C20. The risk of an accepted position: the loss of the accepted lots at the stop exceeds the
  configured fraction of the balance by no more than the roundings of the computation (a relative
  \<open>2\<^sup>-\<^sup>5\<^sup>1\<close> and a term at the underflow threshold).
\<close>

theorem risk_size_bound:
  assumes "fst (evaluate_risk reg rm now sg spread) = Inr d" and "rd_accepted d"
    and "get_instrument_in reg (sg_symbol sg) = Inr i"
    and "0 \<le> current_balance rm" and "0 \<le> risk_per_trade_pct (rm_settings rm)"
  shows "(let loss = fmul (fquot (risk_distance sg) (pip_size i)) (quote_per_pip_per_lot i) in
      0 < loss \<and> 0 < rd_quantity d
      \<and> rd_quantity d * loss \<le> rd_risk_amount d * (1 + 1 / 2 ^ 51) + 4 * loss * 2 powi (- 1075))"
proof -
  let ?rm = "maybe_rollover rm now"
  have fits: "signal_fits reg ?rm sg spread (rd_quantity d)" "may_trade ?rm"
    using assms(1,2) evaluate_risk_accepts_iff [of reg rm now sg spread "rd_quantity d"] by auto
  have amount: "rd_risk_amount d = fmul (current_balance ?rm) (risk_per_trade_pct (rm_settings ?rm))"
    using assms(1,2) evaluate_size_accepted [of reg ?rm sg spread d] evaluate_risk_may_trade [OF fits(2)] by simp
  have size: "size_position reg ?rm sg = Inr (rd_quantity d)" "0 < rd_quantity d"
    using fits(1) by (auto simp: signal_fits_def)
  show ?thesis
    using size_position_bound [OF size(1) assms(3) _ _ size(2)] assms(4,5) size(2) by (simp add: amount Let_def)
qed

lemma risk_size_bound_witness:
  "\<exists>d. fst (evaluate_risk default_registry demo_risk 19000 demo_btc_signal None) = Inr d \<and>
     (let loss = fmul (fquot (risk_distance demo_btc_signal) 1) 1 in
      0 < loss \<and> 0 < rd_quantity d
      \<and> rd_quantity d * loss \<le> rd_risk_amount d * (1 + 1 / 2 ^ 51) + 4 * loss * 2 powi (- 1075))"
proof -
  obtain d where d: "fst (evaluate_risk default_registry demo_risk 19000 demo_btc_signal None) = Inr d" "rd_accepted d"
    using demo_may_trade demo_fits evaluate_risk_accepts_iff by blast
  let ?i = "\<lparr>i_symbol = ''BTCUSD'', pip_size = 1, contract_size = 1, quote_per_pip_per_lot = 1, is_metal = False\<rparr>"
  have "(let loss = fmul (fquot (risk_distance demo_btc_signal) (pip_size ?i)) (quote_per_pip_per_lot ?i) in
      0 < loss \<and> 0 < rd_quantity d
      \<and> rd_quantity d * loss \<le> rd_risk_amount d * (1 + 1 / 2 ^ 51) + 4 * loss * 2 powi (- 1075))"
    by (rule risk_size_bound [OF d]) (simp_all add: get_instrument_btcusd rnd_nonneg)
  with d(1) show ?thesis by (intro exI [of _ d]) simp
qed

text \<open>
  C11. The daily cap: if a trade is only opened right after an accepting evaluation, then whatever
  other calls (evaluations, closes, halts, clock changes, snapshots) happen in between and however the
  days change, the trades of the day never exceed \<open>max_trades_per_day\<close>.
\<close>

theorem risk_daily_cap:
  assumes "0 \<le> trades_today rm" and "trades_today rm \<le> max_trades_per_day (rm_settings rm)"
  shows "trades_today (submit_all reg rm ops) \<le> max_trades_per_day (rm_settings rm)"
proof -
  have "max_trades_per_day (rm_settings (foldl (risk_gate.gate_step reg) rm ops)) = max_trades_per_day (rm_settings rm)"
    using assms by (induction ops arbitrary: rm)
      (simp_all, metis risk_gate.gate_step_bounded)
  then show ?thesis
    unfolding submit_all_gate using risk_gate.gate_bounded [OF assms, of reg ops] by simp
qed

lemma risk_daily_cap_witness:
  "trades_today (submit_all default_registry demo_risk
     [Submit (demo_btc_signal, None, 19000, 19000), Other (OpSnapshot 19001)]) \<le> 5"
  using risk_daily_cap [of demo_risk default_registry] by simp

text \<open>
  The ledger: after any history of calls on a fresh manager with a positive balance, the balance is
  the starting balance plus the realised profits in their order, the high-water mark is at least the
  balance and the start, and the counters satisfy their invariant.
\<close>

theorem risk_ledger:
  assumes "0 < start"
  shows "(let rm = risk_run reg (new_risk_manager s start 0 0 now) ops in
      current_balance rm = foldl fadd start (pnls ops) \<and> current_balance rm \<le> high_water_mark rm
      \<and> start \<le> high_water_mark rm \<and> rm_settings rm = s \<and> rm_inv rm)"
proof -
  let ?r0 = "new_risk_manager s start 0 0 now"
  have r0: "current_balance ?r0 = start" "high_water_mark ?r0 = start" "rm_settings ?r0 = s"
    by (simp_all add: new_risk_manager_def)
  have inv: "rm_inv (risk_run reg ?r0 ops)" by (rule rm_inv_run [OF rm_inv_new [OF assms]])
  then have "current_balance (risk_run reg ?r0 ops) \<le> high_water_mark (risk_run reg ?r0 ops)"
    unfolding rm_inv_def by blast
  with inv risk_run_ledger [of reg ?r0 ops] show ?thesis by (simp add: Let_def r0)
qed

lemma risk_ledger_witness:
  "(let rm = risk_run default_registry (new_risk_manager default_settings 100000 0 0 19000) [OpOpen 19000, OpDisable] in
      current_balance rm = foldl fadd 100000 (pnls [OpOpen 19000, OpDisable]) \<and> current_balance rm \<le> high_water_mark rm
      \<and> 100000 \<le> high_water_mark rm \<and> rm_settings rm = default_settings \<and> rm_inv rm)"
  by (rule risk_ledger) simp

text \<open>
  The kill switch: once the manager is halted, by a limit or by \<open>force_disable\<close>, every signal is
  rejected as \<open>DISABLED\<close> for the rest of the day, whatever calls happen on that day.
\<close>

theorem risk_halt_sticks:
  assumes "at_day d rm" and "list_all (on_day d) ops"
  shows "fst (evaluate_risk reg (risk_run reg (force_disable rm) ops) d sg spread) = Inr (reject DISABLED)"
proof -
  have "at_day d (force_disable rm)" "rm_disabled (force_disable rm)"
    using assms(1) by (simp_all add: force_disable_def at_day_def)
  then have "at_day d (risk_run reg (force_disable rm) ops) \<and> rm_disabled (risk_run reg (force_disable rm) ops)"
    using assms(2) by (rule halted_run)
  then show ?thesis by (simp add: halted_rejects)
qed

lemma risk_halt_sticks_witness:
  "fst (evaluate_risk default_registry (risk_run default_registry (force_disable demo_risk)
      [OpOpen 19000, OpSnapshot 19000]) 19000 demo_btc_signal None) = Inr (reject DISABLED)"
  by (rule risk_halt_sticks) (simp_all add: at_day_def)

text \<open>
  The circuit breaker: after as many losing trades in a row on a day as the settings allow, no
  signal is accepted on that day.
\<close>

theorem risk_loss_streak_blocks:
  assumes "at_day d rm" and "0 \<le> consecutive_losses rm" and "list_all (\<lambda>t. pnl_or_0 t < 0) ts"
    and "max_consecutive_losses (rm_settings rm) \<le> int (length ts)"
  shows "(case fst (evaluate_risk reg (risk_run reg rm (map (\<lambda>t. OpClose t d) ts)) d sg spread) of
      Inl e \<Rightarrow> True | Inr dec \<Rightarrow> rd_accepted dec = False)"
proof -
  let ?rm = "risk_run reg rm (map (\<lambda>t. OpClose t d) ts)"
  have "consecutive_losses ?rm = consecutive_losses rm + int (length ts)" and day: "at_day d ?rm"
    using losing_closes [OF assms(1,3)] by auto
  then have "\<not> may_trade (maybe_rollover ?rm d)"
    using assms(2,4) risk_run_ledger [of reg rm "map (\<lambda>t. OpClose t d) ts"]
    by (simp add: may_trade_def at_day_rollover)
  then show ?thesis using evaluate_risk_blocked [of ?rm d reg sg spread] by (simp split: sum.split)
qed

lemma risk_loss_streak_blocks_witness:
  "(case fst (evaluate_risk default_registry (risk_run default_registry demo_risk
        (map (\<lambda>t. OpClose t 19000) [demo_loss, demo_loss, demo_loss])) 19000 demo_btc_signal None) of
      Inl e \<Rightarrow> True | Inr dec \<Rightarrow> rd_accepted dec = False)"
  by (rule risk_loss_streak_blocks) (simp_all add: at_day_def demo_loss_def pnl_or_0_def)

text \<open>
  No exception escapes from \<open>evaluate\<close> when the high-water mark is not zero and the symbol is a
  registered instrument with a pip size: it always returns a decision.
\<close>

theorem risk_evaluate_total:
  assumes "high_water_mark rm \<noteq> 0" and "get_instrument_in reg (sg_symbol sg) = Inr i" and "pip_size i \<noteq> 0"
  shows "\<exists>d. fst (evaluate_risk reg rm now sg spread) = Inr d"
  by (rule evaluate_risk_total [OF assms])

lemma risk_evaluate_total_witness:
  "\<exists>d. fst (evaluate_risk default_registry demo_risk 19000 demo_btc_signal (Some 3)) = Inr d"
  by (rule risk_evaluate_total [OF _ get_instrument_btcusd [folded demo_signal_fields(1)]]) simp_all

section \<open>Where the code and its documentation differ\<close>

text \<open>
  The daily loss limit is a fraction of the configured account balance, not of the starting balance of
  the manager: with a starting balance of 10000 and the default settings, a loss of half of it is
  not at the limit.
\<close>

lemma daily_limit_ignores_start:
  "may_trade ((new_risk_manager (default_settings\<lparr>max_total_dd_pct := 1\<rparr>) 10000 5000 0 19000)\<lparr>realized_today := - 2900\<rparr>)"
  by (simp add: may_trade_def new_risk_manager_def daily_loss_limit_amount_def Let_def fl_eval)

text \<open>
  Two evaluations that both happen before either opening is registered are both accepted at one
  below the cap.
\<close>

lemma two_checks_before_open:
  "(let rm = demo_risk\<lparr>trades_today := 4\<rparr>;
        c1 = gate_check default_registry rm (demo_btc_signal, None, 19000, 19000);
        c2 = gate_check default_registry (snd c1) (demo_btc_signal, None, 19000, 19000);
        rm' = register_trade_open (register_trade_open (snd c2) 19000) 19000
    in fst c1 \<and> fst c2 \<and> trades_today rm' = 6 \<and> max_trades_per_day (rm_settings rm') = 5)"
proof -
  let ?rm = "demo_risk\<lparr>trades_today := 4\<rparr>"
  have roll: "maybe_rollover ?rm 19000 = ?rm" by (rule rollover_same_day) (simp add: now_date_def)
  have may: "may_trade ?rm" by (simp add: may_trade_def daily_loss_limit_amount_def Let_def fl_eval)
  have "size_position default_registry ?rm demo_btc_signal = size_position default_registry demo_risk demo_btc_signal"
    by (simp add: size_position_def)
  then have "signal_fits default_registry ?rm demo_btc_signal None (rnd (909 / 10))"
    by (simp add: signal_fits_def demo_size demo_risk_distance) (simp add: fl_eval)
  then have "gate_check default_registry ?rm (demo_btc_signal, None, 19000, 19000) = (True, ?rm)"
    using may by (simp add: gate_check_def Let_def evaluate_risk_may_trade roll evaluate_size_may_accept)
  then show ?thesis
    by (simp add: Let_def register_trade_open_def maybe_rollover_def now_date_def)
qed

end
