(* ===== verification/Broker.thy ===== *)
theory Broker
  imports Models
begin

text \<open>
  The broker protocol of \<open>src/app/broker/base.py\<close> as a locale, and the paper broker of
  \<open>src/app/broker/paper.py\<close>.  An operation that reads the clock or draws a fresh identifier takes them
  as an argument (\<open>call_env\<close>).  The lock of the broker makes each operation one step.

  The lemmas show: the protocol holds of the paper broker, what its positions are, and that its
  balance is its starting balance plus the profit of every closed position.
\<close>

section \<open>The protocol\<close>

record call_env =
  ce_id :: string
  ce_now :: py_datetime

text \<open>
  What the execution layer relies on: an order that comes back is the order that was sent, with only
  its status and the fields of the broker filled in.
\<close>

definition same_order :: "order \<Rightarrow> order \<Rightarrow> bool" where
  "same_order a b \<longleftrightarrow> client_order_id a = client_order_id b \<and> o_symbol a = o_symbol b \<and> o_side a = o_side b
     \<and> o_quantity a = o_quantity b \<and> o_stop_loss a = o_stop_loss b \<and> o_take_profit a = o_take_profit b"

locale broker_client =
  fixes place :: "'b \<Rightarrow> order \<Rightarrow> call_env \<Rightarrow> order res \<times> 'b"
    and balance :: "'b \<Rightarrow> pyfloat"
  assumes place_same: "place b ord e = (Inr p, b') \<Longrightarrow> same_order p ord"
    and place_balance: "balance (snd (place b ord e)) = balance b"

section \<open>PaperBroker\<close>

record paper_broker =
  pb_balance :: pyfloat
  pb_slippage_pips :: pyfloat
  pb_quotes :: "string \<rightharpoonup> pyfloat \<times> pyfloat"
  pb_open_positions :: "string \<rightharpoonup> order"
  pb_orders :: "string \<rightharpoonup> order"
  pb_pnl_by_symbol :: "string \<Rightarrow> pyfloat"

definition new_paper :: "pyfloat \<Rightarrow> pyfloat \<Rightarrow> paper_broker" where
  "new_paper start slippage = \<lparr>pb_balance = start, pb_slippage_pips = slippage, pb_quotes = Map.empty,
     pb_open_positions = Map.empty, pb_orders = Map.empty, pb_pnl_by_symbol = (\<lambda>symb. 0)\<rparr>"

definition paper_set_quote :: "paper_broker \<Rightarrow> string \<Rightarrow> pyfloat \<Rightarrow> pyfloat \<Rightarrow> paper_broker" where
  "paper_set_quote b symb bid ask = b\<lparr>pb_quotes := (pb_quotes b)(symb \<mapsto> (bid, ask))\<rparr>"

definition paper_balance :: "paper_broker \<Rightarrow> pyfloat" where
  "paper_balance b = pb_balance b"

definition paper_get_quote :: "paper_broker \<Rightarrow> string \<Rightarrow> (pyfloat \<times> pyfloat) res" where
  "paper_get_quote b symb = (case pb_quotes b symb of None \<Rightarrow> Inl KeyError | Some q \<Rightarrow> Inr q)"

definition paper_place :: "paper_broker \<Rightarrow> order \<Rightarrow> call_env \<Rightarrow> order res \<times> paper_broker" where
  "paper_place b ord e =
     (case paper_get_quote b (o_symbol ord) of
        Inl x \<Rightarrow> (Inl x, b)
      | Inr (bid, ask) \<Rightarrow>
          let fill = (if o_side ord = BUY then ask else bid);
              broker_id = ''paper-'' @ ce_id e;
              filled = ord\<lparr>o_status := FILLED, broker_order_id := Some broker_id, submitted_at := Some (ce_now e),
                           filled_price := Some fill, filled_at := Some (ce_now e)\<rparr>
          in (Inr filled, b\<lparr>pb_orders := (pb_orders b)(broker_id \<mapsto> filled),
                            pb_open_positions := (pb_open_positions b)(o_symbol ord \<mapsto> filled)\<rparr>))"

definition paper_cancel :: "paper_broker \<Rightarrow> string \<Rightarrow> bool \<times> paper_broker" where
  "paper_cancel b broker_id =
     (case pb_orders b broker_id of
        None \<Rightarrow> (False, b)
      | Some ord \<Rightarrow> (True, b\<lparr>pb_orders := (pb_orders b)(broker_id \<mapsto> ord\<lparr>o_status := CANCELLED\<rparr>)\<rparr>))"

text \<open>The profit in price points of a position closed at \<open>exit_price\<close>.\<close>

definition position_pnl :: "order \<Rightarrow> pyfloat \<Rightarrow> pyfloat \<Rightarrow> pyfloat" where
  "position_pnl pos entry exit_price =
     fmul (fmul (fsub exit_price entry) (if o_side pos = BUY then 1 else - 1)) (o_quantity pos)"

definition paper_close_position :: "paper_broker \<Rightarrow> string \<Rightarrow> bool res \<times> paper_broker" where
  "paper_close_position b symb =
     (let b1 = b\<lparr>pb_open_positions := (pb_open_positions b)(symb := None)\<rparr> in
      case pb_open_positions b symb of
        None \<Rightarrow> (Inr False, b1)
      | Some pos \<Rightarrow>
          (case filled_price pos of
             None \<Rightarrow> (Inr False, b1)
           | Some entry \<Rightarrow>
               (case paper_get_quote b1 symb of
                  Inl x \<Rightarrow> (Inl x, b1)
                | Inr (bid, ask) \<Rightarrow>
                    let exit_price = (if o_side pos = BUY then bid else ask);
                        pnl = position_pnl pos entry exit_price
                    in (Inr True, b1\<lparr>pb_pnl_by_symbol := (pb_pnl_by_symbol b1)(symb := fadd (pb_pnl_by_symbol b1 symb) pnl),
                                     pb_balance := fadd (pb_balance b1) pnl\<rparr>))))"

text \<open>The introspection helper \<open>realized_pnl\<close>; the sum over the orders is a sum of zeros.\<close>

definition paper_realized_pnl :: "paper_broker \<Rightarrow> pyfloat" where
  "paper_realized_pnl b = fsub (fsub (pb_balance b) 0) 0"

interpretation paper_client: broker_client paper_place paper_balance
  by unfold_locales
    (auto simp: paper_place_def same_order_def paper_balance_def Let_def split: sum.splits prod.splits)

section \<open>Histories of calls\<close>

datatype paper_op = PQuote string pyfloat pyfloat | PPlace order call_env | PCancel string | PClose string

fun paper_step :: "paper_broker \<Rightarrow> paper_op \<Rightarrow> paper_broker" where
  "paper_step b (PQuote s bid ask) = paper_set_quote b s bid ask"
| "paper_step b (PPlace ord e) = snd (paper_place b ord e)"
| "paper_step b (PCancel bid) = snd (paper_cancel b bid)"
| "paper_step b (PClose s) = snd (paper_close_position b s)"

primrec paper_run :: "paper_broker \<Rightarrow> paper_op list \<Rightarrow> paper_broker" where
  "paper_run b [] = b"
| "paper_run b (op # ops) = paper_run (paper_step b op) ops"

text \<open>The profit a call realises: only a close of a position with a quote does.\<close>

fun realises :: "paper_broker \<Rightarrow> paper_op \<Rightarrow> pyfloat list" where
  "realises b (PClose s) = (case (pb_open_positions b s, pb_quotes b s) of
      (Some pos, Some (bid, ask)) \<Rightarrow>
        (case filled_price pos of None \<Rightarrow> []
         | Some entry \<Rightarrow> [position_pnl pos entry (if o_side pos = BUY then bid else ask)])
    | _ \<Rightarrow> [])"
| "realises b _ = []"

primrec realised_in :: "paper_broker \<Rightarrow> paper_op list \<Rightarrow> pyfloat list" where
  "realised_in b [] = []"
| "realised_in b (op # ops) = realises b op @ realised_in (paper_step b op) ops"

lemma paper_step_balance: "pb_balance (paper_step b op) = foldl fadd (pb_balance b) (realises b op)"
  by (cases op) (auto simp: paper_set_quote_def paper_place_def paper_cancel_def paper_close_position_def
      paper_get_quote_def Let_def split: option.splits prod.splits sum.splits)

lemma paper_run_balance: "pb_balance (paper_run b ops) = foldl fadd (pb_balance b) (realised_in b ops)"
  by (induction ops arbitrary: b) (simp_all add: paper_step_balance)

text \<open>Every open position is a filled order of its symbol.\<close>

definition paper_inv :: "paper_broker \<Rightarrow> bool" where
  "paper_inv b \<longleftrightarrow> (\<forall>s pos. pb_open_positions b s = Some pos \<longrightarrow>
     o_symbol pos = s \<and> o_status pos = FILLED \<and> filled_price pos \<noteq> None \<and> broker_order_id pos \<noteq> None)"

lemma paper_inv_new: "paper_inv (new_paper start sl)"
  by (simp add: paper_inv_def new_paper_def)

lemma paper_inv_place: "paper_inv b \<Longrightarrow> paper_inv (snd (paper_place b ord e))"
  by (auto simp: paper_inv_def paper_place_def Let_def split: sum.splits prod.splits)

lemma paper_inv_close: "paper_inv b \<Longrightarrow> paper_inv (snd (paper_close_position b s))"
  by (auto simp: paper_inv_def paper_close_position_def Let_def split: option.splits sum.splits prod.splits)

lemma paper_inv_step: "paper_inv b \<Longrightarrow> paper_inv (paper_step b op)"
  by (cases op) (simp_all add: paper_inv_place paper_inv_close,
      auto simp: paper_inv_def paper_set_quote_def paper_cancel_def split: option.splits)

lemma paper_inv_run: "paper_inv b \<Longrightarrow> paper_inv (paper_run b ops)"
  by (induction ops arbitrary: b) (simp_all add: paper_inv_step)

text \<open>An open and a close with the quotes at both moments.\<close>

lemma paper_place_quoted:
  "pb_quotes b (o_symbol ord) = Some (bid, ask) \<Longrightarrow>
     \<exists>p. fst (paper_place b ord e) = Inr p \<and> same_order p ord \<and> o_status p = FILLED
       \<and> filled_price p = Some (if o_side ord = BUY then ask else bid)
       \<and> pb_open_positions (snd (paper_place b ord e)) (o_symbol ord) = Some p
       \<and> pb_quotes (snd (paper_place b ord e)) = pb_quotes b \<and> pb_balance (snd (paper_place b ord e)) = pb_balance b"
  by (simp add: paper_place_def paper_get_quote_def same_order_def Let_def)

lemma paper_close_quoted:
  assumes "pb_open_positions b s = Some pos" and "filled_price pos = Some entry" and "pb_quotes b s = Some (bid, ask)"
  shows "fst (paper_close_position b s) = Inr True"
    and "pb_balance (snd (paper_close_position b s)) =
      fadd (pb_balance b) (position_pnl pos entry (if o_side pos = BUY then bid else ask))"
    and "pb_open_positions (snd (paper_close_position b s)) s = None"
  using assms by (simp_all add: paper_close_position_def paper_get_quote_def Let_def)

lemma position_pnl_le_0:
  "entry_price = (if o_side pos = BUY then ask else bid) \<Longrightarrow> bid \<le> ask \<Longrightarrow> 0 < o_quantity pos \<Longrightarrow>
     position_pnl pos entry_price (if o_side pos = BUY then bid else ask) \<le> 0"
proof -
  assume e: "entry_price = (if o_side pos = BUY then ask else bid)" and ba: "bid \<le> ask" and q: "0 < o_quantity pos"
  have d: "fsub bid ask \<le> 0" "0 \<le> fsub ask bid"
    using ba fsub_nonneg [of bid ask] fsub_minus_swap [of bid ask] by auto
  have neg: "fmul x (o_quantity pos) \<le> 0" if "x \<le> 0" for x
    using that q unfolding fmul_def by (intro rd.nonpos) (simp add: mult_nonpos_nonneg)
  have "fmul (fsub bid ask) 1 \<le> 0" "fmul (fsub ask bid) (- 1) \<le> 0"
    using d unfolding fmul_def by (auto intro!: rd.nonpos)
  then show ?thesis using e neg by (simp add: position_pnl_def)
qed

section \<open>Properties\<close>

definition demo_order :: order where
  "demo_order = \<lparr>client_order_id = ''c1'', o_symbol = ''EURUSD'', o_side = BUY, o_type = MARKET, o_quantity = 2,
     o_price = None, o_stop_loss = Some 90, o_take_profit = Some 120, o_status = PENDING, broker_order_id = None,
     submitted_at = None, filled_price = None, filled_at = None, rejection_reason = None\<rparr>"

definition demo_env :: call_env where
  "demo_env = \<lparr>ce_id = ''0'', ce_now = utc 0\<rparr>"

text \<open>
  The balance of the paper broker: after any history of quotes, orders, cancellations and closes,
  it is the balance at the start plus the profits of the closes that found a position and a quote, in
  order; and every open position is a filled order of its symbol.
\<close>

theorem paper_ledger:
  "pb_balance (paper_run (new_paper start sl) ops) = foldl fadd start (realised_in (new_paper start sl) ops)
    \<and> paper_inv (paper_run (new_paper start sl) ops)"
  using paper_run_balance [of "new_paper start sl" ops] paper_inv_run [OF paper_inv_new]
  by (simp add: new_paper_def)

text \<open>
  A round trip: an order on a quoted symbol is filled at the ask (buy) or the bid (sell), and closing
  the position under the quote of that later moment adds exactly its profit to the balance and
  leaves no position; with an unchanged quote the round trip never gains.
\<close>

theorem paper_round_trip:
  assumes "pb_quotes b (o_symbol ord) = Some (bid, ask)" and "is_float (pb_balance b)"
    and "bid \<le> ask" and "0 < o_quantity ord"
  shows "(let b1 = snd (paper_place b ord e);
              entry = (if o_side ord = BUY then ask else bid);
              r = paper_close_position (paper_set_quote b1 (o_symbol ord) bid' ask') (o_symbol ord);
              same = paper_close_position b1 (o_symbol ord)
          in fst r = Inr True \<and> pb_open_positions (snd r) (o_symbol ord) = None
            \<and> pb_balance (snd r) = fadd (pb_balance b) (position_pnl ord entry (if o_side ord = BUY then bid' else ask'))
            \<and> pb_balance (snd same) \<le> pb_balance b)"
proof -
  let ?s = "o_symbol ord" and ?b1 = "snd (paper_place b ord e)" and ?entry = "if o_side ord = BUY then ask else bid"
  obtain p where p: "same_order p ord" "filled_price p = Some ?entry" "pb_open_positions ?b1 ?s = Some p"
    "pb_quotes ?b1 = pb_quotes b" "pb_balance ?b1 = pb_balance b"
    using paper_place_quoted [OF assms(1), of e] by blast
  have pnl: "position_pnl p = position_pnl ord" "o_side p = o_side ord"
    using p(1) by (auto simp: position_pnl_def same_order_def fun_eq_iff)
  let ?q = "paper_set_quote ?b1 ?s bid' ask'"
  have q: "pb_open_positions ?q ?s = Some p" "pb_quotes ?q ?s = Some (bid', ask')" "pb_balance ?q = pb_balance b"
    using p by (simp_all add: paper_set_quote_def)
  have le: "position_pnl ord ?entry (if o_side ord = BUY then bid else ask) \<le> 0"
    by (rule position_pnl_le_0) (use assms in auto)
  have "fadd (pb_balance b) (position_pnl ord ?entry (if o_side ord = BUY then bid else ask)) \<le> fadd (pb_balance b) 0"
    using le by (intro fadd_mono) simp_all
  then show ?thesis
    using paper_close_quoted [OF q(1) p(2) q(2)] paper_close_quoted [OF p(3,2), of bid ask] assms(1,2) p(4,5) q(3)
    by (simp add: Let_def pnl)
qed

lemma paper_round_trip_witness:
  "(let b = paper_set_quote (new_paper 1000 0) ''EURUSD'' 100 101;
        r = paper_close_position (paper_set_quote (snd (paper_place b demo_order demo_env)) ''EURUSD'' 110 111) ''EURUSD''
    in fst r = Inr True \<and> pb_balance (snd r) = 1018)"
proof -
  let ?b = "paper_set_quote (new_paper 1000 0) ''EURUSD'' 100 101"
  have "pb_quotes ?b (o_symbol demo_order) = Some (100, 101)" "is_float (pb_balance ?b)" "(100 :: rat) \<le> 101" "0 < o_quantity demo_order"
    by (simp_all add: paper_set_quote_def new_paper_def demo_order_def is_float_def fl_eval)
  from paper_round_trip [OF this, of demo_env 110 111]
  show ?thesis
    by (simp add: Let_def demo_order_def position_pnl_def) (simp add: paper_set_quote_def new_paper_def fl_eval)
qed

section \<open>Where the code does something else\<close>

text \<open>A second order on a symbol replaces the first position, whose profit is then never realised.\<close>

lemma second_order_replaces_position:
  "(let b = paper_set_quote (new_paper 1000 0) ''EURUSD'' 100 101;
        b1 = snd (paper_place b demo_order demo_env);
        b2 = snd (paper_place b1 (demo_order\<lparr>client_order_id := ''c2'', o_quantity := 1\<rparr>) (demo_env\<lparr>ce_id := ''1''\<rparr>));
        b3 = snd (paper_close_position (paper_set_quote b2 ''EURUSD'' 111 112) ''EURUSD'')
    in pb_balance b3 = 1010 \<and> pb_open_positions b3 ''EURUSD'' = None)"
  by (simp add: paper_set_quote_def new_paper_def paper_place_def paper_get_quote_def paper_close_position_def
      demo_order_def demo_env_def position_pnl_def Let_def fl_eval)

text \<open>A close without a quote raises after the position was removed; the position is lost.\<close>

lemma close_without_quote_drops_position:
  "pb_open_positions b s = Some pos \<Longrightarrow> filled_price pos \<noteq> None \<Longrightarrow> pb_quotes b s = None \<Longrightarrow>
     fst (paper_close_position b s) = Inl KeyError \<and> pb_open_positions (snd (paper_close_position b s)) s = None"
  by (auto simp: paper_close_position_def paper_get_quote_def Let_def split: option.splits)

text \<open>\<open>realized_pnl\<close> returns the balance.\<close>

lemma realized_pnl_is_balance: "is_float (pb_balance b) \<Longrightarrow> paper_realized_pnl b = pb_balance b"
  by (simp add: paper_realized_pnl_def fsub_def is_float_def)

end
