(* ===== verification/Execution.thy ===== *)
theory Execution
  imports Risk Broker
begin

text \<open>
  The executor of \<open>src/app/execution/executor.py\<close>.  Its definitions take the \<open>place_order\<close> of a broker
  as an argument (the protocol \<open>broker_client\<close>); the executor holds the broker's state, the risk
  manager and its own dictionaries.  The notifications and the persisted trades are outputs, in the
  order in which the code sends them; the callbacks themselves are taken to return.  Clock readings
  and fresh identifiers come with \<open>exec_env\<close>.  The waiting between two attempts of a retry
  has no effect on the state.

  The lemmas show: a trade is only opened on an accepted signal and a fill, with the data of both;
  what closing a trade does to the risk manager; that the daily cap holds through the executor; and
  that confirming a semi-automatic signal always fails.
\<close>

section \<open>State\<close>

record pending =
  pd_signal :: signal
  pd_decision :: risk_decision
  pd_created_at :: py_datetime
  pd_expires_at :: py_datetime

record 'b executor =
  ex_broker :: 'b
  ex_risk :: risk_manager
  ex_mode :: trading_mode
  ex_ttl_sec :: pyfloat
  ex_pending :: "string \<rightharpoonup> pending"
  ex_open_trades :: "string \<rightharpoonup> trade"

datatype exec_output =
    NotifyRiskReject string risk_reason
  | NotifyPending string signal pyfloat
  | NotifyOrderFailed string py_exc
  | NotifyTradeOpen trade
  | NotifyTradeClose trade
  | PersistTrade trade

record exec_env =
  xe_id :: string
  xe_t0 :: py_datetime
  xe_now :: py_datetime
  xe_calls :: "nat \<Rightarrow> call_env"
  xe_local_off :: int

definition new_executor :: "'b \<Rightarrow> risk_manager \<Rightarrow> trading_mode \<Rightarrow> pyfloat \<Rightarrow> 'b executor" where
  "new_executor b rm mode ttl = \<lparr>ex_broker = b, ex_risk = rm, ex_mode = mode, ex_ttl_sec = ttl,
     ex_pending = Map.empty, ex_open_trades = Map.empty\<rparr>"

section \<open>Placing an order with retries\<close>

text \<open>The attempts still allowed, each with its own clock reading; the last failure is raised again.\<close>

fun attempts :: "('b \<Rightarrow> order \<Rightarrow> call_env \<Rightarrow> order res \<times> 'b) \<Rightarrow> 'b \<Rightarrow> order \<Rightarrow> call_env list \<Rightarrow> order res \<times> 'b" where
  "attempts place b ord [] = (Inl RuntimeError, b)"
| "attempts place b ord (e # es) =
     (let (r, b1) = place b ord e;
          outcome = (case r of Inl x \<Rightarrow> Inl x
                     | Inr placed \<Rightarrow> if o_status placed = REJECTED then Inl RuntimeError else Inr placed)
      in case outcome of
           Inr placed \<Rightarrow> (Inr placed, b1)
         | Inl x \<Rightarrow> if es = [] then (Inl x, b1) else attempts place b1 ord es)"

definition with_retry :: "('b \<Rightarrow> order \<Rightarrow> call_env \<Rightarrow> order res \<times> 'b) \<Rightarrow> 'b \<Rightarrow> order \<Rightarrow> (nat \<Rightarrow> call_env) \<Rightarrow> order res \<times> 'b" where
  "with_retry place b ord calls = attempts place b ord (map calls [0, 1, 2])"

section \<open>Firing a signal\<close>

text \<open>Python's \<open>x or y\<close> on an optional float.\<close>

definition or_else :: "pyfloat option \<Rightarrow> pyfloat \<Rightarrow> pyfloat" where
  "or_else x y = (case x of None \<Rightarrow> y | Some v \<Rightarrow> if v = 0 then y else v)"

definition market_order :: "string \<Rightarrow> signal \<Rightarrow> pyfloat \<Rightarrow> order res" where
  "market_order oid sg lots =
     mk_order \<lparr>client_order_id = oid, o_symbol = sg_symbol sg,
       o_side = (if sg_direction sg = LONG then BUY else SELL), o_type = MARKET, o_quantity = lots,
       o_price = None, o_stop_loss = Some (sg_sl sg), o_take_profit = Some (sg_tp sg), o_status = PENDING,
       broker_order_id = None, submitted_at = None, filled_price = None, filled_at = None, rejection_reason = None\<rparr>"

definition latency_ms :: "py_datetime \<Rightarrow> py_datetime \<Rightarrow> pyfloat" where
  "latency_ms t0 t1 = fmul (fquot (of_int (dt_wall t1 - dt_wall t0)) 1000000) 1000"

definition opened_trade :: "order \<Rightarrow> order \<Rightarrow> signal \<Rightarrow> risk_decision \<Rightarrow> pyfloat \<Rightarrow> exec_env \<Rightarrow> trade" where
  "opened_trade ord placed sg d slippage env =
     \<lparr>trade_id = client_order_id ord, t_symbol = sg_symbol sg, t_direction = sg_direction sg,
      t_entry_time = (case filled_at placed of None \<Rightarrow> xe_t0 env | Some t \<Rightarrow> t),
      t_entry_price = or_else (filled_price placed) (sg_entry sg), t_stop_loss = sg_sl sg, t_take_profit = sg_tp sg,
      t_quantity = rd_quantity d, t_exit_time = None, t_exit_price = None, t_pnl = None, t_pnl_pct = None,
      t_status = T_OPEN, t_session = sg_session sg, t_entry_reason = sg_reason sg, t_exit_reason = None,
      t_structure_tags = sg_tags sg, t_spread_pips = None, t_slippage_pips = Some slippage,
      t_latency_ms = Some (latency_ms (xe_t0 env) (xe_now env)), t_rr_ratio = Some (rr_ratio sg),
      t_screenshot_path = None\<rparr>"

definition fire :: "('b \<Rightarrow> order \<Rightarrow> call_env \<Rightarrow> order res \<times> 'b) \<Rightarrow> registry \<Rightarrow> 'b executor \<Rightarrow> signal
    \<Rightarrow> risk_decision \<Rightarrow> exec_env \<Rightarrow> (trade option res \<times> exec_output list) \<times> 'b executor" where
  "fire place reg ex sg d env =
     (case market_order (xe_id env) sg (rd_quantity d) of
        Inl x \<Rightarrow> ((Inl x, []), ex)
      | Inr ord \<Rightarrow>
          let (r, b) = with_retry place (ex_broker ex) ord (xe_calls env);
              ex1 = ex\<lparr>ex_broker := b\<rparr>
          in case r of
               Inl x \<Rightarrow> ((Inr None, [NotifyOrderFailed (sg_symbol sg) x]), ex1)
             | Inr placed \<Rightarrow>
                 if o_status placed \<notin> {FILLED, SUBMITTED} then ((Inr None, []), ex1)
                 else case bind_res (get_instrument_in reg (sg_symbol sg)) (\<lambda>i.
                        inst_pips i \<bar>fsub (or_else (filled_price placed) (sg_entry sg)) (sg_entry sg)\<bar>) of
                   Inl x \<Rightarrow> ((Inl x, []), ex1)
                 | Inr slippage \<Rightarrow>
                     let t = opened_trade ord placed sg d slippage env
                     in ((Inr (Some t), [PersistTrade t, NotifyTradeOpen t]),
                         ex1\<lparr>ex_risk := register_trade_open (ex_risk ex1) (dt_date (xe_now env)),
                             ex_open_trades := (ex_open_trades ex1)(trade_id t \<mapsto> t)\<rparr>))"

section \<open>Semi-automatic mode\<close>

text \<open>\<open>fromtimestamp\<close> of a float: the fraction of the second is rounded to microseconds.\<close>

definition us_of_timestamp :: "pyfloat \<Rightarrow> int" where
  "us_of_timestamp t = \<lfloor>t\<rfloor> * 1000000 + rhe (fmul (t - of_int \<lfloor>t\<rfloor>) 1000000)"

definition expiry :: "exec_env \<Rightarrow> pyfloat \<Rightarrow> py_datetime" where
  "expiry env ttl = dt_fromtimestamp (xe_local_off env)
     (us_of_timestamp (fadd (fquot (of_int (dt_timestamp (xe_now env))) 1000000) ttl))"

definition stage_semi_auto :: "'b executor \<Rightarrow> signal \<Rightarrow> risk_decision \<Rightarrow> exec_env
    \<Rightarrow> (trade option res \<times> exec_output list) \<times> 'b executor" where
  "stage_semi_auto ex sg d env =
     ((Inr None, [NotifyPending (xe_id env) sg (rd_quantity d)]),
      ex\<lparr>ex_pending := (ex_pending ex)(xe_id env \<mapsto>
        \<lparr>pd_signal = sg, pd_decision = d, pd_created_at = xe_t0 env, pd_expires_at = expiry env (ex_ttl_sec ex)\<rparr>)\<rparr>)"

definition confirm_pending :: "('b \<Rightarrow> order \<Rightarrow> call_env \<Rightarrow> order res \<times> 'b) \<Rightarrow> registry \<Rightarrow> 'b executor \<Rightarrow> string
    \<Rightarrow> exec_env \<Rightarrow> (trade option res \<times> exec_output list) \<times> 'b executor" where
  "confirm_pending place reg ex pid env =
     (let ex1 = ex\<lparr>ex_pending := (ex_pending ex)(pid := None)\<rparr> in
      case ex_pending ex pid of
        None \<Rightarrow> ((Inr None, []), ex1)
      | Some p \<Rightarrow>
          (case dt_gt (xe_t0 env) (pd_expires_at p) of
             Inl x \<Rightarrow> ((Inl x, []), ex1)
           | Inr True \<Rightarrow> ((Inr None, []), ex1)
           | Inr False \<Rightarrow> fire place reg ex1 (pd_signal p) (pd_decision p) env))"

definition cancel_pending :: "'b executor \<Rightarrow> string \<Rightarrow> bool \<times> 'b executor" where
  "cancel_pending ex pid = (ex_pending ex pid \<noteq> None, ex\<lparr>ex_pending := (ex_pending ex)(pid := None)\<rparr>)"

section \<open>The public operations\<close>

definition handle_signal :: "('b \<Rightarrow> order \<Rightarrow> call_env \<Rightarrow> order res \<times> 'b) \<Rightarrow> registry \<Rightarrow> 'b executor \<Rightarrow> signal
    \<Rightarrow> pyfloat option \<Rightarrow> exec_env \<Rightarrow> (trade option res \<times> exec_output list) \<times> 'b executor" where
  "handle_signal place reg ex sg spread env =
     (let (r, rm) = evaluate_risk reg (ex_risk ex) (dt_date (xe_t0 env)) sg spread;
          ex1 = ex\<lparr>ex_risk := rm\<rparr>
      in case r of
           Inl x \<Rightarrow> ((Inl x, []), ex1)
         | Inr d \<Rightarrow>
             if \<not> rd_accepted d then ((Inr None, [NotifyRiskReject (sg_symbol sg) (rd_reason d)]), ex1)
             else if ex_mode ex = semi_auto then stage_semi_auto ex1 sg d env
             else fire place reg ex1 sg d env)"

text \<open>The profit of a trade in account currency.\<close>

definition trade_pnl :: "registry \<Rightarrow> trade \<Rightarrow> pyfloat \<Rightarrow> pyfloat res" where
  "trade_pnl reg t exit_price =
     bind_res (get_instrument_in reg (t_symbol t)) (\<lambda>i.
     let price_pnl = fmul (fsub exit_price (t_entry_price t)) (if t_direction t = LONG then 1 else - 1) in
     bind_res (inst_pips i price_pnl) (\<lambda>pips. Inr (fmul (fmul pips (quote_per_pip_per_lot i)) (t_quantity t))))"

definition pnl_status :: "pyfloat \<Rightarrow> trade_status" where
  "pnl_status pnl = (if pnl > 0 then CLOSED_WIN else if pnl < 0 then CLOSED_LOSS else CLOSED_BE)"

definition close_trade :: "registry \<Rightarrow> 'b executor \<Rightarrow> string \<Rightarrow> string \<Rightarrow> pyfloat \<Rightarrow> exec_env
    \<Rightarrow> (trade option res \<times> exec_output list) \<times> 'b executor" where
  "close_trade reg ex tid reason exit_price env =
     (let ex1 = ex\<lparr>ex_open_trades := (ex_open_trades ex)(tid := None)\<rparr> in
      case ex_open_trades ex tid of
        None \<Rightarrow> ((Inr None, []), ex1)
      | Some t \<Rightarrow>
          (case trade_pnl reg t exit_price of
             Inl x \<Rightarrow> ((Inl x, []), ex1)
           | Inr pnl \<Rightarrow>
               let closed = t\<lparr>t_exit_time := Some (xe_t0 env), t_exit_price := Some exit_price, t_pnl := Some pnl,
                     t_pnl_pct := Some (fquot pnl (max (current_balance (ex_risk ex1)) 1)),
                     t_status := pnl_status pnl, t_exit_reason := Some reason\<rparr>
               in ((Inr (Some closed), [PersistTrade closed, NotifyTradeClose closed]),
                   ex1\<lparr>ex_risk := register_trade_close (ex_risk ex1) (dt_date (xe_now env)) closed\<rparr>)))"

section \<open>One operation\<close>

text \<open>What a broker that keeps the protocol returns through the retries.\<close>

context broker_client
begin

lemma attempts_same: "attempts place b ord es = (Inr p, b') \<Longrightarrow> same_order p ord \<and> o_status p \<noteq> REJECTED"
proof (induction es arbitrary: b)
  case (Cons e es)
  obtain r b1 where r: "place b ord e = (r, b1)" by (cases "place b ord e")
  show ?case
    using Cons r place_same [of b ord e] by (auto split: sum.splits if_splits)
qed simp

lemma attempts_balance: "balance (snd (attempts place b ord es)) = balance b"
proof (induction es arbitrary: b)
  case (Cons e es)
  obtain r b1 where r: "place b ord e = (r, b1)" by (cases "place b ord e")
  have "balance b1 = balance b" using place_balance [of b ord e] r by simp
  with Cons.IH [of b1] r show ?case by (auto split: sum.splits if_splits)
qed simp

end

text \<open>The trade of a fired signal.\<close>

definition trade_for :: "signal \<Rightarrow> risk_decision \<Rightarrow> exec_env \<Rightarrow> trade \<Rightarrow> bool" where
  "trade_for sg d env t \<longleftrightarrow> trade_id t = xe_id env \<and> t_symbol t = sg_symbol sg \<and> t_direction t = sg_direction sg
     \<and> t_stop_loss t = sg_sl sg \<and> t_take_profit t = sg_tp sg \<and> t_quantity t = rd_quantity d \<and> 0 < t_quantity t
     \<and> t_status t = T_OPEN \<and> t_pnl t = None \<and> t_session t = sg_session sg \<and> t_structure_tags t = sg_tags sg
     \<and> t_rr_ratio t = Some (rr_ratio sg)"

lemma fire_Some:
  assumes "fire place reg ex sg d env = ((Inr (Some t), evs), ex')"
  obtains placed b ord where "market_order (xe_id env) sg (rd_quantity d) = Inr ord"
    "with_retry place (ex_broker ex) ord (xe_calls env) = (Inr placed, b)"
    "o_status placed \<in> {FILLED, SUBMITTED}" "trade_for sg d env t"
    "t_entry_price t = or_else (filled_price placed) (sg_entry sg)"
    "evs = [PersistTrade t, NotifyTradeOpen t]"
    "ex' = ex\<lparr>ex_broker := b, ex_risk := register_trade_open (ex_risk ex) (dt_date (xe_now env)),
              ex_open_trades := (ex_open_trades ex)(trade_id t \<mapsto> t)\<rparr>"
proof -
  obtain ord where ord: "market_order (xe_id env) sg (rd_quantity d) = Inr ord"
    using assms by (cases "market_order (xe_id env) sg (rd_quantity d)") (auto simp: fire_def)
  then have cid: "client_order_id ord = xe_id env" "0 < rd_quantity d"
    by (auto simp: market_order_def mk_order_def split: if_splits)
  obtain r b where rb: "with_retry place (ex_broker ex) ord (xe_calls env) = (r, b)" by fastforce
  show ?thesis
    using assms ord rb cid that [of ord] unfolding fire_def
    by (auto simp: trade_for_def opened_trade_def Let_def split: sum.splits if_splits)
qed

lemma fire_fields:
  "ex_mode (snd (fire place reg ex sg d env)) = ex_mode ex"
  "ex_ttl_sec (snd (fire place reg ex sg d env)) = ex_ttl_sec ex"
  "ex_pending (snd (fire place reg ex sg d env)) = ex_pending ex"
  by (auto simp: fire_def Let_def split: sum.split prod.split)

lemma fire_risk:
  "ex_risk (snd (fire place reg ex sg d env)) \<in> {ex_risk ex, register_trade_open (ex_risk ex) (dt_date (xe_now env))}"
  by (auto simp: fire_def Let_def split: sum.split prod.split)

lemma fire_not_opened:
  "fire place reg ex sg d env = ((r, evs), ex') \<Longrightarrow> \<forall>t. r \<noteq> Inr (Some t) \<Longrightarrow>
     ex_risk ex' = ex_risk ex \<and> ex_open_trades ex' = ex_open_trades ex"
  by (auto simp: fire_def Let_def split: sum.splits prod.splits if_splits)

text \<open>A signal that ends in a trade was accepted by the risk manager.\<close>

lemma handle_signal_Some:
  assumes "handle_signal place reg ex sg spread env = ((Inr (Some t), evs), ex')"
  obtains d rm where "evaluate_risk reg (ex_risk ex) (dt_date (xe_t0 env)) sg spread = (Inr d, rm)" "rd_accepted d"
    "ex_mode ex \<noteq> semi_auto" "fire place reg (ex\<lparr>ex_risk := rm\<rparr>) sg d env = ((Inr (Some t), evs), ex')"
  using assms by (auto simp: handle_signal_def stage_semi_auto_def Let_def split: prod.splits sum.splits if_splits)

text \<open>The effect of a signal on the risk manager: the evaluation, and an opening only if it accepted.\<close>

lemma handle_signal_risk:
  "ex_risk (snd (handle_signal place reg ex sg spread env)) =
      snd (gate_check reg (ex_risk ex) (sg, spread, dt_date (xe_t0 env), dt_date (xe_now env)))
   \<or> fst (gate_check reg (ex_risk ex) (sg, spread, dt_date (xe_t0 env), dt_date (xe_now env)))
     \<and> ex_risk (snd (handle_signal place reg ex sg spread env)) =
        gate_opened (snd (gate_check reg (ex_risk ex) (sg, spread, dt_date (xe_t0 env), dt_date (xe_now env))))
          (sg, spread, dt_date (xe_t0 env), dt_date (xe_now env))"
proof -
  obtain r rm where r: "evaluate_risk reg (ex_risk ex) (dt_date (xe_t0 env)) sg spread = (r, rm)" by fastforce
  show ?thesis
    using fire_risk [of place reg "ex\<lparr>ex_risk := rm\<rparr>" sg _ env]
    by (auto simp: handle_signal_def r gate_check_def gate_opened_def stage_semi_auto_def Let_def split: sum.split)
qed

lemma close_trade_Some:
  assumes "close_trade reg ex tid reason x env = ((Inr (Some c), evs), ex')"
  obtains t pnl where "ex_open_trades ex tid = Some t" "trade_pnl reg t x = Inr pnl" "t_pnl c = Some pnl"
    "t_status c = pnl_status pnl" "t_exit_price c = Some x" "trade_id c = trade_id t" "t_symbol c = t_symbol t"
    "evs = [PersistTrade c, NotifyTradeClose c]"
    "ex' = ex\<lparr>ex_open_trades := (ex_open_trades ex)(tid := None),
              ex_risk := register_trade_close (ex_risk ex) (dt_date (xe_now env)) c\<rparr>"
  using assms by (auto simp: close_trade_def Let_def split: option.splits sum.splits)

lemma close_trade_other:
  "close_trade reg ex tid reason x env = ((r, evs), ex') \<Longrightarrow> \<forall>c. r \<noteq> Inr (Some c) \<Longrightarrow>
     evs = [] \<and> ex' = ex\<lparr>ex_open_trades := (ex_open_trades ex)(tid := None)\<rparr>"
  by (auto simp: close_trade_def Let_def split: option.splits sum.splits)

lemma close_unknown:
  "ex_open_trades ex tid = None \<Longrightarrow> close_trade reg ex tid reason x env = ((Inr None, []), ex)"
  by (simp add: close_trade_def Let_def fun_upd_idem)

lemma pnl_status_sign:
  "pnl_status p = CLOSED_WIN \<longleftrightarrow> 0 < p" "pnl_status p = CLOSED_LOSS \<longleftrightarrow> p < 0" "pnl_status p = CLOSED_BE \<longleftrightarrow> p = 0"
  by (auto simp: pnl_status_def)

section \<open>Whole runs\<close>

datatype exec_op = XSignal signal "pyfloat option" exec_env | XClose string string pyfloat exec_env
  | XConfirm string exec_env | XCancel string | XKill | XSnapshot int

text \<open>\<open>XKill\<close> and \<open>XSnapshot\<close> are the calls of the dashboard and the bot on the shared risk manager.\<close>

fun exec_step :: "('b \<Rightarrow> order \<Rightarrow> call_env \<Rightarrow> order res \<times> 'b) \<Rightarrow> registry \<Rightarrow> 'b executor \<Rightarrow> exec_op
    \<Rightarrow> exec_output list \<times> 'b executor" where
  "exec_step place reg ex (XSignal sg spread env) =
     (let r = handle_signal place reg ex sg spread env in (snd (fst r), snd r))"
| "exec_step place reg ex (XClose tid reason x env) =
     (let r = close_trade reg ex tid reason x env in (snd (fst r), snd r))"
| "exec_step place reg ex (XConfirm pid env) =
     (let r = confirm_pending place reg ex pid env in (snd (fst r), snd r))"
| "exec_step place reg ex (XCancel pid) = ([], snd (cancel_pending ex pid))"
| "exec_step place reg ex XKill = ([], ex\<lparr>ex_risk := force_disable (ex_risk ex)\<rparr>)"
| "exec_step place reg ex (XSnapshot now) = ([], ex\<lparr>ex_risk := snd (snapshot (ex_risk ex) now)\<rparr>)"

primrec exec_run :: "('b \<Rightarrow> order \<Rightarrow> call_env \<Rightarrow> order res \<times> 'b) \<Rightarrow> registry \<Rightarrow> 'b executor \<Rightarrow> exec_op list
    \<Rightarrow> exec_output list \<times> 'b executor" where
  "exec_run place reg ex [] = ([], ex)"
| "exec_run place reg ex (op # ops) =
     (let s = exec_step place reg ex op; r = exec_run place reg (snd s) ops in (fst s @ fst r, snd r))"

text \<open>The clock the code reads is time-zone aware.\<close>

fun aware_op :: "exec_op \<Rightarrow> bool" where
  "aware_op (XConfirm pid env) \<longleftrightarrow> dt_off (xe_t0 env) \<noteq> None"
| "aware_op _ \<longleftrightarrow> True"

definition pending_naive :: "'b executor \<Rightarrow> bool" where
  "pending_naive ex \<longleftrightarrow> (\<forall>pid p. ex_pending ex pid = Some p \<longrightarrow> dt_off (pd_expires_at p) = None)"

lemma expiry_naive [simp]: "dt_off (expiry env ttl) = None"
  by (simp add: expiry_def dt_fromtimestamp_def)

text \<open>So a confirmation compares an aware with a naive datetime.\<close>

lemma confirm_fails:
  assumes "pending_naive ex" and "dt_off (xe_t0 env) \<noteq> None"
  shows "confirm_pending place reg ex pid env =
    ((if ex_pending ex pid = None then Inr None else Inl TypeError, []),
     ex\<lparr>ex_pending := (ex_pending ex)(pid := None)\<rparr>)"
  using assms by (auto simp: confirm_pending_def pending_naive_def dt_gt_def Let_def split: option.splits)

lemma pending_naive_step:
  "pending_naive ex \<Longrightarrow> aware_op op \<Longrightarrow> pending_naive (snd (exec_step place reg ex op))"
proof (cases op)
  case (XSignal sg spread env)
  assume "pending_naive ex"
  then show ?thesis
    using XSignal fire_fields(3) [of place reg "ex\<lparr>ex_risk := _\<rparr>" sg _ env]
    by (auto simp: handle_signal_def stage_semi_auto_def pending_naive_def Let_def split: prod.split sum.split)
next
  case (XClose tid reason x env)
  assume "pending_naive ex"
  then show ?thesis
    using XClose by (auto simp: close_trade_def pending_naive_def Let_def split: option.split sum.split)
next
  case (XConfirm pid env)
  assume "pending_naive ex" and "aware_op op"
  then show ?thesis using XConfirm confirm_fails [of ex env place reg pid] by (auto simp: pending_naive_def Let_def)
next
  case (XCancel pid)
  assume "pending_naive ex"
  then show ?thesis using XCancel by (auto simp: cancel_pending_def pending_naive_def)
next
  case XKill
  assume "pending_naive ex"
  then show ?thesis using XKill by (auto simp: pending_naive_def)
next
  case (XSnapshot now)
  assume "pending_naive ex"
  then show ?thesis using XSnapshot by (auto simp: pending_naive_def)
qed

text \<open>An invariant that every step keeps holds after a run.\<close>

lemma exec_run_invariant:
  assumes "\<And>ex op. I ex \<Longrightarrow> P op \<Longrightarrow> I (snd (exec_step place reg ex op))"
  shows "I ex \<Longrightarrow> list_all P ops \<Longrightarrow> I (snd (exec_run place reg ex ops))"
  by (induction ops arbitrary: ex) (simp_all add: assms Let_def)

subsection \<open>The daily cap\<close>

definition capped :: "int \<Rightarrow> risk_manager \<Rightarrow> bool" where
  "capped n rm \<longleftrightarrow> 0 \<le> trades_today rm \<and> trades_today rm \<le> n \<and> max_trades_per_day (rm_settings rm) = n"

lemma capped_check: "capped n rm \<Longrightarrow> capped n (snd (gate_check reg rm q))"
  using risk_gate.counts_nonneg [of rm reg q OpDisable] risk_gate.counts_le [of rm reg q OpDisable]
    risk_gate.caps(1) [of reg rm q]
  by (simp add: capped_def)

lemma capped_opened: "capped n rm \<Longrightarrow> fst (gate_check reg rm q) \<Longrightarrow> capped n (gate_opened (snd (gate_check reg rm q)) q)"
  using risk_gate.gate_step_bounded [of rm reg "Submit q"]
  by (auto simp: capped_def risk_gate.gate_step_def risk_gate.submit_def)

lemma capped_close: "capped n rm \<Longrightarrow> capped n (register_trade_close rm now t)"
  using rollover_count [of rm now] by (auto simp: capped_def register_trade_close_def Let_def)

lemma capped_kill: "capped n rm \<Longrightarrow> capped n (force_disable rm)"
  by (simp add: capped_def force_disable_def)

lemma capped_snapshot: "capped n rm \<Longrightarrow> capped n (snd (snapshot rm now))"
  using rollover_count [of rm now] by (auto simp: capped_def snapshot_def Let_def)

lemma capped_close_trade: "capped n (ex_risk ex) \<Longrightarrow> capped n (ex_risk (snd (close_trade reg ex tid reason x env)))"
  by (auto simp: close_trade_def Let_def capped_close split: option.split sum.split)

definition exec_inv :: "int \<Rightarrow> 'b executor \<Rightarrow> bool" where
  "exec_inv n ex \<longleftrightarrow> capped n (ex_risk ex) \<and> pending_naive ex
     \<and> (\<forall>tid t. ex_open_trades ex tid = Some t \<longrightarrow> trade_id t = tid \<and> t_status t = T_OPEN \<and> 0 < t_quantity t)"

definition open_ok :: "'b executor \<Rightarrow> bool" where
  "open_ok ex \<longleftrightarrow> (\<forall>tid t. ex_open_trades ex tid = Some t \<longrightarrow> trade_id t = tid \<and> t_status t = T_OPEN \<and> 0 < t_quantity t)"

lemma open_ok_fire:
  assumes "open_ok ex"
  shows "open_ok (snd (fire place reg ex sg d env))"
proof -
  obtain r evs ex' where f: "fire place reg ex sg d env = ((r, evs), ex')"
    by (cases "fire place reg ex sg d env") auto
  show ?thesis
  proof (cases "\<exists>t. r = Inr (Some t)")
    case True
    then obtain t where "r = Inr (Some t)" by blast
    with f have "fire place reg ex sg d env = ((Inr (Some t), evs), ex')" by simp
    then show ?thesis
      by (rule fire_Some) (use assms f in \<open>auto simp: open_ok_def trade_for_def\<close>)
  next
    case False
    with f have "ex_open_trades ex' = ex_open_trades ex" using fire_not_opened [OF f] by blast
    with assms f show ?thesis by (simp add: open_ok_def)
  qed
qed

lemma open_ok_step:
  assumes "open_ok ex" and "pending_naive ex" and "aware_op op"
  shows "open_ok (snd (exec_step place reg ex op))"
proof (cases op)
  case (XSignal sg spread env)
  show ?thesis
    using assms(1) XSignal open_ok_fire [of "ex\<lparr>ex_risk := _\<rparr>" place reg sg _ env]
    by (auto simp: handle_signal_def stage_semi_auto_def open_ok_def Let_def split: prod.split sum.split)
next
  case (XClose tid reason x env)
  with assms(1) show ?thesis by (auto simp: close_trade_def open_ok_def Let_def split: option.split sum.split)
next
  case (XConfirm pid env)
  with assms confirm_fails [of ex env place reg pid] show ?thesis by (auto simp: open_ok_def Let_def)
qed (use assms(1) in \<open>auto simp: open_ok_def cancel_pending_def\<close>)

lemma capped_step:
  assumes "capped n (ex_risk ex)" and "pending_naive ex" and "aware_op op"
  shows "capped n (ex_risk (snd (exec_step place reg ex op)))"
proof (cases op)
  case (XSignal sg spread env)
  show ?thesis
    using assms(1) XSignal handle_signal_risk [of place reg ex sg spread env] capped_check capped_opened
    by (auto simp: Let_def)
next
  case (XConfirm pid env)
  with assms confirm_fails [of ex env place reg pid] show ?thesis by (auto simp: Let_def)
qed (use assms(1) in \<open>auto simp: capped_close_trade cancel_pending_def capped_kill capped_snapshot Let_def\<close>)

lemma exec_inv_iff: "exec_inv n ex \<longleftrightarrow> capped n (ex_risk ex) \<and> pending_naive ex \<and> open_ok ex"
  by (simp add: exec_inv_def open_ok_def)

lemma exec_inv_step: "exec_inv n ex \<Longrightarrow> aware_op op \<Longrightarrow> exec_inv n (snd (exec_step place reg ex op))"
  by (simp add: exec_inv_iff capped_step pending_naive_step open_ok_step)

lemma exec_inv_run: "exec_inv n ex \<Longrightarrow> list_all aware_op ops \<Longrightarrow> exec_inv n (snd (exec_run place reg ex ops))"
  by (rule exec_run_invariant [where P = aware_op]) (simp_all add: exec_inv_step)

subsection \<open>The ledger of closed trades\<close>

fun booked :: "exec_output list \<Rightarrow> pyfloat list" where
  "booked [] = []"
| "booked (NotifyTradeClose t # evs) = pnl_or_0 t # booked evs"
| "booked (_ # evs) = booked evs"

lemma booked_append [simp]: "booked (xs @ ys) = booked xs @ booked ys"
  by (induction xs rule: booked.induct) simp_all

lemma register_open_balance [simp]: "current_balance (register_trade_open rm now) = current_balance rm"
  by (simp add: register_trade_open_def Let_def)

lemma register_close_balance [simp]: "current_balance (register_trade_close rm now t) = fadd (current_balance rm) (pnl_or_0 t)"
  by (simp add: register_trade_close_def Let_def)

lemma fire_booked: "booked (snd (fst (fire place reg ex sg d env))) = []
    \<and> current_balance (ex_risk (snd (fire place reg ex sg d env))) = current_balance (ex_risk ex)"
  by (auto simp: fire_def Let_def split: sum.split prod.split)

lemma handle_signal_booked: "booked (snd (fst (handle_signal place reg ex sg spread env))) = []
    \<and> current_balance (ex_risk (snd (handle_signal place reg ex sg spread env))) = current_balance (ex_risk ex)"
proof -
  obtain r rm where r: "evaluate_risk reg (ex_risk ex) (dt_date (xe_t0 env)) sg spread = (r, rm)" by fastforce
  then have "current_balance rm = current_balance (ex_risk ex)"
    using evaluate_risk_fields(1) [of reg "ex_risk ex" "dt_date (xe_t0 env)" sg spread] by simp
  then show ?thesis
    using fire_booked [of place reg "ex\<lparr>ex_risk := rm\<rparr>" sg _ env]
    by (simp add: handle_signal_def r stage_semi_auto_def Let_def split: sum.split)
qed

lemma confirm_booked: "booked (snd (fst (confirm_pending place reg ex pid env))) = []
    \<and> current_balance (ex_risk (snd (confirm_pending place reg ex pid env))) = current_balance (ex_risk ex)"
  using fire_booked [of place reg "ex\<lparr>ex_pending := _\<rparr>" _ _ env]
  by (simp add: confirm_pending_def Let_def split: option.split sum.split bool.split)

lemma close_booked: "foldl fadd (current_balance (ex_risk ex)) (booked (snd (fst (close_trade reg ex tid reason x env))))
    = current_balance (ex_risk (snd (close_trade reg ex tid reason x env)))"
  by (simp add: close_trade_def Let_def split: option.split sum.split)

lemma exec_step_booked:
  "current_balance (ex_risk (snd (exec_step place reg ex op)))
    = foldl fadd (current_balance (ex_risk ex)) (booked (fst (exec_step place reg ex op)))"
  by (cases op) (simp_all add: handle_signal_booked confirm_booked close_booked Let_def cancel_pending_def
      force_disable_def snapshot_def)

lemma exec_run_booked:
  "current_balance (ex_risk (snd (exec_run place reg ex ops)))
    = foldl fadd (current_balance (ex_risk ex)) (booked (fst (exec_run place reg ex ops)))"
  by (induction ops arbitrary: ex) (simp_all add: exec_step_booked Let_def)

subsection \<open>Semi-automatic mode\<close>

definition never_opened :: "'b \<Rightarrow> 'b executor \<Rightarrow> bool" where
  "never_opened b ex \<longleftrightarrow> ex_mode ex = semi_auto \<and> pending_naive ex \<and> ex_open_trades ex = Map.empty \<and> ex_broker ex = b"

lemma never_opened_step:
  assumes "never_opened b ex" and "aware_op op"
  shows "never_opened b (snd (exec_step place reg ex op))"
proof -
  have naive: "pending_naive (snd (exec_step place reg ex op))"
    using assms pending_naive_step by (auto simp: never_opened_def)
  show ?thesis
  proof (cases op)
    case (XSignal sg spread env)
    with assms naive show ?thesis
      by (auto simp: never_opened_def handle_signal_def stage_semi_auto_def Let_def split: prod.splits sum.splits)
  next
    case (XConfirm pid env)
    with assms naive show ?thesis
      using confirm_fails [of ex env place reg pid] by (auto simp: never_opened_def Let_def)
  next
    case (XClose tid reason x env)
    with assms naive close_unknown [of ex tid reg reason x env] show ?thesis by (auto simp: never_opened_def Let_def)
  qed (use assms naive in \<open>auto simp: never_opened_def cancel_pending_def\<close>)
qed

lemma never_opened_run:
  "never_opened b ex \<Longrightarrow> list_all aware_op ops \<Longrightarrow> never_opened b (snd (exec_run place reg ex ops))"
  by (rule exec_run_invariant [where P = aware_op]) (simp_all add: never_opened_step)

section \<open>Fills of the paper broker\<close>

lemma paper_place_Inr:
  "paper_place b ord e = (Inr p, b') \<Longrightarrow> \<exists>bid ask. pb_quotes b (o_symbol ord) = Some (bid, ask)
     \<and> filled_price p = Some (if o_side ord = BUY then ask else bid)"
proof -
  assume p: "paper_place b ord e = (Inr p, b')"
  then obtain bid ask where q: "pb_quotes b (o_symbol ord) = Some (bid, ask)"
    by (cases "pb_quotes b (o_symbol ord)") (auto simp: paper_place_def paper_get_quote_def)
  with p have "filled_price p = Some (if o_side ord = BUY then ask else bid)"
    by (auto simp: paper_place_def paper_get_quote_def Let_def)
  with q show ?thesis by blast
qed

lemma paper_place_Inl: "paper_place b ord e = (Inl x, b') \<Longrightarrow> b' = b \<and> pb_quotes b (o_symbol ord) = None"
  by (auto simp: paper_place_def paper_get_quote_def Let_def split: option.splits)

lemma paper_place_status: "paper_place b ord e = (Inr p, b') \<Longrightarrow> o_status p = FILLED"
  by (auto simp: paper_place_def Let_def split: sum.splits prod.splits)

text \<open>Retrying does not help an unquoted symbol, and a quoted one is filled at the first attempt.\<close>

lemma paper_attempts:
  "es \<noteq> [] \<Longrightarrow> attempts paper_place b ord es = paper_place b ord (if pb_quotes b (o_symbol ord) = None then last es else hd es)"
proof (induction es)
  case (Cons e es)
  show ?case
  proof (cases "pb_quotes b (o_symbol ord)")
    case None
    then have "paper_place b ord e' = (Inl KeyError, b)" for e' by (simp add: paper_place_def paper_get_quote_def)
    with None Cons.IH show ?thesis by (cases "es = []") simp_all
  next
    case (Some q)
    then obtain p b1 where p: "paper_place b ord e = (Inr p, b1)"
      by (cases q) (simp add: paper_place_def paper_get_quote_def Let_def)
    with Some paper_place_status [OF p] show ?thesis by simp
  qed
qed simp

section \<open>Properties\<close>

definition demo_exec_env :: exec_env where
  "demo_exec_env = \<lparr>xe_id = ''o1'', xe_t0 = utc (19000 * 86400000000), xe_now = utc (19000 * 86400000000 + 250000),
     xe_calls = (\<lambda>k. demo_env), xe_local_off = 0\<rparr>"

definition demo_broker :: paper_broker where
  "demo_broker = paper_set_quote (new_paper 100000 0) ''BTCUSD'' 107 108"

definition demo_executor :: "trading_mode \<Rightarrow> paper_broker executor" where
  "demo_executor mode = new_executor demo_broker demo_risk mode 90"

lemma demo_evaluate:
  "evaluate_risk default_registry demo_risk 19000 demo_btc_signal None =
     (Inr \<lparr>rd_accepted = True, rd_quantity = rnd (909 / 10), rd_risk_amount = fmul 100000 (rnd (1 / 100)), rd_reason = R_OK\<rparr>,
      demo_risk)"
proof -
  have roll: "maybe_rollover demo_risk 19000 = demo_risk" by (rule rollover_same_day) (simp add: now_date_def)
  show ?thesis
    using evaluate_risk_may_trade [OF demo_may_trade, of default_registry demo_btc_signal None]
      evaluate_size_may_accept [OF demo_fits] by (simp add: roll)
qed

lemma demo_exec_dates [simp]: "dt_date (xe_t0 demo_exec_env) = 19000" "dt_date (xe_now demo_exec_env) = 19000"
  "xe_id demo_exec_env = ''o1''"
  by (simp_all add: demo_exec_env_def dt_date_def utc_def)

lemma demo_executor_fields [simp]:
  "ex_risk (demo_executor mode) = demo_risk" "ex_mode (demo_executor mode) = mode"
  "ex_broker (demo_executor mode) = demo_broker" "ex_open_trades (demo_executor mode) = Map.empty"
  "ex_pending (demo_executor mode) = Map.empty"
  by (simp_all add: demo_executor_def new_executor_def)

lemma demo_handle:
  "\<exists>t evs ex'. handle_signal paper_place default_registry (demo_executor paper) demo_btc_signal None demo_exec_env
     = ((Inr (Some t), evs), ex')"
  unfolding handle_signal_def demo_executor_fields demo_exec_dates demo_evaluate
  by (simp add: fire_def market_order_def mk_order_def with_retry_def demo_broker_def demo_executor_def
      new_executor_def paper_place_def paper_get_quote_def paper_set_quote_def
      get_instrument_btcusd inst_pips_def Let_def) (simp add: fl_eval)

text \<open>
  C9. Trades come from accepted signals and real fills: when \<open>handle_signal\<close> on the paper broker returns a
  trade, the mode is not semi-automatic, the risk manager accepted the signal with exactly the traded
  quantity, the trade carries the signal's levels, its entry is the ask (long) or bid (short) quoted
  at that moment (unless that is zero), it is stored under its id, and the opening was registered.
\<close>

theorem exec_trade_sound:
  assumes "handle_signal paper_place reg ex sg spread env = ((Inr (Some t), evs), ex')"
  shows "ex_mode ex \<noteq> semi_auto
    \<and> may_trade (maybe_rollover (ex_risk ex) (dt_date (xe_t0 env)))
    \<and> signal_fits reg (maybe_rollover (ex_risk ex) (dt_date (xe_t0 env))) sg spread (t_quantity t)
    \<and> t_symbol t = sg_symbol sg \<and> t_direction t = sg_direction sg \<and> t_stop_loss t = sg_sl sg \<and> t_take_profit t = sg_tp sg
    \<and> (\<exists>bid ask. pb_quotes (ex_broker ex) (sg_symbol sg) = Some (bid, ask)
         \<and> t_entry_price t = or_else (Some (if sg_direction sg = LONG then ask else bid)) (sg_entry sg))
    \<and> ex_open_trades ex' = (ex_open_trades ex)(xe_id env \<mapsto> t)
    \<and> ex_risk ex' = register_trade_open (snd (evaluate_risk reg (ex_risk ex) (dt_date (xe_t0 env)) sg spread)) (dt_date (xe_now env))
    \<and> evs = [PersistTrade t, NotifyTradeOpen t]"
  using assms
proof (rule handle_signal_Some)
  fix d rm
  assume ev: "evaluate_risk reg (ex_risk ex) (dt_date (xe_t0 env)) sg spread = (Inr d, rm)" and acc: "rd_accepted d"
    and mode: "ex_mode ex \<noteq> semi_auto" and fire: "fire paper_place reg (ex\<lparr>ex_risk := rm\<rparr>) sg d env = ((Inr (Some t), evs), ex')"
  have gates: "may_trade (maybe_rollover (ex_risk ex) (dt_date (xe_t0 env)))
      \<and> signal_fits reg (maybe_rollover (ex_risk ex) (dt_date (xe_t0 env))) sg spread (rd_quantity d)"
    using evaluate_risk_accepts_iff [of reg "ex_risk ex" "dt_date (xe_t0 env)" sg spread "rd_quantity d"] ev acc by auto
  from fire show ?thesis
  proof (rule fire_Some)
    fix placed b ord
    assume ord: "market_order (xe_id env) sg (rd_quantity d) = Inr ord"
      and retry: "with_retry paper_place (ex_broker (ex\<lparr>ex_risk := rm\<rparr>)) ord (xe_calls env) = (Inr placed, b)"
      and t: "trade_for sg d env t" "t_entry_price t = or_else (filled_price placed) (sg_entry sg)"
      and out: "evs = [PersistTrade t, NotifyTradeOpen t]"
        "ex' = ex\<lparr>ex_risk := rm, ex_broker := b, ex_risk := register_trade_open (ex_risk (ex\<lparr>ex_risk := rm\<rparr>)) (dt_date (xe_now env)),
              ex_open_trades := (ex_open_trades (ex\<lparr>ex_risk := rm\<rparr>))(trade_id t \<mapsto> t)\<rparr>"
    have o: "o_symbol ord = sg_symbol sg" "o_side ord = BUY \<longleftrightarrow> sg_direction sg = LONG"
      using ord by (auto simp: market_order_def mk_order_def split: if_splits)
    from retry have "\<exists>e. paper_place (ex_broker ex) ord e = (Inr placed, b)"
      by (auto simp: with_retry_def paper_attempts simp del: attempts.simps split: if_splits)
    then obtain bid ask where "pb_quotes (ex_broker ex) (o_symbol ord) = Some (bid, ask)"
      "filled_price placed = Some (if o_side ord = BUY then ask else bid)"
      using paper_place_Inr by blast
    with o t out gates mode ev show ?thesis by (auto simp: trade_for_def)
  qed
qed

lemma exec_trade_sound_witness:
  "\<exists>t evs ex'. handle_signal paper_place default_registry (demo_executor paper) demo_btc_signal None demo_exec_env
     = ((Inr (Some t), evs), ex') \<and> t_entry_price t = 108 \<and> ex_open_trades ex' = [''o1'' \<mapsto> t]"
proof -
  obtain t evs ex' where h: "handle_signal paper_place default_registry (demo_executor paper) demo_btc_signal None demo_exec_env
     = ((Inr (Some t), evs), ex')" using demo_handle by blast
  from exec_trade_sound [OF h] have "t_entry_price t = 108 \<and> ex_open_trades ex' = [''o1'' \<mapsto> t]"
    by (auto simp: or_else_def demo_broker_def paper_set_quote_def)
  with h show ?thesis by blast
qed

text \<open>
  C17. The daily cap through the executor: whatever the broker, over any sequence of signals, closes,
  confirmations, cancellations, kill switches and snapshots, the trades of the day stay within
  the cap, and every open trade is open, stored under its id and has a positive quantity.
\<close>

theorem exec_daily_cap:
  assumes "exec_inv n ex" and "list_all aware_op ops"
  shows "trades_today (ex_risk (snd (exec_run place reg ex ops))) \<le> n \<and> exec_inv n (snd (exec_run place reg ex ops))"
  using exec_inv_run [OF assms, of place reg] by (simp add: exec_inv_def capped_def)

lemma exec_daily_cap_witness:
  "trades_today (ex_risk (snd (exec_run paper_place default_registry (demo_executor full_auto)
      [XSignal demo_btc_signal None demo_exec_env, XKill, XClose ''o1'' ''TP'' 122 demo_exec_env]))) \<le> 5
    \<and> exec_inv 5 (snd (exec_run paper_place default_registry (demo_executor full_auto)
      [XSignal demo_btc_signal None demo_exec_env, XKill, XClose ''o1'' ''TP'' 122 demo_exec_env]))"
  by (rule exec_daily_cap) (simp_all add: exec_inv_def capped_def pending_naive_def)

text \<open>
  Every profit is booked exactly once: over any run, whatever the broker, the balance of the risk
  manager is its balance at the start plus the profits of the trade-close notifications, in order.
\<close>

theorem exec_ledger:
  "current_balance (ex_risk (snd (exec_run place reg ex ops)))
    = foldl fadd (current_balance (ex_risk ex)) (booked (fst (exec_run place reg ex ops)))"
  by (rule exec_run_booked)

text \<open>
  Closing a trade: the closed trade has the profit of its instrument at the exit price and the
  status of that profit's sign, it is registered with the risk manager, and closing it again finds
  nothing and changes nothing.
\<close>

theorem exec_close_once:
  assumes "close_trade reg ex tid reason x env = ((Inr (Some c), evs), ex')"
  shows "(\<exists>t pnl. ex_open_trades ex tid = Some t \<and> trade_pnl reg t x = Inr pnl \<and> t_pnl c = Some pnl
      \<and> (t_status c = CLOSED_WIN \<longleftrightarrow> 0 < pnl) \<and> (t_status c = CLOSED_LOSS \<longleftrightarrow> pnl < 0) \<and> (t_status c = CLOSED_BE \<longleftrightarrow> pnl = 0))
    \<and> ex_risk ex' = register_trade_close (ex_risk ex) (dt_date (xe_now env)) c
    \<and> ex_open_trades ex' tid = None
    \<and> close_trade reg ex' tid reason' x' env' = ((Inr None, []), ex')"
proof (rule close_trade_Some [OF assms])
  fix t pnl
  assume "ex_open_trades ex tid = Some t" "trade_pnl reg t x = Inr pnl" "t_pnl c = Some pnl" "t_status c = pnl_status pnl"
    "ex' = ex\<lparr>ex_open_trades := (ex_open_trades ex)(tid := None),
              ex_risk := register_trade_close (ex_risk ex) (dt_date (xe_now env)) c\<rparr>"
  moreover from this have "close_trade reg ex' tid reason' x' env' = ((Inr None, []), ex')"
    by (intro close_unknown) simp
  ultimately show ?thesis by (auto simp: pnl_status_sign)
qed

lemma exec_close_once_witness:
  "\<exists>c evs ex'. close_trade default_registry ((demo_executor paper)\<lparr>ex_open_trades := [''t'' \<mapsto> demo_loss]\<rparr>) ''t'' ''SL'' 97 demo_exec_env
      = ((Inr (Some c), evs), ex') \<and> t_status c = CLOSED_LOSS \<and> close_trade default_registry ex' ''t'' ''SL'' 97 demo_exec_env = ((Inr None, []), ex')"
proof -
  let ?ex = "(demo_executor paper)\<lparr>ex_open_trades := [''t'' \<mapsto> demo_loss]\<rparr>"
  have pnl: "trade_pnl default_registry demo_loss 97 = Inr (- 11)"
    by (simp add: trade_pnl_def demo_loss_def get_instrument_btcusd inst_pips_def fl_eval)
  obtain c evs ex' where c: "close_trade default_registry ?ex ''t'' ''SL'' 97 demo_exec_env = ((Inr (Some c), evs), ex')"
    by (simp add: close_trade_def pnl Let_def)
  from exec_close_once [OF this, of "''SL''" 97 demo_exec_env] pnl show ?thesis
    using c by auto
qed

text \<open>
  C40. Confirming a semi-automatic signal always fails: the expiry is stored as a naive datetime and
  compared with an aware clock reading, so \<open>confirm_pending\<close> of a staged signal raises \<open>TypeError\<close>,
  after the signal was removed; over any run in semi-automatic mode no trade is ever opened and
  the broker is never called.
\<close>

theorem exec_semi_auto_never_trades:
  assumes "ex_mode ex = semi_auto" and "ex_pending ex = Map.empty" and "ex_open_trades ex = Map.empty"
    and "list_all aware_op ops" and "dt_off (xe_t0 env) \<noteq> None"
    and "ex_pending (snd (exec_run place reg ex ops)) pid \<noteq> None"
  shows "(let ex1 = snd (exec_run place reg ex ops) in
      ex_broker ex1 = ex_broker ex \<and> ex_open_trades ex1 = Map.empty
      \<and> fst (fst (confirm_pending place reg ex1 pid env)) = Inl TypeError
      \<and> ex_pending (snd (confirm_pending place reg ex1 pid env)) pid = None)"
proof -
  have "never_opened (ex_broker ex) ex"
    using assms(1-3) by (simp add: never_opened_def pending_naive_def)
  then have I: "never_opened (ex_broker ex) (snd (exec_run place reg ex ops))"
    using assms(4) by (rule never_opened_run)
  then show ?thesis
    using confirm_fails [of "snd (exec_run place reg ex ops)" env place reg pid] assms(5,6)
    by (simp add: never_opened_def Let_def)
qed

lemma exec_semi_auto_never_trades_witness:
  "(let ex1 = snd (exec_run paper_place default_registry (demo_executor semi_auto) [XSignal demo_btc_signal None demo_exec_env]) in
      ex_broker ex1 = ex_broker (demo_executor semi_auto) \<and> ex_open_trades ex1 = Map.empty
      \<and> fst (fst (confirm_pending paper_place default_registry ex1 ''o1'' demo_exec_env)) = Inl TypeError
      \<and> ex_pending (snd (confirm_pending paper_place default_registry ex1 ''o1'' demo_exec_env)) ''o1'' = None)"
  by (rule exec_semi_auto_never_trades)
    (simp_all add: handle_signal_def demo_evaluate stage_semi_auto_def Let_def, simp add: demo_exec_env_def utc_def)

end
