(* ===== verification/Interleaving.thy ===== *)
theory Interleaving
  imports Execution
begin

text \<open>
  The executor between its awaits (\<open>src/app/execution/executor.py\<close>).  \<open>handle_signal\<close> and \<open>confirm_pending\<close> give up control
  while an order is placed, and other calls of the same executor run in between: the engine handles the candles
  of its poller and the messages of its web socket in two tasks, and the dashboard closes and halts in a third.  A call that is
  waiting for the broker is a task with the attempts it still has; one call of the broker is one step.

  The lemmas show that a task that is not interrupted computes what \<open>handle_signal\<close> of the theory \<open>Execution\<close> does, by how much the
  daily cap is missed when several tasks wait at once, and what a halt does to the tasks that wait.
\<close>

section \<open>Tasks\<close>

record exec_task =
  tk_signal :: signal
  tk_decision :: risk_decision
  tk_env :: exec_env
  tk_order :: order
  tk_calls :: "call_env list"

text \<open>A turn ends with the result of the call and its outputs, or with a task that waits.\<close>

type_synonym turn = "(trade option res \<times> exec_output list) + exec_task"

definition begin_fire :: "signal \<Rightarrow> risk_decision \<Rightarrow> exec_env \<Rightarrow> turn" where
  "begin_fire sg d env = (case market_order (xe_id env) sg (rd_quantity d) of
       Inl x \<Rightarrow> Inl (Inl x, [])
     | Inr ord \<Rightarrow> Inr \<lparr>tk_signal = sg, tk_decision = d, tk_env = env, tk_order = ord, tk_calls = map (xe_calls env) [0, 1, 2]\<rparr>)"

definition begin_signal :: "registry \<Rightarrow> 'b executor \<Rightarrow> signal \<Rightarrow> pyfloat option \<Rightarrow> exec_env \<Rightarrow> turn \<times> 'b executor" where
  "begin_signal reg ex sg spread env =
     (let (r, rm) = evaluate_risk reg (ex_risk ex) (dt_date (xe_t0 env)) sg spread;
          ex1 = ex\<lparr>ex_risk := rm\<rparr>
      in case r of
           Inl x \<Rightarrow> (Inl (Inl x, []), ex1)
         | Inr d \<Rightarrow>
             if \<not> rd_accepted d then (Inl (Inr None, [NotifyRiskReject (sg_symbol sg) (rd_reason d)]), ex1)
             else if ex_mode ex = semi_auto then
               (case stage_semi_auto ex1 sg d env of (out, ex2) \<Rightarrow> (Inl out, ex2))
             else (begin_fire sg d env, ex1))"

definition begin_confirm :: "'b executor \<Rightarrow> string \<Rightarrow> exec_env \<Rightarrow> turn \<times> 'b executor" where
  "begin_confirm ex pid env =
     (let ex1 = ex\<lparr>ex_pending := (ex_pending ex)(pid := None)\<rparr> in
      case ex_pending ex pid of
        None \<Rightarrow> (Inl (Inr None, []), ex1)
      | Some p \<Rightarrow>
          (case dt_gt (xe_t0 env) (pd_expires_at p) of
             Inl x \<Rightarrow> (Inl (Inl x, []), ex1)
           | Inr True \<Rightarrow> (Inl (Inr None, []), ex1)
           | Inr False \<Rightarrow> (begin_fire (pd_signal p) (pd_decision p) env, ex1)))"

text \<open>What \<open>_fire\<close> does when an order came back: the trade is built, registered and handed on.\<close>

definition settle :: "registry \<Rightarrow> 'b executor \<Rightarrow> exec_task \<Rightarrow> order \<Rightarrow> (trade option res \<times> exec_output list) \<times> 'b executor" where
  "settle reg ex tk placed =
     (let sg = tk_signal tk; env = tk_env tk in
      if o_status placed \<notin> {FILLED, SUBMITTED} then ((Inr None, []), ex)
      else case bind_res (get_instrument_in reg (sg_symbol sg)) (\<lambda>i.
             inst_pips i \<bar>fsub (or_else (filled_price placed) (sg_entry sg)) (sg_entry sg)\<bar>) of
        Inl x \<Rightarrow> ((Inl x, []), ex)
      | Inr slippage \<Rightarrow>
          let t = opened_trade (tk_order tk) placed sg (tk_decision tk) slippage env
          in ((Inr (Some t), [PersistTrade t, NotifyTradeOpen t]),
              ex\<lparr>ex_risk := register_trade_open (ex_risk ex) (dt_date (xe_now env)),
                 ex_open_trades := (ex_open_trades ex)(trade_id t \<mapsto> t)\<rparr>))"

text \<open>One attempt of \<open>_with_retry\<close>; the task waits again when it failed and was not the last.\<close>

definition task_turn :: "('b \<Rightarrow> order \<Rightarrow> call_env \<Rightarrow> order res \<times> 'b) \<Rightarrow> registry \<Rightarrow> 'b executor \<Rightarrow> exec_task
    \<Rightarrow> turn \<times> 'b executor" where
  "task_turn place reg ex tk = (case tk_calls tk of
       [] \<Rightarrow> (Inl (Inr None, [NotifyOrderFailed (sg_symbol (tk_signal tk)) RuntimeError]), ex)
     | e # es \<Rightarrow>
         (let (r, b) = place (ex_broker ex) (tk_order tk) e;
              ex1 = ex\<lparr>ex_broker := b\<rparr>;
              outcome = (case r of Inl x \<Rightarrow> Inl x
                         | Inr placed \<Rightarrow> if o_status placed = REJECTED then Inl RuntimeError else Inr placed)
          in case outcome of
               Inr placed \<Rightarrow> (case settle reg ex1 tk placed of (out, ex2) \<Rightarrow> (Inl out, ex2))
             | Inl x \<Rightarrow>
                 if es = [] then (Inl (Inr None, [NotifyOrderFailed (sg_symbol (tk_signal tk)) x]), ex1)
                 else (Inr (tk\<lparr>tk_calls := es\<rparr>), ex1)))"

lemma task_turn_waits:
  "task_turn place reg ex tk = (Inr tk', ex') \<Longrightarrow> \<exists>e es. tk_calls tk = e # es \<and> tk' = tk\<lparr>tk_calls := es\<rparr> \<and> es \<noteq> []
     \<and> ex_risk ex' = ex_risk ex \<and> ex_pending ex' = ex_pending ex \<and> ex_open_trades ex' = ex_open_trades ex \<and> ex_mode ex' = ex_mode ex"
  by (auto simp: task_turn_def Let_def split: list.splits prod.splits sum.splits if_splits)

text \<open>A task that is not interrupted.\<close>

function run_task :: "('b \<Rightarrow> order \<Rightarrow> call_env \<Rightarrow> order res \<times> 'b) \<Rightarrow> registry \<Rightarrow> 'b executor \<Rightarrow> exec_task
    \<Rightarrow> (trade option res \<times> exec_output list) \<times> 'b executor" where
  "run_task place reg ex tk = (case task_turn place reg ex tk of
       (Inl out, ex1) \<Rightarrow> (out, ex1)
     | (Inr tk1, ex1) \<Rightarrow> run_task place reg ex1 tk1)"
  by pat_completeness auto
termination
  by (relation "measure (\<lambda>(place, reg, ex, tk). length (tk_calls tk))") (auto dest!: sym [THEN task_turn_waits])

declare run_task.simps [simp del]

definition run_turn :: "('b \<Rightarrow> order \<Rightarrow> call_env \<Rightarrow> order res \<times> 'b) \<Rightarrow> registry \<Rightarrow> turn \<times> 'b executor
    \<Rightarrow> (trade option res \<times> exec_output list) \<times> 'b executor" where
  "run_turn place reg u = (case u of (Inl out, ex) \<Rightarrow> (out, ex) | (Inr tk, ex) \<Rightarrow> run_task place reg ex tk)"

section \<open>Without interruption\<close>

lemma run_task_attempts:
  assumes "tk_calls tk \<noteq> []"
  shows "run_task place reg ex tk = (case attempts place (ex_broker ex) (tk_order tk) (tk_calls tk) of
       (Inl x, b) \<Rightarrow> ((Inr None, [NotifyOrderFailed (sg_symbol (tk_signal tk)) x]), ex\<lparr>ex_broker := b\<rparr>)
     | (Inr placed, b) \<Rightarrow> settle reg (ex\<lparr>ex_broker := b\<rparr>) tk placed)"
  using assms
proof (induction "tk_calls tk" arbitrary: ex tk)
  case (Cons e es)
  note calls = Cons.hyps(2) [symmetric]
  obtain r b where r: "place (ex_broker ex) (tk_order tk) e = (r, b)" by fastforce
  let ?tk = "tk\<lparr>tk_calls := es\<rparr>"
  obtain q b' where q: "attempts place b (tk_order tk) es = (q, b')" by fastforce
  have same: "settle reg ex' ?tk placed = settle reg ex' tk placed" for ex' placed
    by (simp add: settle_def opened_trade_def Let_def split: sum.split)
  have IH: "es \<noteq> [] \<Longrightarrow> run_task place reg (ex\<lparr>ex_broker := b\<rparr>) ?tk = (case q of
       Inl x \<Rightarrow> ((Inr None, [NotifyOrderFailed (sg_symbol (tk_signal tk)) x]), ex\<lparr>ex_broker := b'\<rparr>)
     | Inr placed \<Rightarrow> settle reg (ex\<lparr>ex_broker := b'\<rparr>) tk placed)"
    using Cons.hyps(1) [of ?tk "ex\<lparr>ex_broker := b\<rparr>"] q same by (cases q) simp_all
  show ?case
    by (subst run_task.simps) (use q IH in \<open>auto simp: task_turn_def calls r Let_def split: sum.split prod.split\<close>)
qed simp

lemma run_begin_fire: "run_turn place reg (begin_fire sg d env, ex) = fire place reg ex sg d env"
proof (cases "market_order (xe_id env) sg (rd_quantity d)")
  case (Inr ord)
  then show ?thesis
    by (simp add: run_turn_def begin_fire_def run_task_attempts fire_def with_retry_def settle_def Let_def
        split: prod.split sum.split)
qed (simp add: run_turn_def begin_fire_def fire_def)

lemma run_begin_signal: "run_turn place reg (begin_signal reg ex sg spread env) = handle_signal place reg ex sg spread env"
  using run_begin_fire [of place reg sg _ env]
  by (auto simp: begin_signal_def handle_signal_def stage_semi_auto_def run_turn_def Let_def split: prod.split sum.split)

lemma run_begin_confirm: "run_turn place reg (begin_confirm ex pid env) = confirm_pending place reg ex pid env"
  using run_begin_fire [of place reg _ _ env]
  by (auto simp: begin_confirm_def confirm_pending_def run_turn_def Let_def split: option.split sum.split bool.split)

section \<open>Interleaved calls\<close>

text \<open>
  The events of an executor with its tasks: a signal or a confirmation arrives, a task gets a turn, or a call that never
  waits runs.  At most \<open>limit\<close> calls are in progress at once.
\<close>

datatype conc_op = CSignal signal "pyfloat option" exec_env | CConfirm string exec_env | CTurn nat | COther exec_op

fun never_waits :: "exec_op \<Rightarrow> bool" where
  "never_waits (XSignal sg spread env) \<longleftrightarrow> False"
| "never_waits (XConfirm pid env) \<longleftrightarrow> False"
| "never_waits op \<longleftrightarrow> True"

text \<open>The tasks after a turn: a new one waits at the end, and a turn that ends leaves its place.\<close>

definition add_task :: "turn \<Rightarrow> exec_task list \<Rightarrow> exec_output list \<times> exec_task list" where
  "add_task u ts = (case u of Inl out \<Rightarrow> (snd out, ts) | Inr tk \<Rightarrow> ([], ts @ [tk]))"

definition put_task :: "nat \<Rightarrow> turn \<Rightarrow> exec_task list \<Rightarrow> exec_output list \<times> exec_task list" where
  "put_task i u ts = (case u of Inl out \<Rightarrow> (snd out, take i ts @ drop (Suc i) ts) | Inr tk \<Rightarrow> ([], ts[i := tk]))"

inductive conc_step :: "('b \<Rightarrow> order \<Rightarrow> call_env \<Rightarrow> order res \<times> 'b) \<Rightarrow> registry \<Rightarrow> nat
    \<Rightarrow> 'b executor \<times> exec_task list \<Rightarrow> conc_op \<Rightarrow> exec_output list \<Rightarrow> 'b executor \<times> exec_task list \<Rightarrow> bool"
  for place :: "'b \<Rightarrow> order \<Rightarrow> call_env \<Rightarrow> order res \<times> 'b" and reg :: registry and limit :: nat where
  signal_arrives: "length ts < limit \<Longrightarrow> begin_signal reg ex sg spread env = (u, ex') \<Longrightarrow> add_task u ts = (outs, ts')
    \<Longrightarrow> conc_step place reg limit (ex, ts) (CSignal sg spread env) outs (ex', ts')"
| confirmed: "length ts < limit \<Longrightarrow> dt_off (xe_t0 env) \<noteq> None \<Longrightarrow> begin_confirm ex pid env = (u, ex') \<Longrightarrow> add_task u ts = (outs, ts')
    \<Longrightarrow> conc_step place reg limit (ex, ts) (CConfirm pid env) outs (ex', ts')"
| task_turns: "i < length ts \<Longrightarrow> task_turn place reg ex (ts ! i) = (u, ex') \<Longrightarrow> put_task i u ts = (outs, ts')
    \<Longrightarrow> conc_step place reg limit (ex, ts) (CTurn i) outs (ex', ts')"
| other_call: "never_waits op \<Longrightarrow> exec_step place reg ex op = (outs, ex')
    \<Longrightarrow> conc_step place reg limit (ex, ts) (COther op) outs (ex', ts)"

inductive conc_run :: "('b \<Rightarrow> order \<Rightarrow> call_env \<Rightarrow> order res \<times> 'b) \<Rightarrow> registry \<Rightarrow> nat \<Rightarrow> (conc_op \<Rightarrow> bool)
    \<Rightarrow> 'b executor \<times> exec_task list \<Rightarrow> exec_output list \<Rightarrow> 'b executor \<times> exec_task list \<Rightarrow> bool"
  for place :: "'b \<Rightarrow> order \<Rightarrow> call_env \<Rightarrow> order res \<times> 'b" and reg :: registry and limit :: nat
    and allowed :: "conc_op \<Rightarrow> bool" and c0 :: "'b executor \<times> exec_task list" where
  run_start: "conc_run place reg limit allowed c0 [] c0"
| run_step: "conc_run place reg limit allowed c0 outs c \<Longrightarrow> conc_step place reg limit c op outs' c' \<Longrightarrow> allowed op
    \<Longrightarrow> conc_run place reg limit allowed c0 (outs @ outs') c'"

lemma conc_run_trans:
  "conc_run place reg limit allowed c0 outs c \<Longrightarrow> conc_run place reg limit allowed' c outs' c' \<Longrightarrow>
     conc_run place reg limit (\<lambda>op. True) c0 (outs @ outs') c'"
proof -
  assume a: "conc_run place reg limit allowed c0 outs c" and b: "conc_run place reg limit allowed' c outs' c'"
  have "conc_run place reg limit (\<lambda>op. True) c0 outs c"
    using a by (induction rule: conc_run.induct) (auto intro: conc_run.intros)
  with b show ?thesis
    by (induction rule: conc_run.induct) (auto simp: append_assoc [symmetric] simp del: append_assoc intro: conc_run.intros)
qed

section \<open>The daily cap\<close>

lemma begin_fire_waits: "begin_fire sg d env = Inr tk \<Longrightarrow> tk_env tk = env \<and> tk_signal tk = sg \<and> tk_decision tk = d"
  by (auto simp: begin_fire_def split: sum.splits)

text \<open>The manager after a signal was looked at: the evaluation's, and it accepted when a task waits.\<close>

lemma begin_signal_risk:
  assumes "begin_signal reg ex sg spread env = (u, ex')"
  shows "ex_risk ex' = snd (gate_check reg (ex_risk ex) (sg, spread, dt_date (xe_t0 env), now'))"
    and "u = Inr tk \<Longrightarrow> fst (gate_check reg (ex_risk ex) (sg, spread, dt_date (xe_t0 env), now')) \<and> tk_env tk = env"
  using assms by (auto simp: begin_signal_def gate_check_def stage_semi_auto_def Let_def begin_fire_waits
      split: prod.splits sum.splits if_splits)

lemma begin_signal_pending:
  assumes "begin_signal reg ex sg spread env = (u, ex')" and "pending_naive ex"
  shows "pending_naive ex'"
  using assms by (auto simp: begin_signal_def stage_semi_auto_def pending_naive_def Let_def split: prod.splits sum.splits if_splits)

text \<open>A confirmation never waits: it fails before it places an order.\<close>

lemma begin_confirm_fails:
  assumes "pending_naive ex" and "dt_off (xe_t0 env) \<noteq> None" and "begin_confirm ex pid env = (u, ex')"
  shows "(\<exists>r. u = Inl (r, [])) \<and> ex' = ex\<lparr>ex_pending := (ex_pending ex)(pid := None)\<rparr> \<and> pending_naive ex'"
  using assms by (auto simp: begin_confirm_def pending_naive_def dt_gt_def Let_def split: option.splits if_splits)

lemma settle_risk:
  assumes "settle reg ex tk placed = ((r, outs), ex')"
  shows "ex_pending ex' = ex_pending ex \<and> (ex_risk ex' = ex_risk ex \<and> ex_open_trades ex' = ex_open_trades ex \<and> outs = []
    \<or> ex_risk ex' = register_trade_open (ex_risk ex) (dt_date (xe_now (tk_env tk))) \<and> (\<exists>t. outs = [PersistTrade t, NotifyTradeOpen t]))"
  using assms by (auto simp: settle_def Let_def split: sum.splits if_splits)

lemma task_turn_ends:
  assumes "task_turn place reg ex tk = (Inl (r, outs), ex')"
  shows "ex_pending ex' = ex_pending ex
    \<and> (ex_risk ex' = ex_risk ex \<and> ex_open_trades ex' = ex_open_trades ex \<and> (\<forall>t. NotifyTradeOpen t \<notin> set outs)
    \<or> ex_risk ex' = register_trade_open (ex_risk ex) (dt_date (xe_now (tk_env tk))) \<and> (\<exists>t. outs = [PersistTrade t, NotifyTradeOpen t]))"
  using assms by (auto simp: task_turn_def Let_def split: list.splits prod.splits sum.splits if_splits dest!: settle_risk)

text \<open>Counted with the tasks that wait, the trades of a day exceed the cap by at most the calls in progress but one.\<close>

definition crowded :: "int \<Rightarrow> nat \<Rightarrow> 'b executor \<times> exec_task list \<Rightarrow> bool" where
  "crowded n limit c \<longleftrightarrow> 0 \<le> trades_today (ex_risk (fst c)) \<and> max_trades_per_day (rm_settings (ex_risk (fst c))) = n
     \<and> pending_naive (fst c) \<and> length (snd c) \<le> limit
     \<and> trades_today (ex_risk (fst c)) + int (length (snd c)) \<le> n - 1 + int limit"

lemma crowded_less:
  "crowded n limit (ex, ts) \<Longrightarrow> 0 \<le> trades_today (ex_risk ex') \<Longrightarrow> trades_today (ex_risk ex') \<le> trades_today (ex_risk ex)
     \<Longrightarrow> rm_settings (ex_risk ex') = rm_settings (ex_risk ex) \<Longrightarrow> pending_naive ex' \<Longrightarrow> length ts' \<le> length ts
     \<Longrightarrow> crowded n limit (ex', ts')"
  by (simp add: crowded_def)

lemma crowded_opened:
  "crowded n limit (ex, ts) \<Longrightarrow> ex_risk ex' = register_trade_open (ex_risk ex) now \<Longrightarrow> pending_naive ex' \<Longrightarrow> length ts' < length ts
     \<Longrightarrow> crowded n limit (ex', ts')"
  using rollover_count [of "ex_risk ex" now] by (simp add: crowded_def register_trade_open_def Let_def)

lemma other_call_risk:
  assumes "never_waits op" and "exec_step place reg ex op = (outs, ex')" and "0 \<le> trades_today (ex_risk ex)"
  shows "0 \<le> trades_today (ex_risk ex') \<and> trades_today (ex_risk ex') \<le> trades_today (ex_risk ex)
    \<and> rm_settings (ex_risk ex') = rm_settings (ex_risk ex) \<and> (\<forall>t. NotifyTradeOpen t \<notin> set outs)"
  using assms(1,2) rollover_count [OF assms(3)] assms(3)
  by (cases op) (auto simp: close_trade_def cancel_pending_def force_disable_def snapshot_def register_trade_close_def Let_def
      split: option.splits sum.splits)

lemma crowded_signal:
  assumes cr: "crowded n limit (ex, ts)" and starts: "begin_signal reg ex sg spread env = (u, ex')" and room: "length ts < limit"
  shows "crowded n limit (ex', snd (add_task u ts))"
proof -
  let ?q = "(sg, spread, dt_date (xe_t0 env), 0)"
  have risk: "ex_risk ex' = snd (gate_check reg (ex_risk ex) ?q)" by (rule begin_signal_risk(1) [OF starts])
  have naive: "pending_naive ex'" using begin_signal_pending [OF starts] cr by (simp add: crowded_def)
  have c: "0 \<le> trades_today (ex_risk ex')" "trades_today (ex_risk ex') \<le> trades_today (ex_risk ex)"
    "rm_settings (ex_risk ex') = rm_settings (ex_risk ex)"
    using rollover_count [of "ex_risk ex" "dt_date (xe_t0 env)"] cr by (simp_all add: risk gate_check_def crowded_def Let_def)
  show ?thesis
  proof (cases u)
    case (Inl out)
    then show ?thesis using crowded_less [OF cr c naive] by (simp add: add_task_def)
  next
    case (Inr tk)
    have "fst (gate_check reg (ex_risk ex) ?q)" using begin_signal_risk(2) [OF starts Inr] by blast
    then have "trades_today (ex_risk ex') < max_trades_per_day (rm_settings (ex_risk ex))"
      using risk_gate.check_room [of reg "ex_risk ex" ?q] risk by simp
    then show ?thesis using Inr cr c naive room by (simp add: crowded_def add_task_def)
  qed
qed

lemma crowded_turn:
  assumes cr: "crowded n limit (ex, ts)" and i: "i < length ts" and turn: "task_turn place reg ex (ts ! i) = (u, ex')"
  shows "crowded n limit (ex', snd (put_task i u ts))"
proof (cases u)
  case (Inl out)
  obtain r os where out: "out = (r, os)" by fastforce
  have len: "length (snd (put_task i u ts)) < length ts" using i Inl by (auto simp: put_task_def)
  note ends = task_turn_ends [of place reg ex "ts ! i" r os ex', OF turn [unfolded Inl out]]
  have "pending_naive ex'" using ends cr by (simp add: pending_naive_def crowded_def)
  with ends show ?thesis
    using crowded_opened [OF cr _ _ len, of ex'] crowded_less [OF cr, of ex' "snd (put_task i u ts)"] len cr by (auto simp: crowded_def)
next
  case (Inr tk)
  then show ?thesis
    using task_turn_waits [of place reg ex "ts ! i" tk ex'] turn cr by (auto simp: crowded_def put_task_def pending_naive_def)
qed

lemma crowded_step:
  assumes "crowded n limit c" and "conc_step place reg limit c op outs c'"
  shows "crowded n limit c'"
  using assms(2)
proof (cases rule: conc_step.cases)
  case (signal_arrives ts ex sg spread env u ex' ts')
  then show ?thesis using crowded_signal [of n limit ex ts reg sg spread env u ex'] assms(1) by simp
next
  case (confirmed ts env ex pid u ex' ts')
  have cr: "crowded n limit (ex, ts)" using assms(1) confirmed(1) by simp
  then have "\<exists>r. u = Inl (r, [])" "ex' = ex\<lparr>ex_pending := (ex_pending ex)(pid := None)\<rparr>" "pending_naive ex'"
    using begin_confirm_fails [OF _ confirmed(5,6)] by (auto simp: crowded_def)
  then show ?thesis using cr confirmed(3,7) by (auto simp: crowded_def add_task_def)
next
  case (task_turns i ts ex u ex' ts')
  then show ?thesis using crowded_turn [of n limit ex ts i place reg u ex'] assms(1) by simp
next
  case (other_call op' ex ex' ts)
  have cr: "crowded n limit (ex, ts)" using assms(1) other_call(1) by simp
  have "aware_op op'" using other_call(4) by (cases op') simp_all
  then have "pending_naive ex'"
    using pending_naive_step [of ex op' place reg] cr other_call(5) by (simp add: crowded_def)
  then show ?thesis
    using other_call_risk [OF other_call(4,5)] cr crowded_less [OF cr, of ex' ts] other_call(3) by (simp add: crowded_def)
qed

lemma crowded_run:
  "conc_run place reg limit allowed c0 outs c \<Longrightarrow> crowded n limit c0 \<Longrightarrow> crowded n limit c"
  by (induction rule: conc_run.induct) (auto intro: crowded_step)

section \<open>A halt\<close>

definition openings :: "exec_output list \<Rightarrow> nat" where
  "openings outs = length (filter (\<lambda>x. case x of NotifyTradeOpen t \<Rightarrow> True | _ \<Rightarrow> False) outs)"

lemma openings_append [simp]: "openings (xs @ ys) = openings xs + openings ys"
  by (simp add: openings_def)

lemma openings_none: "(\<And>t. NotifyTradeOpen t \<notin> set outs) \<Longrightarrow> openings outs = 0"
  by (auto simp: openings_def filter_empty_conv split: exec_output.split)

text \<open>Everything happens on one day.\<close>

fun conc_day :: "int \<Rightarrow> conc_op \<Rightarrow> bool" where
  "conc_day d (CSignal sg spread env) \<longleftrightarrow> dt_date (xe_t0 env) = d \<and> dt_date (xe_now env) = d"
| "conc_day d (CConfirm pid env) \<longleftrightarrow> dt_date (xe_now env) = d"
| "conc_day d (CTurn i) \<longleftrightarrow> True"
| "conc_day d (COther (XClose tid reason x env)) \<longleftrightarrow> dt_date (xe_now env) = d"
| "conc_day d (COther (XSnapshot now)) \<longleftrightarrow> now = d"
| "conc_day d (COther op) \<longleftrightarrow> True"

definition task_day :: "int \<Rightarrow> exec_task \<Rightarrow> bool" where
  "task_day d tk \<longleftrightarrow> dt_date (xe_now (tk_env tk)) = d"

definition halted_conf :: "int \<Rightarrow> 'b executor \<times> exec_task list \<Rightarrow> bool" where
  "halted_conf d c \<longleftrightarrow> at_day d (ex_risk (fst c)) \<and> rm_disabled (ex_risk (fst c)) \<and> pending_naive (fst c)
     \<and> list_all (task_day d) (snd c)"

lemma halted_open: "at_day d rm \<Longrightarrow> rm_disabled rm \<Longrightarrow> at_day d (register_trade_open rm d) \<and> rm_disabled (register_trade_open rm d)"
  using at_day_rollover [of d rm] by (simp add: register_trade_open_def Let_def) (simp add: at_day_def)

lemma halted_begin_signal:
  assumes "at_day d (ex_risk ex)" and "rm_disabled (ex_risk ex)" and "dt_date (xe_t0 env) = d"
  shows "begin_signal reg ex sg spread env = (Inl (Inr None, [NotifyRiskReject (sg_symbol sg) DISABLED]), ex)"
  using assms halted_rejects [of d "ex_risk ex" reg sg spread] by (simp add: begin_signal_def reject_def)

lemma halted_other:
  assumes "never_waits op" and "exec_step place reg ex op = (outs, ex')" and "conc_day d (COther op)"
    and "at_day d (ex_risk ex)" and "rm_disabled (ex_risk ex)"
  shows "at_day d (ex_risk ex') \<and> rm_disabled (ex_risk ex')"
  using assms at_day_rollover [OF assms(4)]
  by (cases op) (auto simp: close_trade_def cancel_pending_def force_disable_def snapshot_def register_trade_close_def at_day_def Let_def
      split: option.splits sum.splits)

lemma halted_turn:
  assumes h: "halted_conf d (ex, ts)" and i: "i < length ts" and turn: "task_turn place reg ex (ts ! i) = (u, ex')"
  shows "halted_conf d (ex', snd (put_task i u ts)) \<and> openings (fst (put_task i u ts)) + length (snd (put_task i u ts)) \<le> length ts"
proof -
  have h: "at_day d (ex_risk ex)" "rm_disabled (ex_risk ex)" "pending_naive ex" "list_all (task_day d) ts"
    using h by (simp_all add: halted_conf_def)
  then have day: "dt_date (xe_now (tk_env (ts ! i))) = d" using i by (simp add: list_all_length task_day_def)
  show ?thesis
  proof (cases u)
    case (Inl out)
    obtain r os where out: "out = (r, os)" by fastforce
    have "list_all (task_day d) (take i ts @ drop (Suc i) ts)"
      using h(4) by (auto simp: list_all_iff dest: in_set_takeD in_set_dropD)
    moreover note ends = task_turn_ends [of place reg ex "ts ! i" r os ex', OF turn [unfolded Inl out]]
    have "at_day d (ex_risk ex') \<and> rm_disabled (ex_risk ex')" using ends h(1,2) halted_open [of d "ex_risk ex"] day by auto
    moreover have "pending_naive ex'" using ends h(3) by (simp add: pending_naive_def)
    moreover have "openings os \<le> 1" using ends openings_none [of os] by (auto simp: openings_def)
    ultimately show ?thesis using Inl out i by (auto simp: halted_conf_def put_task_def)
  next
    case (Inr tk)
    then have w: "ex_risk ex' = ex_risk ex" "ex_pending ex' = ex_pending ex" "tk_env tk = tk_env (ts ! i)"
      using task_turn_waits [of place reg ex "ts ! i" tk ex'] turn by auto
    have "list_all (task_day d) (ts[i := tk])"
      using h(4) w(3) day by (auto simp: list_all_iff task_day_def dest!: set_update_subset_insert [THEN subsetD])
    then show ?thesis using Inr w h by (auto simp: halted_conf_def put_task_def pending_naive_def openings_def)
  qed
qed

text \<open>Each step of a halted executor opens no more trades than tasks end.\<close>

lemma halted_conf_step:
  assumes "halted_conf d c" and "conc_step place reg limit c op outs c'" and "conc_day d op"
  shows "halted_conf d c' \<and> openings outs + length (snd c') \<le> length (snd c)"
  using assms(2)
proof (cases rule: conc_step.cases)
  case (signal_arrives ts ex sg spread env u ex' ts')
  with assms(1,3) halted_begin_signal [of d ex env reg sg spread]
  show ?thesis by (auto simp: halted_conf_def add_task_def openings_def)
next
  case (confirmed ts env ex pid u ex' ts')
  with assms(1) begin_confirm_fails [of ex env pid u ex']
  show ?thesis by (auto simp: halted_conf_def add_task_def openings_def)
next
  case (task_turns i ts ex u ex' ts')
  then show ?thesis using halted_turn [of d ex ts i place reg u ex'] assms(1) by simp
next
  case (other_call op' ex ex' ts)
  have h: "at_day d (ex_risk ex)" "rm_disabled (ex_risk ex)" "pending_naive ex" "list_all (task_day d) ts"
    using assms(1) other_call(1) by (simp_all add: halted_conf_def)
  have "aware_op op'" using other_call(4) by (cases op') simp_all
  then have "pending_naive ex'" using pending_naive_step [of ex op' place reg] h(3) other_call(5) by simp
  moreover have "at_day d (ex_risk ex') \<and> rm_disabled (ex_risk ex')"
    using halted_other [OF other_call(4,5)] assms(3) other_call(2) h by blast
  moreover have "openings outs = 0"
    by (rule openings_none) (use other_call(4,5) in \<open>cases op', auto simp: close_trade_def cancel_pending_def Let_def split: option.splits sum.splits\<close>)
  ultimately show ?thesis using h other_call(1,3) by (simp add: halted_conf_def)
qed

lemma halted_conf_run:
  "conc_run place reg limit (conc_day d) c0 outs c \<Longrightarrow> halted_conf d c0 \<Longrightarrow>
     halted_conf d c \<and> openings outs + length (snd c) \<le> length (snd c0)"
proof (induction rule: conc_run.induct)
  case (run_step outs c op outs' c')
  then show ?case using halted_conf_step [of d c place reg limit op outs' c'] by force
qed (simp add: openings_def)


section \<open>Two signals at once\<close>

text \<open>A broker that fills every order, a manager that allows one trade a day, and two signals.\<close>

definition fills :: "unit \<Rightarrow> order \<Rightarrow> call_env \<Rightarrow> order res \<times> unit" where
  "fills b ord e = (Inr (ord\<lparr>o_status := FILLED\<rparr>), b)"

definition one_a_day :: settings where
  "one_a_day = default_settings\<lparr>max_trades_per_day := 1\<rparr>"

definition busy_executor :: "unit executor" where
  "busy_executor = new_executor () (new_risk_manager one_a_day 100000 0 0 19000) full_auto 90"

definition demo_decision :: risk_decision where
  "demo_decision = \<lparr>rd_accepted = True, rd_quantity = rnd (909 / 10), rd_risk_amount = fmul 100000 (rnd (1 / 100)), rd_reason = R_OK\<rparr>"

definition demo_task :: "string \<Rightarrow> exec_task" where
  "demo_task i = \<lparr>tk_signal = demo_btc_signal, tk_decision = demo_decision, tk_env = demo_exec_env\<lparr>xe_id := i\<rparr>,
     tk_order = (case market_order i demo_btc_signal (rnd (909 / 10)) of Inr ord \<Rightarrow> ord), tk_calls = [demo_env, demo_env, demo_env]\<rparr>"

lemma one_a_day_risk: "new_risk_manager one_a_day 100000 0 0 19000 = demo_risk\<lparr>rm_settings := one_a_day\<rparr>"
  by (simp add: demo_risk_def new_risk_manager_def)

lemma one_a_day_evaluate:
  "evaluate_risk default_registry (demo_risk\<lparr>rm_settings := one_a_day\<rparr>) 19000 demo_btc_signal None
     = (Inr demo_decision, demo_risk\<lparr>rm_settings := one_a_day\<rparr>)"
proof -
  let ?rm = "demo_risk\<lparr>rm_settings := one_a_day\<rparr>"
  have roll: "maybe_rollover ?rm 19000 = ?rm" by (rule rollover_same_day) (simp add: now_date_def)
  have may: "may_trade ?rm" by (simp add: may_trade_def one_a_day_def daily_loss_limit_amount_def Let_def fl_eval)
  have "size_position default_registry ?rm demo_btc_signal = size_position default_registry demo_risk demo_btc_signal"
    by (simp add: size_position_def one_a_day_def)
  then have fits: "signal_fits default_registry ?rm demo_btc_signal None (rnd (909 / 10))"
    by (simp add: signal_fits_def demo_size demo_risk_distance) (simp add: fl_eval)
  show ?thesis
    using may by (simp add: evaluate_risk_may_trade roll evaluate_size_may_accept [OF fits])
      (simp add: demo_decision_def one_a_day_def)
qed

lemma demo_market_order: "\<exists>ord. market_order i demo_btc_signal (rnd (909 / 10)) = Inr ord \<and> client_order_id ord = i \<and> filled_price ord = None"
  by (simp add: market_order_def mk_order_def) (simp add: fl_eval)

lemma busy_begin:
  assumes "ex_risk ex = demo_risk\<lparr>rm_settings := one_a_day\<rparr>" and "ex_mode ex = full_auto"
  shows "begin_signal default_registry ex demo_btc_signal None (demo_exec_env\<lparr>xe_id := i\<rparr>) = (Inr (demo_task i), ex)"
proof -
  have d: "dt_date (xe_t0 (demo_exec_env\<lparr>xe_id := i\<rparr>)) = 19000" using demo_exec_dates(1) by simp
  obtain ord where "market_order i demo_btc_signal (rnd (909 / 10)) = Inr ord" using demo_market_order by blast
  then have f: "begin_fire demo_btc_signal demo_decision (demo_exec_env\<lparr>xe_id := i\<rparr>) = Inr (demo_task i)"
    by (simp add: begin_fire_def demo_task_def demo_decision_def) (simp add: demo_exec_env_def)
  have same: "ex\<lparr>ex_risk := demo_risk\<lparr>rm_settings := one_a_day\<rparr>\<rparr> = ex" using assms(1) [symmetric] by simp
  show ?thesis
    using assms(2) by (simp add: begin_signal_def assms(1) d one_a_day_evaluate f same) (simp add: demo_decision_def)
qed

lemma demo_task_fills:
  "\<exists>t. task_turn fills default_registry ex (demo_task i) = (Inl (Inr (Some t), [PersistTrade t, NotifyTradeOpen t]),
     ex\<lparr>ex_risk := register_trade_open (ex_risk ex) 19000, ex_open_trades := (ex_open_trades ex)(i \<mapsto> t)\<rparr>)"
proof -
  obtain ord where ord: "market_order i demo_btc_signal (rnd (909 / 10)) = Inr ord" "client_order_id ord = i" "filled_price ord = None"
    using demo_market_order by blast
  have "dt_date (xe_now (demo_exec_env\<lparr>xe_id := i\<rparr>)) = 19000" using demo_exec_dates(2) by simp
  with ord show ?thesis
    by (simp add: task_turn_def demo_task_def fills_def settle_def or_else_def get_instrument_btcusd inst_pips_def
        opened_trade_def Let_def)
qed

definition busy_ops :: "conc_op list" where
  "busy_ops = [CSignal demo_btc_signal None (demo_exec_env\<lparr>xe_id := ''o1''\<rparr>), CSignal demo_btc_signal None (demo_exec_env\<lparr>xe_id := ''o2''\<rparr>)]"

lemma busy_waiting:
  "conc_run fills default_registry 2 (\<lambda>op. True) (busy_executor, []) [] (busy_executor, [demo_task ''o1'', demo_task ''o2''])"
proof -
  have b: "begin_signal default_registry busy_executor demo_btc_signal None (demo_exec_env\<lparr>xe_id := i\<rparr>) = (Inr (demo_task i), busy_executor)" for i
    by (rule busy_begin) (simp_all add: busy_executor_def new_executor_def one_a_day_risk)
  have s1: "conc_step fills default_registry 2 (busy_executor, []) (CSignal demo_btc_signal None (demo_exec_env\<lparr>xe_id := ''o1''\<rparr>)) []
      (busy_executor, [demo_task ''o1''])"
    by (rule signal_arrives [OF _ b]) (simp_all add: add_task_def)
  have s2: "conc_step fills default_registry 2 (busy_executor, [demo_task ''o1'']) (CSignal demo_btc_signal None (demo_exec_env\<lparr>xe_id := ''o2''\<rparr>)) []
      (busy_executor, [demo_task ''o1'', demo_task ''o2''])"
    by (rule signal_arrives [OF _ b]) (simp_all add: add_task_def)
  show ?thesis using run_step [OF run_step [OF run_start s1] s2] by simp
qed

lemma both_fill:
  "\<exists>outs ex'. conc_run fills default_registry 2 (conc_day 19000) (ex, [demo_task ''o1'', demo_task ''o2'']) outs (ex', [])
     \<and> openings outs = 2 \<and> ex_risk ex' = register_trade_open (register_trade_open (ex_risk ex) 19000) 19000"
proof -
  obtain t1 where t1: "task_turn fills default_registry ex (demo_task ''o1'') = (Inl (Inr (Some t1), [PersistTrade t1, NotifyTradeOpen t1]),
     ex\<lparr>ex_risk := register_trade_open (ex_risk ex) 19000, ex_open_trades := (ex_open_trades ex)(''o1'' \<mapsto> t1)\<rparr>)"
    using demo_task_fills by blast
  let ?ex = "ex\<lparr>ex_risk := register_trade_open (ex_risk ex) 19000, ex_open_trades := (ex_open_trades ex)(''o1'' \<mapsto> t1)\<rparr>"
  obtain t2 where t2: "task_turn fills default_registry ?ex (demo_task ''o2'') = (Inl (Inr (Some t2), [PersistTrade t2, NotifyTradeOpen t2]),
     ?ex\<lparr>ex_risk := register_trade_open (ex_risk ?ex) 19000, ex_open_trades := (ex_open_trades ?ex)(''o2'' \<mapsto> t2)\<rparr>)"
    using demo_task_fills by blast
  have s1: "conc_step fills default_registry 2 (ex, [demo_task ''o1'', demo_task ''o2'']) (CTurn 0) [PersistTrade t1, NotifyTradeOpen t1]
      (?ex, [demo_task ''o2''])"
    by (rule task_turns [where u = "Inl (Inr (Some t1), [PersistTrade t1, NotifyTradeOpen t1])"]) (simp_all add: t1 put_task_def)
  have s2: "conc_step fills default_registry 2 (?ex, [demo_task ''o2'']) (CTurn 0) [PersistTrade t2, NotifyTradeOpen t2]
      (?ex\<lparr>ex_risk := register_trade_open (ex_risk ?ex) 19000, ex_open_trades := (ex_open_trades ?ex)(''o2'' \<mapsto> t2)\<rparr>, [])"
    by (rule task_turns [where u = "Inl (Inr (Some t2), [PersistTrade t2, NotifyTradeOpen t2])"]) (simp_all add: t2 put_task_def)
  have "conc_run fills default_registry 2 (conc_day 19000) (ex, [demo_task ''o1'', demo_task ''o2''])
      (([] @ [PersistTrade t1, NotifyTradeOpen t1]) @ [PersistTrade t2, NotifyTradeOpen t2])
      (?ex\<lparr>ex_risk := register_trade_open (ex_risk ?ex) 19000, ex_open_trades := (ex_open_trades ?ex)(''o2'' \<mapsto> t2)\<rparr>, [])"
    by (rule run_step [OF run_step [OF run_start s1] s2]) simp_all
  then show ?thesis by (intro exI conjI) (assumption, simp_all add: openings_def)
qed


section \<open>Properties\<close>


text \<open>
  C18. The daily cap when calls interleave: from a fresh manager, whatever the broker does and in whatever order at most \<open>limit\<close> calls in
  progress, closes, halts and snapshots interleave, the trades of the day and the calls that wait for the broker together
  never exceed the cap by more than \<open>limit - 1\<close>.
\<close>

theorem interleaved_cap:
  assumes "conc_run place reg limit allowed (new_executor b (new_risk_manager s start balance mark now) mode ttl, []) outs (ex, ts)"
    and "1 \<le> max_trades_per_day s"
  shows "trades_today (ex_risk ex) + int (length ts) \<le> max_trades_per_day s - 1 + int limit"
proof -
  have "crowded (max_trades_per_day s) limit (new_executor b (new_risk_manager s start balance mark now) mode ttl, [])"
    using assms(2) by (simp add: crowded_def new_executor_def new_risk_manager_def pending_naive_def)
  from crowded_run [OF assms(1) this] show ?thesis by (simp add: crowded_def)
qed

text \<open>The bound is reached: with two calls at once, two trades are opened where one a day is allowed.\<close>

lemma interleaved_cap_witness:
  "\<exists>outs ex. conc_run fills default_registry 2 (\<lambda>op. True) (new_executor () (new_risk_manager one_a_day 100000 0 0 19000) full_auto 90, []) outs (ex, [])
     \<and> trades_today (ex_risk ex) = 2 \<and> max_trades_per_day one_a_day = 1
     \<and> trades_today (ex_risk ex) + int (length ([] :: exec_task list)) \<le> max_trades_per_day one_a_day - 1 + int 2"
proof -
  obtain outs ex where b: "conc_run fills default_registry 2 (conc_day 19000) (busy_executor, [demo_task ''o1'', demo_task ''o2'']) outs (ex, [])"
    and rm: "ex_risk ex = register_trade_open (register_trade_open (ex_risk busy_executor) 19000) 19000" using both_fill by blast
  have run: "conc_run fills default_registry 2 (\<lambda>op. True) (new_executor () (new_risk_manager one_a_day 100000 0 0 19000) full_auto 90, []) outs (ex, [])"
    using conc_run_trans [OF busy_waiting b] by (simp add: busy_executor_def)
  have "trades_today (ex_risk ex) = 2"
    by (simp add: rm busy_executor_def new_executor_def one_a_day_risk register_trade_open_def maybe_rollover_def now_date_def Let_def)
  moreover have "trades_today (ex_risk ex) + int (length ([] :: exec_task list)) \<le> max_trades_per_day one_a_day - 1 + int 2"
    by (rule interleaved_cap [OF run]) (simp add: one_a_day_def)
  ultimately show ?thesis using run by (intro exI [of _ outs] exI [of _ ex]) (simp add: one_a_day_def)
qed

text \<open>
  C19. What a halt stops: from the moment trading is disabled, on the rest of that day, whatever interleaves, no call starts to
  wait for the broker, and no more trades are opened than calls were waiting.
\<close>

theorem halt_lets_waiting_finish:
  assumes "conc_run place reg limit (conc_day d) (ex\<lparr>ex_risk := force_disable (ex_risk ex)\<rparr>, ts) outs (ex', ts')"
    and "at_day d (ex_risk ex)" and "pending_naive ex" and "list_all (task_day d) ts"
  shows "openings outs + length ts' \<le> length ts \<and> rm_disabled (ex_risk ex')"
proof -
  have "halted_conf d (ex\<lparr>ex_risk := force_disable (ex_risk ex)\<rparr>, ts)"
    using assms(2-4) by (simp add: halted_conf_def force_disable_def at_day_def pending_naive_def)
  from halted_conf_run [OF assms(1) this] show ?thesis by (simp add: halted_conf_def)
qed

text \<open>The waiting calls do open their trades: two of them after the halt.\<close>

lemma halt_lets_waiting_finish_witness:
  "\<exists>outs ex'. conc_run fills default_registry 2 (conc_day 19000)
       (busy_executor\<lparr>ex_risk := force_disable (ex_risk busy_executor)\<rparr>, [demo_task ''o1'', demo_task ''o2'']) outs (ex', [])
     \<and> openings outs = 2 \<and> rm_disabled (ex_risk ex')"
proof -
  obtain outs ex' where r: "conc_run fills default_registry 2 (conc_day 19000)
       (busy_executor\<lparr>ex_risk := force_disable (ex_risk busy_executor)\<rparr>, [demo_task ''o1'', demo_task ''o2'']) outs (ex', [])"
    and o: "openings outs = 2" using both_fill by blast
  have day: "dt_date (xe_now (demo_exec_env\<lparr>xe_id := i\<rparr>)) = 19000" for i using demo_exec_dates(2) by simp
  have "rm_disabled (ex_risk ex')"
    using halt_lets_waiting_finish [OF r]
    by (simp add: busy_executor_def new_executor_def one_a_day_risk at_day_def pending_naive_def task_day_def demo_task_def day)
  with r o show ?thesis by blast
qed

end
