(* ===== verification/Stats.thy ===== *)
theory Stats
  imports Models
begin

text \<open>
  The statistics of \<open>src/app/analytics/stats.py\<close>: \<open>SessionStats\<close> and \<open>TradeStatsAggregator\<close>.  The two
  dictionaries of buckets are maps; the order in which they print is left out.

  The lemmas show: the summary raises once a trade was recorded, the equity curve is the running sum of the recorded profits, the buckets of the
  sessions and of the symbols partition the recorded trades, and what the maximal drawdown is.
\<close>

section \<open>Model\<close>

record session_stats =
  ss_trades :: nat
  ss_wins :: nat
  ss_losses :: nat
  ss_pnl :: pyfloat

definition empty_stats :: session_stats where
  "empty_stats = \<lparr>ss_trades = 0, ss_wins = 0, ss_losses = 0, ss_pnl = 0\<rparr>"

definition ss_winrate :: "session_stats \<Rightarrow> pyfloat" where
  "ss_winrate s = (if ss_trades s \<noteq> 0 then fquot (of_nat (ss_wins s)) (of_nat (ss_trades s)) else 0)"

record aggregator =
  ag_starting_balance :: pyfloat
  ag_equity :: "pyfloat list"
  ag_trades :: "trade list"
  ag_by_session :: "string \<rightharpoonup> session_stats"
  ag_by_symbol :: "string \<rightharpoonup> session_stats"

definition new_aggregator :: "pyfloat \<Rightarrow> aggregator" where
  "new_aggregator start = \<lparr>ag_starting_balance = start, ag_equity = [start], ag_trades = [],
     ag_by_session = Map.empty, ag_by_symbol = Map.empty\<rparr>"

definition bump :: "session_stats \<Rightarrow> trade \<Rightarrow> session_stats" where
  "bump s t =
     (let pnl = pnl_or_0 t;
          win = (t_status t = CLOSED_WIN \<or> pnl > 0);
          loss = (\<not> win \<and> (t_status t = CLOSED_LOSS \<or> pnl < 0))
      in \<lparr>ss_trades = ss_trades s + 1, ss_wins = (if win then ss_wins s + 1 else ss_wins s),
          ss_losses = (if loss then ss_losses s + 1 else ss_losses s), ss_pnl = fadd (ss_pnl s) pnl\<rparr>)"

text \<open>\<open>defaultdict(SessionStats)\<close>: a missing bucket starts empty.\<close>

definition bump_in :: "(string \<rightharpoonup> session_stats) \<Rightarrow> string \<Rightarrow> trade \<Rightarrow> (string \<rightharpoonup> session_stats)" where
  "bump_in m k t = m(k \<mapsto> bump (case m k of None \<Rightarrow> empty_stats | Some s \<Rightarrow> s) t)"

definition record_trade :: "aggregator \<Rightarrow> trade \<Rightarrow> aggregator" where
  "record_trade a t =
     (if t_status t = T_OPEN then a
      else a\<lparr>ag_trades := ag_trades a @ [t],
             ag_equity := ag_equity a @ [fadd (last (ag_equity a)) (pnl_or_0 t)],
             ag_by_session := bump_in (ag_by_session a) (t_session t) t,
             ag_by_symbol := bump_in (ag_by_symbol a) (t_symbol t) t\<rparr>)"

definition ag_total_pnl :: "aggregator \<Rightarrow> pyfloat" where
  "ag_total_pnl a = (if ag_equity a \<noteq> [] then fsub (last (ag_equity a)) (ag_starting_balance a) else 0)"

definition ag_winrate :: "aggregator \<Rightarrow> pyfloat" where
  "ag_winrate a = (if ag_trades a = [] then 0
     else fquot (of_nat (length (filter (\<lambda>t. pnl_or_0 t > 0) (ag_trades a)))) (of_nat (length (ag_trades a))))"

definition drawdown_step :: "pyfloat \<times> pyfloat \<Rightarrow> pyfloat \<Rightarrow> pyfloat \<times> pyfloat" where
  "drawdown_step pd v = (let peak = max (fst pd) v;
       dd = (if peak \<noteq> 0 then fquot (fsub peak v) peak else 0)
     in (peak, max (snd pd) dd))"

definition ag_max_drawdown :: "aggregator \<Rightarrow> pyfloat" where
  "ag_max_drawdown a = snd (foldl drawdown_step (ag_starting_balance a, 0) (ag_equity a))"

record stats_summary =
  su_trades :: nat
  su_winrate :: pyfloat
  su_total_pnl :: pyfloat
  su_final_equity :: pyfloat
  su_max_drawdown_pct :: pyfloat
  su_by_session :: "string \<rightharpoonup> session_stats"
  su_by_symbol :: "string \<rightharpoonup> session_stats"

text \<open>The buckets are read by \<open>v.__dict__\<close>, one after the other.\<close>

definition bucket_dicts :: "(string \<rightharpoonup> session_stats) \<Rightarrow> (string \<rightharpoonup> session_stats) res" where
  "bucket_dicts m = (if dom m = {} then Inr Map.empty else slots_dict m)"

definition ag_summary :: "aggregator \<Rightarrow> stats_summary res" where
  "ag_summary a =
     bind_res (bucket_dicts (ag_by_session a)) (\<lambda>by_session.
     bind_res (bucket_dicts (ag_by_symbol a)) (\<lambda>by_symbol.
     Inr \<lparr>su_trades = length (ag_trades a), su_winrate = ag_winrate a, su_total_pnl = ag_total_pnl a,
          su_final_equity = (if ag_equity a \<noteq> [] then last (ag_equity a) else ag_starting_balance a),
          su_max_drawdown_pct = ag_max_drawdown a, su_by_session = by_session, su_by_symbol = by_symbol\<rparr>))"

section \<open>The recorded trades\<close>

definition record_all :: "aggregator \<Rightarrow> trade list \<Rightarrow> aggregator" where
  "record_all a ts = foldl record_trade a ts"

definition not_open :: "trade list \<Rightarrow> trade list" where
  "not_open ts = filter (\<lambda>t. t_status t \<noteq> T_OPEN) ts"

definition running :: "pyfloat \<Rightarrow> pyfloat list \<Rightarrow> pyfloat list" where
  "running x ps = map (\<lambda>n. foldl fadd x (take n ps)) [0..<Suc (length ps)]"

lemma running_snoc: "running x (ps @ [p]) = running x ps @ [fadd (foldl fadd x ps) p]"
  by (simp add: running_def)

lemma last_running [simp]: "last (running x ps) = foldl fadd x ps"
  by (simp add: running_def)

lemma running_Nil [simp]: "running x [] = [x]"
  by (simp add: running_def)

text \<open>What one bucket holds for a list of trades.\<close>

definition is_win :: "trade \<Rightarrow> bool" where
  "is_win t \<longleftrightarrow> t_status t = CLOSED_WIN \<or> pnl_or_0 t > 0"

definition is_loss :: "trade \<Rightarrow> bool" where
  "is_loss t \<longleftrightarrow> \<not> is_win t \<and> (t_status t = CLOSED_LOSS \<or> pnl_or_0 t < 0)"

definition stats_of :: "trade list \<Rightarrow> session_stats" where
  "stats_of ts = \<lparr>ss_trades = length ts, ss_wins = length (filter is_win ts), ss_losses = length (filter is_loss ts),
     ss_pnl = foldl fadd 0 (map pnl_or_0 ts)\<rparr>"

lemma bump_stats_of: "bump (stats_of ts) t = stats_of (ts @ [t])"
  by (simp add: bump_def stats_of_def is_win_def is_loss_def Let_def)

definition buckets :: "(trade \<Rightarrow> string) \<Rightarrow> trade list \<Rightarrow> (string \<rightharpoonup> session_stats)" where
  "buckets key ts = (\<lambda>k. if k \<in> key ` set ts then Some (stats_of (filter (\<lambda>t. key t = k) ts)) else None)"

lemma empty_stats_of: "empty_stats = stats_of []"
  by (simp add: empty_stats_def stats_of_def)

lemma bump_in_buckets: "bump_in (buckets key ts) (key t) t = buckets key (ts @ [t])"
proof
  fix k
  have none: "filter (\<lambda>x. key x = key t) ts = []" if "key t \<notin> key ` set ts"
    using that by (auto simp: filter_empty_conv intro: rev_image_eqI)
  show "bump_in (buckets key ts) (key t) t k = buckets key (ts @ [t]) k"
    by (cases "k = key t"; cases "key t \<in> key ` set ts")
      (auto simp: bump_in_def buckets_def empty_stats_of bump_stats_of none)
qed

definition ag_of :: "pyfloat \<Rightarrow> trade list \<Rightarrow> aggregator" where
  "ag_of start ts = \<lparr>ag_starting_balance = start, ag_equity = running start (map pnl_or_0 ts), ag_trades = ts,
     ag_by_session = buckets t_session ts, ag_by_symbol = buckets t_symbol ts\<rparr>"

lemma new_aggregator_of: "new_aggregator start = ag_of start []"
  by (simp add: new_aggregator_def ag_of_def buckets_def fun_eq_iff)

lemma record_trade_of: "record_trade (ag_of start ts) t = ag_of start (ts @ not_open [t])"
  by (simp add: record_trade_def ag_of_def not_open_def running_snoc bump_in_buckets)

lemma record_all_of: "record_all (ag_of start ts) us = ag_of start (ts @ not_open us)"
  unfolding record_all_def
  by (induction us arbitrary: ts) (simp_all add: record_trade_of not_open_def)

lemma wins_losses_le: "length (filter is_win ts) + length (filter is_loss ts) \<le> length ts"
  by (induction ts) (auto simp: is_loss_def)

lemma summary_of:
  "ag_summary (ag_of start ts) =
     (if ts = [] then Inr \<lparr>su_trades = 0, su_winrate = 0, su_total_pnl = fsub start start, su_final_equity = start,
          su_max_drawdown_pct = ag_max_drawdown (ag_of start []), su_by_session = Map.empty, su_by_symbol = Map.empty\<rparr>
      else Inl AttributeError)"
proof -
  have "dom (buckets key ts) = key ` set ts" for key
    by (auto simp: buckets_def split: if_splits)
  then show ?thesis
    by (simp add: ag_summary_def bucket_dicts_def slots_dict_def ag_of_def ag_winrate_def ag_total_pnl_def)
qed

section \<open>Drawdown\<close>

text \<open>The peak up to a point of the curve, and the relative distance of the point from it.\<close>

definition peak_at :: "pyfloat \<Rightarrow> pyfloat list \<Rightarrow> nat \<Rightarrow> pyfloat" where
  "peak_at p vs n = Max (insert p (set (take (Suc n) vs)))"

definition dd_at :: "pyfloat \<Rightarrow> pyfloat list \<Rightarrow> nat \<Rightarrow> pyfloat" where
  "dd_at p vs n = fquot (fsub (peak_at p vs n) (vs ! n)) (peak_at p vs n)"

lemma Max_insert2: "finite A \<Longrightarrow> max (Max (insert p A)) v = Max (insert p (insert v A))"
  by (simp only: insert_commute [of p v A] Max_insert [OF finite.insertI insert_not_empty] max.commute)

lemma Max_insert_snoc: "max (Max (insert p (set vs))) v = Max (insert p (set (vs @ [v])))"
  by (simp only: Max_insert2 [OF finite_set]) simp

lemma drawdown_peak: "fst (foldl drawdown_step (p, d) vs) = Max (insert p (set vs))"
proof (induction vs rule: rev_induct)
  case (snoc v vs)
  then show ?case using Max_insert_snoc [of p vs v] by (simp add: drawdown_step_def Let_def del: set_append)
qed simp

lemma drawdown_snoc: "snd (foldl drawdown_step pd (vs @ [v])) =
   (let peak = max (fst (foldl drawdown_step pd vs)) v
    in max (snd (foldl drawdown_step pd vs)) (if peak \<noteq> 0 then fquot (fsub peak v) peak else 0))"
proof -
  have "foldl drawdown_step pd (vs @ [v]) = drawdown_step (foldl drawdown_step pd vs) v" by simp
  then show ?thesis by (simp only: drawdown_step_def [of "foldl drawdown_step pd vs" v] Let_def snd_conv)
qed

lemma drawdown_fold:
  assumes "0 < p"
  shows "snd (foldl drawdown_step (p, d) vs) = Max (insert d (dd_at p vs ` {..<length vs}))"
proof (induction vs rule: rev_induct)
  case (snoc v vs)
  have same: "dd_at p (vs @ [v]) n = dd_at p vs n" if "n < length vs" for n
    using that by (simp add: dd_at_def peak_at_def nth_append)
  let ?peak = "Max (insert p (set (vs @ [v])))"
  have "max (Max (insert p (set vs))) v = ?peak" by (rule Max_insert_snoc)
  moreover have "p \<le> ?peak" by (rule Max_ge) simp_all
  then have "?peak \<noteq> 0" using assms by linarith
  moreover have "dd_at p (vs @ [v]) (length vs) = fquot (fsub ?peak v) ?peak"
    by (simp add: dd_at_def peak_at_def)
  ultimately have step: "snd (foldl drawdown_step (p, d) (vs @ [v]))
      = max (Max (insert d (dd_at p vs ` {..<length vs}))) (dd_at p (vs @ [v]) (length vs))"
    unfolding drawdown_snoc drawdown_peak snoc Let_def by simp
  have "dd_at p (vs @ [v]) ` {..<length (vs @ [v])} = insert (dd_at p (vs @ [v]) (length vs)) (dd_at p vs ` {..<length vs})"
    using same by (auto simp: lessThan_Suc)
  then show ?case
    unfolding step by (simp only: Max_insert2 finite_imageI finite_lessThan)
qed simp

lemma dd_at_nonneg: "0 < p \<Longrightarrow> n < length vs \<Longrightarrow> 0 \<le> dd_at p vs n"
proof -
  assume p: "0 < p" and n: "n < length vs"
  have "vs ! n \<le> peak_at p vs n"
    unfolding peak_at_def using n by (intro Max_ge) (auto simp: take_Suc_conv_app_nth)
  moreover have "0 \<le> peak_at p vs n"
    using p unfolding peak_at_def by (meson Max_ge finite.insertI finite_set insertI1 less_le_trans less_imp_le)
  ultimately show ?thesis by (simp add: dd_at_def fquot_nonneg fsub_nonneg)
qed

section \<open>Properties\<close>

text \<open>
  What the aggregator holds after any trades were recorded: exactly the trades that are not open, the
  running sums of their profits as equity curve, and in the bucket of each session and of each symbol
  the counts and the profit of exactly the trades of that session or symbol.
\<close>

theorem stats_record_all:
  "record_all (new_aggregator start) ts = ag_of start (not_open ts)"
  unfolding new_aggregator_of record_all_of by simp

text \<open>
  C34. The summary exists only while nothing was recorded: as soon as one trade that is not open was recorded, there is a bucket,
  and reading it by \<open>__dict__\<close> raises, since the buckets are instances of a dataclass with slots.
\<close>

theorem stats_summary_fails:
  "ag_summary (record_all (new_aggregator start) ts) =
     (if not_open ts = [] then Inr \<lparr>su_trades = 0, su_winrate = 0, su_total_pnl = fsub start start, su_final_equity = start,
          su_max_drawdown_pct = ag_max_drawdown (new_aggregator start), su_by_session = Map.empty, su_by_symbol = Map.empty\<rparr>
      else Inl AttributeError)"
  unfolding new_aggregator_of record_all_of by (simp add: summary_of)

text \<open>
  The maximal drawdown of a curve with a positive start is the largest relative distance of a point
  from the peak before it, and at least zero.
\<close>

theorem stats_max_drawdown:
  assumes "0 < start"
  shows "(let a = record_all (new_aggregator start) ts in
      ag_max_drawdown a = Max (insert 0 (dd_at start (ag_equity a) ` {..<length (ag_equity a)})) \<and> 0 \<le> ag_max_drawdown a)"
proof -
  let ?a = "record_all (new_aggregator start) ts"
  have "ag_starting_balance ?a = start" unfolding new_aggregator_of record_all_of by (simp add: ag_of_def)
  then have "ag_max_drawdown ?a = Max (insert 0 (dd_at start (ag_equity ?a) ` {..<length (ag_equity ?a)}))"
    using drawdown_fold [OF assms, of 0 "ag_equity ?a"] by (simp add: ag_max_drawdown_def)
  moreover have "0 \<le> Max (insert 0 (dd_at start (ag_equity ?a) ` {..<length (ag_equity ?a)}))"
    by (rule Max_ge) simp_all
  ultimately show ?thesis by (simp add: Let_def)
qed

lemma stats_max_drawdown_witness:
  "(let a = record_all (new_aggregator 100000) [] in
      ag_max_drawdown a = Max (insert 0 (dd_at 100000 (ag_equity a) ` {..<length (ag_equity a)})) \<and> 0 \<le> ag_max_drawdown a)"
  by (rule stats_max_drawdown) simp

end
