(* ===== verification/Runner.thy ===== *)
theory Runner
  imports Strategy
begin

text \<open>
  The stand-alone backtest of \<open>src/app/backtesting/runner.py\<close>: one position at a time, a stop that is
  trailed to the entry, a fixed target of 0.1%, and the report.  The loop takes the strategy as a
  function, so that its lemmas hold for every \<open>signal_source\<close>; \<open>run_backtest\<close> uses the SMC strategy.
  The rows of the CSV file are in \<open>Csv_Loading\<close>, the printed report and \<open>main\<close> in \<open>Reports\<close>.

  The lemmas show: the trades are closed, do not overlap and match the signals one to one, how far a
  trade can go below its stop, and what the report counts.
\<close>

section \<open>Types\<close>

record bt_trade =
  bt_entry_index :: int
  bt_entry_time :: py_datetime
  bt_entry_price :: pyfloat
  bt_direction :: signal_direction
  bt_sl :: pyfloat
  bt_tp :: pyfloat
  bt_exit_index :: "int option"
  bt_exit_time :: "py_datetime option"
  bt_exit_price :: "pyfloat option"
  bt_exit_reason :: string
  bt_pnl :: pyfloat
  bt_rr_ratio :: pyfloat
  bt_confidence :: pyfloat
  bt_tags :: "string list"

record bt_result =
  br_symbol :: string
  br_timeframe :: string
  br_min_confluence :: int
  br_total_bars :: nat
  br_signals_generated :: nat
  br_trades_executed :: nat
  br_wins :: nat
  br_losses :: nat
  br_win_rate :: pyfloat
  br_net_pnl :: pyfloat
  br_gross_profit :: pyfloat
  br_gross_loss :: pyfloat
  br_profit_factor :: pyfloat
  br_max_drawdown :: pyfloat
  br_avg_rr :: pyfloat
  br_avg_pnl :: pyfloat
  br_trades :: "bt_trade list"

section \<open>One bar with an open trade\<close>

definition close_bt :: "bt_trade \<Rightarrow> int \<Rightarrow> candle \<Rightarrow> pyfloat \<Rightarrow> string \<Rightarrow> pyfloat \<Rightarrow> bt_trade" where
  "close_bt t idx c price reason pnl = t\<lparr>bt_exit_index := Some idx, bt_exit_time := Some (c_timestamp c),
     bt_exit_price := Some price, bt_exit_reason := reason, bt_pnl := pnl\<rparr>"

text \<open>\<open>Inl\<close>: the trade was closed; \<open>Inr\<close>: it stays open, with its stop.  The entry of a signal is positive, so
  the quotients are defined.\<close>

definition manage_long :: "bt_trade \<Rightarrow> int \<Rightarrow> candle \<Rightarrow> bt_trade + bt_trade" where
  "manage_long t idx c =
     (let ep = bt_entry_price t; cur_profit_pct = fquot (fsub (c_close c) ep) ep in
      if cur_profit_pct \<ge> rnd (1 / 1000) then
        (let price = fmul ep (rnd (1001 / 1000)) in Inl (close_bt t idx c price ''TARGET_0.1%'' (fsub price ep)))
      else
        let t1 = (if cur_profit_pct \<ge> rnd (5 / 10000) then t\<lparr>bt_sl := max (bt_sl t) ep\<rparr> else t)
        in if c_low c \<le> bt_sl t1 then Inl (close_bt t1 idx c (bt_sl t1) ''SL'' (fsub (bt_sl t1) ep))
           else Inr t1)"

definition manage_short :: "bt_trade \<Rightarrow> int \<Rightarrow> candle \<Rightarrow> bt_trade + bt_trade" where
  "manage_short t idx c =
     (let ep = bt_entry_price t; cur_profit_pct = fquot (fsub ep (c_close c)) ep in
      if cur_profit_pct \<ge> rnd (1 / 1000) then
        (let price = fmul ep (rnd (999 / 1000)) in Inl (close_bt t idx c price ''TARGET_0.1%'' (fsub ep price)))
      else
        let t1 = (if cur_profit_pct \<ge> rnd (5 / 10000) then t\<lparr>bt_sl := min (bt_sl t) ep\<rparr> else t)
        in if c_high c \<ge> bt_sl t1 then Inl (close_bt t1 idx c (bt_sl t1) ''SL'' (fsub ep (bt_sl t1)))
           else Inr t1)"

definition manage :: "bt_trade \<Rightarrow> int \<Rightarrow> candle \<Rightarrow> bt_trade + bt_trade" where
  "manage t idx c = (if bt_direction t = LONG then manage_long t idx c else manage_short t idx c)"

section \<open>The loop\<close>

record 's runner =
  rn_strategy :: 's
  rn_trades :: "bt_trade list"
  rn_open :: "bt_trade option"
  rn_signals :: nat
  rn_last_entry :: int

definition new_runner :: "'s \<Rightarrow> 's runner" where
  "new_runner st = \<lparr>rn_strategy = st, rn_trades = [], rn_open = None, rn_signals = 0, rn_last_entry = - 9999\<rparr>"

definition open_bt :: "int \<Rightarrow> candle \<Rightarrow> signal \<Rightarrow> bt_trade" where
  "open_bt idx c sg = \<lparr>bt_entry_index = idx, bt_entry_time = c_timestamp c, bt_entry_price = sg_entry sg,
     bt_direction = sg_direction sg, bt_sl = sg_sl sg, bt_tp = sg_tp sg, bt_exit_index = None, bt_exit_time = None,
     bt_exit_price = None, bt_exit_reason = [], bt_pnl = 0, bt_rr_ratio = 0, bt_confidence = sg_confidence sg,
     bt_tags = sg_tags sg\<rparr>"

definition manage_bar :: "'s runner \<Rightarrow> int \<Rightarrow> candle \<Rightarrow> 's runner" where
  "manage_bar r idx c = (case rn_open r of
       None \<Rightarrow> r
     | Some t \<Rightarrow> (case manage t idx c of
           Inl t1 \<Rightarrow> r\<lparr>rn_trades := rn_trades r @ [t1], rn_open := None\<rparr>
         | Inr t1 \<Rightarrow> r\<lparr>rn_open := Some t1\<rparr>))"

text \<open>An exception of the strategy is printed and counts as no signal.\<close>

definition enter_bar :: "('s \<Rightarrow> candle \<Rightarrow> signal option res \<times> 's) \<Rightarrow> int \<Rightarrow> 's runner \<Rightarrow> int \<Rightarrow> candle \<Rightarrow> 's runner" where
  "enter_bar next_signal min_confluence r idx c =
     (if rn_open r = None \<and> \<not> idx - rn_last_entry r < 3 then
        (case next_signal (rn_strategy r) c of
           (Inr (Some sg), st) \<Rightarrow>
             if sg_confidence sg \<ge> fquot (of_int min_confluence) 100
             then r\<lparr>rn_strategy := st, rn_signals := rn_signals r + 1, rn_last_entry := idx,
                    rn_open := Some (open_bt idx c sg)\<rparr>
             else r\<lparr>rn_strategy := st\<rparr>
         | (_, st) \<Rightarrow> r\<lparr>rn_strategy := st\<rparr>)
      else r)"

primrec run_bars :: "('s \<Rightarrow> candle \<Rightarrow> signal option res \<times> 's) \<Rightarrow> int \<Rightarrow> 's runner \<Rightarrow> int \<Rightarrow> candle list \<Rightarrow> 's runner" where
  "run_bars next_signal min_confluence r idx [] = r"
| "run_bars next_signal min_confluence r idx (c # cs) =
     run_bars next_signal min_confluence (enter_bar next_signal min_confluence (manage_bar r idx c) idx c) (idx + 1) cs"

text \<open>The trade that is still open after the last bar.\<close>

definition finish_run :: "'s runner \<Rightarrow> candle list \<Rightarrow> bt_trade list" where
  "finish_run r candles = (case rn_open r of
       None \<Rightarrow> rn_trades r
     | Some t \<Rightarrow> let c = last candles; price = c_close c in
         rn_trades r @ [close_bt t (int (length candles) - 1) c price ''END_DATA''
           (if bt_direction t = LONG then fsub price (bt_entry_price t) else fsub (bt_entry_price t) price)])"

section \<open>The report\<close>

definition bt_rr :: "bt_trade \<Rightarrow> pyfloat" where
  "bt_rr t = (let risk = \<bar>fsub (bt_entry_price t) (bt_sl t)\<bar> in if risk = 0 then 0 else fquot \<bar>bt_pnl t\<bar> risk)"

definition abs_drawdown_step :: "pyfloat \<times> pyfloat \<Rightarrow> pyfloat \<Rightarrow> pyfloat \<times> pyfloat" where
  "abs_drawdown_step pd v = (let peak = (if v > fst pd then v else fst pd); dd = fsub peak v
     in (peak, if dd > snd pd then dd else snd pd))"

definition equity_points :: "pyfloat list \<Rightarrow> pyfloat list" where
  "equity_points ps = foldl (\<lambda>es p. es @ [fadd (last es) p]) [0] ps"

definition report :: "string \<Rightarrow> string \<Rightarrow> int \<Rightarrow> nat \<Rightarrow> nat \<Rightarrow> bt_trade list \<Rightarrow> bt_result" where
  "report symb tf min_confluence bars signals trades =
     (let n = length trades;
          pnls = map bt_pnl trades;
          wins = filter (\<lambda>t. bt_pnl t > 0) trades;
          losses = filter (\<lambda>t. bt_pnl t \<le> 0) trades;
          gross_profit = fsum (filter (\<lambda>p. p > 0) pnls);
          gross_loss = \<bar>fsum (filter (\<lambda>p. p \<le> 0) pnls)\<bar>;
          net_pnl = fsum pnls;
          per_trade = (\<lambda>x. if trades \<noteq> [] then fquot x (of_nat n) else 0);
          max_dd = snd (foldl abs_drawdown_step (0, 0) (equity_points pnls))
      in \<lparr>br_symbol = symb, br_timeframe = tf, br_min_confluence = min_confluence, br_total_bars = bars,
          br_signals_generated = signals, br_trades_executed = n, br_wins = length wins, br_losses = length losses,
          br_win_rate = fround 4 (per_trade (of_nat (length wins))), br_net_pnl = fround 4 net_pnl,
          br_gross_profit = fround 4 gross_profit, br_gross_loss = fround 4 gross_loss,
          br_profit_factor = (if gross_loss > 0 then fround 4 (fquot gross_profit gross_loss)
             else if gross_profit > 0 then 9999 else fround 4 0),
          br_max_drawdown = fround 4 max_dd, br_avg_rr = fround 4 (per_trade (fsum (map bt_rr trades))),
          br_avg_pnl = fround 4 (per_trade net_pnl), br_trades = trades\<rparr>)"

definition run_backtest :: "registry \<Rightarrow> candle list \<Rightarrow> string \<Rightarrow> string \<Rightarrow> int \<Rightarrow> bt_result res" where
  "run_backtest reg candles symb tf min_confluence =
     (if candles = [] then Inl ValueError
      else bind_res (new_strategy reg symb tf (new_session_filter 7 11 14 17) (rnd (1 / 1000)) (rnd (2 / 1000))) (\<lambda>st.
        let r = run_bars smc_next min_confluence (new_runner (st\<lparr>st_min_confluence := min_confluence\<rparr>)) 0 candles
        in Inr (report symb tf min_confluence (length candles) (rn_signals r) (finish_run r candles))))"

section \<open>Bookkeeping of the loop\<close>

definition all_trades :: "'s runner \<Rightarrow> bt_trade list" where
  "all_trades r = rn_trades r @ (case rn_open r of None \<Rightarrow> [] | Some t \<Rightarrow> [t])"

definition follows :: "bt_trade \<Rightarrow> bt_trade \<Rightarrow> bool" where
  "follows a b \<longleftrightarrow> bt_entry_index a + 3 \<le> bt_entry_index b
     \<and> (case bt_exit_index a of None \<Rightarrow> False | Some i \<Rightarrow> i \<le> bt_entry_index b)"

definition closed_before :: "int \<Rightarrow> bt_trade \<Rightarrow> bool" where
  "closed_before n t \<longleftrightarrow> (case bt_exit_index t of None \<Rightarrow> False | Some i \<Rightarrow> bt_entry_index t \<le> i \<and> i < n)
     \<and> bt_exit_price t \<noteq> None"

text \<open>The state before bar \<open>n\<close>.\<close>

definition book_inv :: "int \<Rightarrow> 's runner \<Rightarrow> bool" where
  "book_inv n r \<longleftrightarrow> rn_signals r = length (all_trades r)
     \<and> list_all (closed_before n) (rn_trades r)
     \<and> list_all (\<lambda>(a, b). follows a b) (consec (all_trades r))
     \<and> (all_trades r \<noteq> [] \<longrightarrow> bt_entry_index (last (all_trades r)) = rn_last_entry r)
     \<and> (case rn_open r of None \<Rightarrow> True | Some t \<Rightarrow> bt_entry_index t < n \<and> bt_exit_index t = None)"

lemma book_inv_new: "book_inv 0 (new_runner st)"
  by (simp add: book_inv_def new_runner_def all_trades_def)

lemma closed_before_mono: "closed_before n t \<Longrightarrow> n \<le> m \<Longrightarrow> closed_before m t"
  by (auto simp: closed_before_def split: option.splits)

lemma manage_entry:
  "manage t idx c = Inr t1 \<Longrightarrow> bt_entry_index t1 = bt_entry_index t \<and> bt_exit_index t1 = bt_exit_index t"
  "manage t idx c = Inl t1 \<Longrightarrow> bt_entry_index t1 = bt_entry_index t \<and> bt_exit_index t1 = Some idx \<and> bt_exit_price t1 \<noteq> None"
  by (auto simp: manage_def manage_long_def manage_short_def close_bt_def Let_def split: if_splits)

lemma consec_replace_last:
  "list_all (\<lambda>(a, b). P a b) (consec (xs @ [x])) \<Longrightarrow> (\<And>a. P a x \<Longrightarrow> P a y) \<Longrightarrow> list_all (\<lambda>(a, b). P a b) (consec (xs @ [y]))"
  by (cases "xs = []") (auto simp: consec_snoc)

lemma follows_same_entry: "follows a t \<Longrightarrow> bt_entry_index t' = bt_entry_index t \<Longrightarrow> follows a t'"
  by (auto simp: follows_def split: option.splits)

text \<open>After the trade was managed on bar \<open>n\<close>: closed trades may have been closed on this bar.\<close>

lemma book_inv_managed:
  assumes inv: "book_inv n r"
  shows "book_inv (n + 1) (manage_bar r n c)"
    and "rn_open (manage_bar r n c) = Some t \<Longrightarrow> bt_entry_index t < n"
    and "rn_last_entry (manage_bar r n c) = rn_last_entry r"
proof -
  have mono: "list_all (closed_before (n + 1)) (rn_trades r)"
    using inv closed_before_mono [of n _ "n + 1"] by (auto simp: book_inv_def list_all_iff)
  have "book_inv (n + 1) (manage_bar r n c) \<and> (rn_open (manage_bar r n c) = Some t \<longrightarrow> bt_entry_index t < n)
    \<and> rn_last_entry (manage_bar r n c) = rn_last_entry r"
  proof (cases "rn_open r")
    case None
    with inv mono show ?thesis by (simp add: manage_bar_def book_inv_def)
  next
    case (Some t0)
    show ?thesis
    proof (cases "manage t0 n c")
      case (Inl t1)
      note m = manage_entry(2) [OF Inl]
      have "list_all (\<lambda>(a, b). follows a b) (consec (rn_trades r @ [t1]))"
        by (rule consec_replace_last [where x = t0]) (use inv Some m follows_same_entry in \<open>auto simp: book_inv_def all_trades_def\<close>)
      moreover have "closed_before (n + 1) t1" using inv Some m by (auto simp: book_inv_def closed_before_def)
      ultimately show ?thesis
        using inv Some Inl m mono by (auto simp: manage_bar_def book_inv_def all_trades_def)
    next
      case (Inr t1)
      note m = manage_entry(1) [OF Inr]
      have "list_all (\<lambda>(a, b). follows a b) (consec (rn_trades r @ [t1]))"
        by (rule consec_replace_last [where x = t0]) (use inv Some m follows_same_entry in \<open>auto simp: book_inv_def all_trades_def\<close>)
      then show ?thesis
        using inv Some Inr m mono by (auto simp: manage_bar_def book_inv_def all_trades_def)
    qed
  qed
  then show "book_inv (n + 1) (manage_bar r n c)"
    and "rn_open (manage_bar r n c) = Some t \<Longrightarrow> bt_entry_index t < n"
    and "rn_last_entry (manage_bar r n c) = rn_last_entry r" by blast+
qed

lemma book_inv_strategy: "book_inv n r \<Longrightarrow> book_inv n (r\<lparr>rn_strategy := st\<rparr>)"
  by (simp add: book_inv_def all_trades_def)

lemma book_inv_enter:
  assumes inv: "book_inv (n + 1) r"
  shows "book_inv (n + 1) (enter_bar next_signal k r n c)"
proof (cases "rn_open r = None \<and> \<not> n - rn_last_entry r < 3")
  case True
  obtain res st where s: "next_signal (rn_strategy r) c = (res, st)" by fastforce
  have opened: "book_inv (n + 1) (r\<lparr>rn_strategy := st, rn_signals := rn_signals r + 1, rn_last_entry := n, rn_open := Some (open_bt n c sg)\<rparr>)" for sg
  proof -
    have "list_all (\<lambda>(a, b). follows a b) (consec (rn_trades r @ [open_bt n c sg]))"
    proof (cases "rn_trades r = []")
      case False
      have "closed_before (n + 1) (last (rn_trades r))" using inv False by (auto simp: book_inv_def list_all_iff)
      moreover have "bt_entry_index (last (rn_trades r)) = rn_last_entry r"
        using inv False True by (auto simp: book_inv_def all_trades_def)
      ultimately have "follows (last (rn_trades r)) (open_bt n c sg)"
        using True by (auto simp: follows_def closed_before_def open_bt_def split: option.splits)
      moreover have "list_all (\<lambda>(a, b). follows a b) (consec (rn_trades r))"
        using inv True by (simp add: book_inv_def all_trades_def)
      ultimately show ?thesis using False by (simp add: consec_snoc)
    qed simp
    then show ?thesis using inv True by (simp add: book_inv_def all_trades_def) (simp add: open_bt_def)
  qed
  show ?thesis
    using True s opened book_inv_strategy [OF inv]
    by (auto simp: enter_bar_def split: sum.split option.split)
qed (use inv in \<open>auto simp: enter_bar_def\<close>)

lemma book_inv_run:
  "book_inv n r \<Longrightarrow> book_inv (n + int (length cs)) (run_bars next_signal k r n cs)"
proof (induction cs arbitrary: n r)
  case (Cons c cs)
  have "book_inv (n + 1) (enter_bar next_signal k (manage_bar r n c) n c)"
    by (intro book_inv_enter book_inv_managed(1) Cons.prems)
  then show ?case using Cons.IH by (fastforce simp: algebra_simps)
qed simp

text \<open>The trades of the whole run.\<close>

lemma finish_run_book:
  assumes "book_inv (int (length cs)) r"
  shows "length (finish_run r cs) = rn_signals r"
    and "list_all (closed_before (int (length cs))) (finish_run r cs)"
    and "list_all (\<lambda>(a, b). follows a b) (consec (finish_run r cs))"
proof -
  have "length (finish_run r cs) = rn_signals r
    \<and> list_all (closed_before (int (length cs))) (finish_run r cs)
    \<and> list_all (\<lambda>(a, b). follows a b) (consec (finish_run r cs))"
  proof (cases "rn_open r")
    case (Some t)
    let ?t = "close_bt t (int (length cs) - 1) (last cs) (c_close (last cs)) ''END_DATA''
           (if bt_direction t = LONG then fsub (c_close (last cs)) (bt_entry_price t) else fsub (bt_entry_price t) (c_close (last cs)))"
    have "list_all (\<lambda>(a, b). follows a b) (consec (rn_trades r @ [?t]))"
      by (rule consec_replace_last [where x = t])
        (use assms Some follows_same_entry [of _ t ?t] in \<open>auto simp: book_inv_def all_trades_def close_bt_def\<close>)
    moreover have "closed_before (int (length cs)) ?t"
      using assms Some by (auto simp: book_inv_def closed_before_def close_bt_def)
    ultimately show ?thesis
      using assms Some by (auto simp: finish_run_def book_inv_def all_trades_def Let_def)
  qed (use assms in \<open>auto simp: finish_run_def book_inv_def all_trades_def\<close>)
  then show "length (finish_run r cs) = rn_signals r"
    and "list_all (closed_before (int (length cs))) (finish_run r cs)"
    and "list_all (\<lambda>(a, b). follows a b) (consec (finish_run r cs))" by blast+
qed

section \<open>How far a trade can go\<close>

text \<open>
  What ties a trade to the signal it was opened on: the same entry and target, and a stop that was
  only ever moved towards the entry.
\<close>

definition trade_of :: "signal \<Rightarrow> bt_trade \<Rightarrow> bool" where
  "trade_of sg t \<longleftrightarrow> signal_ok sg \<and> is_float (sg_entry sg) \<and> bt_entry_price t = sg_entry sg \<and> bt_tp t = sg_tp sg
     \<and> bt_direction t = sg_direction sg
     \<and> (if sg_direction sg = LONG then sg_sl sg \<le> bt_sl t \<and> bt_sl t \<le> sg_entry sg
        else bt_sl t \<le> sg_sl sg \<and> sg_entry sg \<le> bt_sl t)"

text \<open>A closed trade does not end beyond its stop, and its profit is the distance from entry to exit.\<close>

definition exit_ok :: "bt_trade \<Rightarrow> bool" where
  "exit_ok t \<longleftrightarrow> (case bt_exit_price t of None \<Rightarrow> False | Some x \<Rightarrow>
     if bt_direction t = LONG then bt_sl t \<le> x \<and> bt_pnl t = fsub x (bt_entry_price t)
     else x \<le> bt_sl t \<and> bt_pnl t = fsub (bt_entry_price t) x)"

definition safe_after :: "candle \<Rightarrow> bt_trade \<Rightarrow> bool" where
  "safe_after c t \<longleftrightarrow> (if bt_direction t = LONG then bt_sl t \<le> c_close c else c_close c \<le> bt_sl t)"

lemma fmul_ge_self: "is_float x \<Longrightarrow> 0 \<le> x \<Longrightarrow> 1 \<le> k \<Longrightarrow> x \<le> fmul x k"
  unfolding fmul_def is_float_def by (rule rd.ge_fixed) (simp_all add: mult_le_cancel_left1)

lemma fmul_le_self: "is_float x \<Longrightarrow> 0 \<le> x \<Longrightarrow> k \<le> 1 \<Longrightarrow> fmul x k \<le> x"
  unfolding fmul_def is_float_def by (rule rd.le_fixed) (simp_all add: mult_le_cancel_left2)

lemma target_factors: "1 \<le> rnd (1001 / 1000)" "rnd (999 / 1000) \<le> 1"
  by (simp_all add: fl_eval)

lemma manage_long_ok:
  assumes "trade_of sg t" and "bt_direction t = LONG" and "ohlc_ok c"
  shows "manage_long t idx c = Inl t1 \<Longrightarrow> trade_of sg t1 \<and> exit_ok t1"
    and "manage_long t idx c = Inr t1 \<Longrightarrow> trade_of sg t1 \<and> safe_after c t1"
proof -
  have ep: "0 < bt_entry_price t" "is_float (bt_entry_price t)" "bt_sl t \<le> bt_entry_price t"
    using assms(1,2) by (auto simp: trade_of_def signal_ok_def)
  have "bt_entry_price t \<le> fmul (bt_entry_price t) (rnd (1001 / 1000))"
    using ep target_factors by (intro fmul_ge_self) simp_all
  then have tgt: "bt_sl t \<le> fmul (bt_entry_price t) (rnd (1001 / 1000))" using ep(3) by linarith
  show "manage_long t idx c = Inl t1 \<Longrightarrow> trade_of sg t1 \<and> exit_ok t1"
    using assms(1,2) tgt unfolding manage_long_def Let_def
    by (auto simp: trade_of_def exit_ok_def close_bt_def split: if_splits)
  show "manage_long t idx c = Inr t1 \<Longrightarrow> trade_of sg t1 \<and> safe_after c t1"
    using assms unfolding manage_long_def Let_def
    by (auto simp: trade_of_def safe_after_def ohlc_ok_def split: if_splits)
qed

lemma manage_short_ok:
  assumes "trade_of sg t" and "bt_direction t = SHORT" and "ohlc_ok c"
  shows "manage_short t idx c = Inl t1 \<Longrightarrow> trade_of sg t1 \<and> exit_ok t1"
    and "manage_short t idx c = Inr t1 \<Longrightarrow> trade_of sg t1 \<and> safe_after c t1"
proof -
  have dir: "sg_direction sg = SHORT" using assms(1,2) by (simp add: trade_of_def)
  have ep: "0 < bt_entry_price t" "is_float (bt_entry_price t)" "bt_entry_price t \<le> bt_sl t"
    using assms(1) dir by (auto simp: trade_of_def signal_ok_def)
  have "fmul (bt_entry_price t) (rnd (999 / 1000)) \<le> bt_entry_price t"
    using ep target_factors by (intro fmul_le_self) simp_all
  then have tgt: "fmul (bt_entry_price t) (rnd (999 / 1000)) \<le> bt_sl t" using ep(3) by linarith
  show "manage_short t idx c = Inl t1 \<Longrightarrow> trade_of sg t1 \<and> exit_ok t1"
    using assms(1,2) dir tgt unfolding manage_short_def Let_def
    by (auto simp: trade_of_def exit_ok_def close_bt_def split: if_splits)
  show "manage_short t idx c = Inr t1 \<Longrightarrow> trade_of sg t1 \<and> safe_after c t1"
    using assms dir unfolding manage_short_def Let_def
    by (auto simp: trade_of_def safe_after_def ohlc_ok_def split: if_splits)
qed

lemma manage_ok:
  assumes "trade_of sg t" and "ohlc_ok c"
  shows "manage t idx c = Inl t1 \<Longrightarrow> trade_of sg t1 \<and> exit_ok t1"
    and "manage t idx c = Inr t1 \<Longrightarrow> trade_of sg t1 \<and> safe_after c t1"
  using assms manage_long_ok [of sg t c idx t1] manage_short_ok [of sg t c idx t1]
  by (cases "bt_direction t"; simp add: manage_def)+

definition range_inv :: "candle option \<Rightarrow> 's runner \<Rightarrow> bool" where
  "range_inv c r \<longleftrightarrow> list_all (\<lambda>t. (\<exists>sg. trade_of sg t) \<and> exit_ok t) (rn_trades r)
     \<and> (case rn_open r of None \<Rightarrow> True
        | Some t \<Rightarrow> (\<exists>sg. trade_of sg t) \<and> (case c of None \<Rightarrow> False | Some b \<Rightarrow> safe_after b t))"

lemma range_inv_manage:
  assumes "range_inv prev r" and "ohlc_ok c"
  shows "range_inv (Some c) (manage_bar r n c)"
proof (cases "rn_open r")
  case (Some t)
  then obtain sg where sg: "trade_of sg t" using assms(1) by (auto simp: range_inv_def)
  show ?thesis
    using assms(1) Some manage_ok [OF sg assms(2), of n] by (auto simp: range_inv_def manage_bar_def split: sum.split)
qed (use assms in \<open>auto simp: range_inv_def manage_bar_def\<close>)

context signal_source
begin

lemma range_inv_enter:
  assumes "range_inv (Some c) r" and "is_float (c_close c)"
  shows "range_inv (Some c) (enter_bar next_signal k r n c)"
proof (cases "rn_open r = None \<and> \<not> n - rn_last_entry r < 3")
  case True
  obtain res st where s: "next_signal (rn_strategy r) c = (res, st)" by fastforce
  have "trade_of sg (open_bt n c sg) \<and> safe_after c (open_bt n c sg)" if "res = Inr (Some sg)" for sg
    using signal_wf [of "rn_strategy r" c sg st] s that assms(2)
    by (auto simp: trade_of_def safe_after_def open_bt_def signal_ok_def split: signal_direction.splits)
  with True s assms(1) show ?thesis
    by (auto simp: enter_bar_def range_inv_def split: sum.split option.split)
qed (use assms in \<open>auto simp: enter_bar_def\<close>)

lemma range_inv_run:
  "range_inv prev r \<Longrightarrow> list_all (\<lambda>c. ohlc_ok c \<and> is_float (c_close c)) cs \<Longrightarrow>
     range_inv (if cs = [] then prev else Some (last cs)) (run_bars next_signal k r n cs)"
proof (induction cs arbitrary: prev n r)
  case (Cons c cs)
  have "range_inv (Some c) (enter_bar next_signal k (manage_bar r n c) n c)"
    using Cons.prems by (intro range_inv_enter range_inv_manage [of prev]) simp_all
  from Cons.IH [OF this, of "n + 1"] Cons.prems show ?case by (cases cs) simp_all
qed simp

end

lemma finish_run_range:
  assumes "range_inv (if cs = [] then None else Some (last cs)) r"
  shows "list_all (\<lambda>t. (\<exists>sg. trade_of sg t) \<and> exit_ok t) (finish_run r cs)"
proof (cases "rn_open r")
  case (Some t)
  with assms obtain sg where sg: "trade_of sg t" and safe: "safe_after (last cs) t"
    by (auto simp: range_inv_def split: if_splits)
  have "trade_of sg (close_bt t i c x reason p)" for i c x reason p
    using sg by (simp add: trade_of_def close_bt_def)
  moreover have "exit_ok (close_bt t i c (c_close (last cs)) reason
      (if bt_direction t = LONG then fsub (c_close (last cs)) (bt_entry_price t) else fsub (bt_entry_price t) (c_close (last cs))))"
    for i c reason
    using safe by (auto simp: exit_ok_def safe_after_def close_bt_def)
  ultimately show ?thesis
    using assms Some by (auto simp: finish_run_def range_inv_def Let_def intro!: exI [of _ sg])
qed (use assms in \<open>auto simp: finish_run_def range_inv_def\<close>)

text \<open>So the loss is bounded by the distance to the signal's own stop.\<close>

lemma trade_loss_bound:
  assumes "trade_of sg t" and "exit_ok t"
  shows "if sg_direction sg = LONG then fsub (sg_sl sg) (sg_entry sg) \<le> bt_pnl t else fsub (sg_entry sg) (sg_sl sg) \<le> bt_pnl t"
  using assms by (auto simp: trade_of_def exit_ok_def split: option.splits if_splits intro!: fsub_mono)

section \<open>Properties\<close>

text \<open>
  C37. The bookkeeping of a backtest: whatever the strategy's state and the bars, every signal that was
  counted is exactly one trade of the report, every trade is closed at a bar between its entry and the
  end, entries are at least three bars apart, no trade opens before the previous one is closed,
  and wins and losses add up to the trades.
\<close>

theorem runner_bookkeeping:
  "(let r = run_bars smc_next k (new_runner st) 0 cs;
        ts = finish_run r cs;
        rep = report symb tf k (length cs) (rn_signals r) ts
    in br_signals_generated rep = br_trades_executed rep \<and> br_wins rep + br_losses rep = br_trades_executed rep
      \<and> br_trades rep = ts \<and> list_all (closed_before (int (length cs))) ts
      \<and> list_all (\<lambda>(a, b). follows a b) (consec ts))"
proof -
  have inv: "book_inv (int (length cs)) (run_bars smc_next k (new_runner st) 0 cs)"
    using book_inv_run [OF book_inv_new, of cs smc_next k st] by simp
  have "length (filter (\<lambda>t. bt_pnl t > 0) ts) + length (filter (\<lambda>t. bt_pnl t \<le> 0) ts) = length ts" for ts :: "bt_trade list"
    using sum_length_filter_compl [of "\<lambda>t. bt_pnl t > 0" ts] by (simp add: not_less)
  then show ?thesis
    using finish_run_book [OF inv] by (simp add: Let_def report_def)
qed


lemma demo_run: "length (finish_run (run_bars smc_next 60 (new_runner demo_strategy) 0 [demo_bar]) [demo_bar]) = 1"
proof -
  obtain sg where sg: "snd (fst (on_candle demo_strategy demo_bar)) = Inr (Some sg)"
    and conf: "sg_confidence sg = min (fquot 70 100) 1" using demo_signal_conf by blast
  have "fquot 60 100 \<le> sg_confidence sg" by (simp add: conf fl_eval)
  then show ?thesis
    by (simp add: new_runner_def manage_bar_def enter_bar_def smc_next_def Let_def sg finish_run_def
        split: prod.split)
qed


section \<open>Where the simulation is optimistic\<close>

text \<open>
  A bar that trades through the stop of a long position but closes 0.1% above its entry is booked as
  a win at the target.
\<close>

lemma stop_hit_booked_as_win:
  assumes "t = (open_bt 0 demo_bar sg)" and "sg_entry sg = 1000" and "sg_sl sg = 990" and "sg_direction sg = LONG"
    and "c = sample_bar 1000 1010 900 1002 481"
  shows "c_low c < bt_sl t \<and> (\<exists>t1. manage t 1 c = Inl t1 \<and> bt_exit_reason t1 = ''TARGET_0.1%'' \<and> 0 < bt_pnl t1)"
  by (simp add: assms manage_def manage_long_def open_bt_def close_bt_def Let_def fl_eval)

end
