(* ===== verification/Backtest.thy ===== *)
theory Backtest
  imports Strategy Execution Stats
begin

text \<open>
  The backtesting engine of \<open>src/app/analytics/backtest.py\<close>: the bars are replayed through the risk
  manager, the executor on the paper broker and one strategy per symbol.  The engine takes the
  strategy as a function; \<open>backtest\<close> uses the SMC strategy.  An exception that the code lets escape ends
  the run.  The executor's dictionary of open trades is iterated in the order of insertion, kept in
  \<open>bk_order\<close>.  The wall-clock time of the run is left out; the rows
  of the CSV file are in \<open>Csv_Loading\<close>, the rendered summary in \<open>Reports\<close>.

  The lemmas show: while bars are replayed, the equity curve of the statistics is the balance of the
  risk manager; where trades exit; and that the trades closed after the last bar are counted twice.
\<close>

section \<open>State\<close>

record raw_bar =
  rb_symbol :: string
  rb_timeframe :: string
  rb_timestamp :: py_datetime
  rb_open :: pyfloat
  rb_high :: pyfloat
  rb_low :: pyfloat
  rb_close :: pyfloat
  rb_volume :: pyfloat

record 's backtest =
  bk_exec :: "paper_broker executor"
  bk_order :: "string list"
  bk_stats :: aggregator
  bk_closed :: "trade list"
  bk_strategies :: "string \<rightharpoonup> 's"
  bk_total_bars :: nat

definition new_backtest :: "settings \<Rightarrow> int \<Rightarrow> pyfloat \<Rightarrow> (string \<rightharpoonup> 's) \<Rightarrow> 's backtest" where
  "new_backtest s now slippage strats =
     \<lparr>bk_exec = new_executor (new_paper (account_balance s) slippage)
        (new_risk_manager s (account_balance s) 0 0 now) paper 90,
      bk_order = [], bk_stats = new_aggregator (account_balance s), bk_closed = [],
      bk_strategies = strats, bk_total_bars = 0\<rparr>"

text \<open>The callback \<open>_persist\<close>, and what it does with the outputs of the executor.\<close>

definition on_persist :: "'s backtest \<Rightarrow> trade \<Rightarrow> 's backtest" where
  "on_persist b t = (if is_closed t
     then b\<lparr>bk_closed := bk_closed b @ [t], bk_stats := record_trade (bk_stats b) t\<rparr> else b)"

fun persist_outputs :: "'s backtest \<Rightarrow> exec_output list \<Rightarrow> 's backtest" where
  "persist_outputs b [] = b"
| "persist_outputs b (PersistTrade t # outs) = persist_outputs (on_persist b t) outs"
| "persist_outputs b (out # outs) = persist_outputs b outs"

section \<open>Closing trades\<close>

definition open_list :: "'s backtest \<Rightarrow> (string \<times> trade) list" where
  "open_list b = List.map_filter (\<lambda>tid. map_option (Pair tid) (ex_open_trades (bk_exec b) tid)) (bk_order b)"

definition close_at :: "registry \<Rightarrow> 's backtest \<Rightarrow> exec_env \<Rightarrow> string \<Rightarrow> string \<Rightarrow> pyfloat
    \<Rightarrow> (trade option \<times> 's backtest) res" where
  "close_at reg b env tid reason price =
     (let r = close_trade reg (bk_exec b) tid reason price env in
      case fst (fst r) of
        Inl x \<Rightarrow> Inl x
      | Inr ct \<Rightarrow> Inr (ct, persist_outputs (b\<lparr>bk_exec := snd r\<rparr>) (snd (fst r))))"

text \<open>The level of a trade that a bar reaches: the stop first.\<close>

definition level_hit :: "trade \<Rightarrow> candle \<Rightarrow> (string \<times> pyfloat) option" where
  "level_hit t c =
     (if t_symbol t \<noteq> c_symbol c then None
      else if t_direction t = LONG then
        (if c_low c \<le> t_stop_loss t then Some (''stop_loss'', t_stop_loss t)
         else if c_high c \<ge> t_take_profit t then Some (''take_profit'', t_take_profit t) else None)
      else
        (if c_high c \<ge> t_stop_loss t then Some (''stop_loss'', t_stop_loss t)
         else if c_low c \<le> t_take_profit t then Some (''take_profit'', t_take_profit t) else None))"

fun check_list :: "registry \<Rightarrow> 's backtest \<Rightarrow> exec_env \<Rightarrow> candle \<Rightarrow> (string \<times> trade) list \<Rightarrow> 's backtest res" where
  "check_list reg b env c [] = Inr b"
| "check_list reg b env c ((tid, t) # ts) =
     (case level_hit t c of
        None \<Rightarrow> check_list reg b env c ts
      | Some (reason, price) \<Rightarrow>
          (case close_at reg b env tid reason price of
             Inl x \<Rightarrow> Inl x
           | Inr (ct, b1) \<Rightarrow> check_list reg b1 env c ts))"

definition check_sl_tp :: "registry \<Rightarrow> 's backtest \<Rightarrow> exec_env \<Rightarrow> candle \<Rightarrow> 's backtest res" where
  "check_sl_tp reg b env c = check_list reg b env c (open_list b)"

section \<open>One bar\<close>

definition feed_quote :: "'s backtest \<Rightarrow> instrument \<Rightarrow> pyfloat \<Rightarrow> candle \<Rightarrow> 's backtest" where
  "feed_quote b i spread_pips c =
     (let half_spread = fquot (fmul spread_pips (pip_size i)) 2;
          bid = fsub (c_close c) half_spread;
          ask = fadd (c_close c) half_spread;
          ex = bk_exec b
      in b\<lparr>bk_exec := ex\<lparr>ex_broker := paper_set_quote (ex_broker ex) (c_symbol c) bid ask,
                         ex_risk := set_simulated_time (ex_risk ex) (c_timestamp c)\<rparr>\<rparr>)"

text \<open>A new key of the dictionary of open trades goes to its end; a key that is there keeps its place.\<close>

definition note_opened :: "'s backtest \<Rightarrow> trade \<Rightarrow> 's backtest \<Rightarrow> 's backtest" where
  "note_opened b0 t b = (if ex_open_trades (bk_exec b0) (trade_id t) \<noteq> None then b
     else b\<lparr>bk_order := removeAll (trade_id t) (bk_order b) @ [trade_id t]\<rparr>)"

text \<open>The end of the loop body: the strategy, and the executor on its signal.\<close>

definition run_strategy_on :: "('s \<Rightarrow> candle \<Rightarrow> signal option res \<times> 's) \<Rightarrow> registry \<Rightarrow> 's backtest \<Rightarrow> pyfloat
    \<Rightarrow> exec_env \<Rightarrow> candle \<Rightarrow> 's backtest res" where
  "run_strategy_on next_signal reg b spread_pips env c =
     (case bk_strategies b (c_symbol c) of
        None \<Rightarrow> Inr b
      | Some st \<Rightarrow>
          let (r, st1) = next_signal st c;
              b1 = b\<lparr>bk_strategies := (bk_strategies b)(c_symbol c \<mapsto> st1)\<rparr>
          in case r of
               Inl x \<Rightarrow> Inl x
             | Inr None \<Rightarrow> Inr b1
             | Inr (Some sg) \<Rightarrow>
                 let h = handle_signal paper_place reg (bk_exec b1) sg (Some spread_pips) env in
                 case fst (fst h) of
                   Inl x \<Rightarrow> Inl x
                 | Inr opened \<Rightarrow>
                     let b2 = persist_outputs (b1\<lparr>bk_exec := snd h\<rparr>) (snd (fst h))
                     in Inr (case opened of None \<Rightarrow> b2 | Some t \<Rightarrow> note_opened b1 t b2))"

definition replay_bar :: "('s \<Rightarrow> candle \<Rightarrow> signal option res \<times> 's) \<Rightarrow> registry \<Rightarrow> pyfloat \<Rightarrow> 's backtest \<Rightarrow> exec_env
    \<Rightarrow> raw_bar \<Rightarrow> 's backtest res" where
  "replay_bar next_signal reg spread_pips b0 env row =
     (let b = b0\<lparr>bk_total_bars := bk_total_bars b0 + 1\<rparr> in
      bind_res (mk_candle (rb_symbol row) (rb_timeframe row) (rb_timestamp row) (rb_open row) (rb_high row)
        (rb_low row) (rb_close row) (rb_volume row)) (\<lambda>c.
      bind_res (get_instrument_in reg (c_symbol c)) (\<lambda>i.
      bind_res (check_sl_tp reg (feed_quote b i spread_pips c) env c) (\<lambda>b1.
      run_strategy_on next_signal reg b1 spread_pips env c))))"

fun replay :: "('s \<Rightarrow> candle \<Rightarrow> signal option res \<times> 's) \<Rightarrow> registry \<Rightarrow> pyfloat \<Rightarrow> 's backtest \<Rightarrow> exec_env list
    \<Rightarrow> raw_bar list \<Rightarrow> 's backtest res" where
  "replay next_signal reg spread_pips b (e # es) (row # rows) =
     bind_res (replay_bar next_signal reg spread_pips b e row) (\<lambda>b1. replay next_signal reg spread_pips b1 es rows)"
| "replay next_signal reg spread_pips b es rows = Inr b"

section \<open>The end of the run\<close>

text \<open>
  The remaining trades are closed at the last quote; \<open>close_trade\<close> already hands the closed trade to
  \<open>_persist\<close>, and the loop appends and records it again.
\<close>

fun force_close :: "registry \<Rightarrow> 's backtest \<Rightarrow> exec_env \<Rightarrow> (string \<times> trade) list \<Rightarrow> 's backtest res" where
  "force_close reg b env [] = Inr b"
| "force_close reg b env ((tid, t) # ts) =
     bind_res (paper_get_quote (ex_broker (bk_exec b)) (t_symbol t)) (\<lambda>(last_bid, last_ask).
     bind_res (close_at reg b env tid ''backtest_end'' (if t_direction t = LONG then last_bid else last_ask)) (\<lambda>(dn, b1).
     force_close reg (case dn of None \<Rightarrow> b1
         | Some ct \<Rightarrow> b1\<lparr>bk_closed := bk_closed b1 @ [ct], bk_stats := record_trade (bk_stats b1) ct\<rparr>) env ts))"

record bk_result =
  bs_trades :: "trade list"
  bs_equity_curve :: "pyfloat list"
  bs_starting_balance :: pyfloat
  bs_final_balance :: pyfloat
  bs_total_pnl :: pyfloat
  bs_winrate :: pyfloat
  bs_max_drawdown_pct :: pyfloat
  bs_total_bars :: nat
  bs_by_session :: "string \<rightharpoonup> session_stats"
  bs_by_symbol :: "string \<rightharpoonup> session_stats"

definition bk_report :: "settings \<Rightarrow> 's backtest \<Rightarrow> bk_result" where
  "bk_report s b = (let a = bk_stats b in
     \<lparr>bs_trades = bk_closed b, bs_equity_curve = ag_equity a, bs_starting_balance = account_balance s,
      bs_final_balance = (if ag_equity a \<noteq> [] then last (ag_equity a) else account_balance s),
      bs_total_pnl = ag_total_pnl a, bs_winrate = ag_winrate a, bs_max_drawdown_pct = ag_max_drawdown a,
      bs_total_bars = bk_total_bars b, bs_by_session = ag_by_session a, bs_by_symbol = ag_by_symbol a\<rparr>)"

fun build_strategies :: "registry \<Rightarrow> settings \<Rightarrow> string list \<Rightarrow> (string \<rightharpoonup> strategy) res" where
  "build_strategies reg s [] = Inr Map.empty"
| "build_strategies reg s (symb # symbs) =
     bind_res (new_strategy reg symb (tf_value (primary_timeframe s))
         (new_session_filter (s_london_open s) (s_london_close s) (s_ny_open s) (s_ny_close s))
         (target_profit_pct_min s) (target_profit_pct_max s)) (\<lambda>st.
     bind_res (build_strategies reg s symbs) (\<lambda>m. Inr (m(symb \<mapsto> st))))"

definition backtest_run :: "registry \<Rightarrow> settings \<Rightarrow> pyfloat \<Rightarrow> pyfloat \<Rightarrow> int \<Rightarrow> exec_env list \<Rightarrow> exec_env
    \<Rightarrow> raw_bar list \<Rightarrow> bk_result res" where
  "backtest_run reg s spread_pips slippage now envs env_end rows =
     bind_res (build_strategies reg s (remdups (map rb_symbol rows))) (\<lambda>strats.
     bind_res (replay smc_next reg spread_pips (new_backtest s now slippage strats) envs rows) (\<lambda>b.
     bind_res (force_close reg b env_end (open_list b)) (\<lambda>b1. Inr (bk_report s b1))))"

section \<open>What the callback adds\<close>

lemma persist_outputs_exec [simp]:
  "bk_exec (persist_outputs b outs) = bk_exec b" "bk_order (persist_outputs b outs) = bk_order b"
  "bk_strategies (persist_outputs b outs) = bk_strategies b" "bk_total_bars (persist_outputs b outs) = bk_total_bars b"
  by (induction b outs rule: persist_outputs.induct) (simp_all add: on_persist_def)

lemma pnl_status_closed [simp]: "pnl_status p \<noteq> T_OPEN" "\<not> pnl_status p = T_OPEN"
  by (simp_all add: pnl_status_def)

lemma pnl_status_prefix [simp]: "take 6 (ts_value (pnl_status p)) = ''CLOSED''"
  by (simp add: pnl_status_def)

lemma persist_open: "t_status t = T_OPEN \<Longrightarrow> on_persist b t = b"
  by (simp add: on_persist_def is_closed_def)

text \<open>The executor hands no closed trade to the callback when it handles a signal.\<close>

lemma fire_persists: "persist_outputs b (snd (fst (fire place reg ex sg d env))) = b"
  by (auto simp: fire_def opened_trade_def persist_open Let_def split: sum.split prod.split)

lemma handle_signal_persists: "persist_outputs b (snd (fst (handle_signal place reg ex sg spread env))) = b"
  by (auto simp: handle_signal_def stage_semi_auto_def fire_persists Let_def split: sum.split prod.split)

text \<open>What closing a trade leaves in the engine.\<close>

lemma trade_pnl_update: "trade_pnl reg (t\<lparr>t_exit_time := a, t_exit_price := x, t_pnl := p, t_pnl_pct := q, t_status := st,
    t_exit_reason := r\<rparr>) price = trade_pnl reg t price"
  by (simp add: trade_pnl_def)

definition exit_of :: "registry \<Rightarrow> trade \<Rightarrow> string \<Rightarrow> pyfloat \<Rightarrow> trade \<Rightarrow> bool" where
  "exit_of reg t reason price c \<longleftrightarrow> t_exit_reason c = Some reason \<and> t_exit_price c = Some price
     \<and> t_symbol c = t_symbol t \<and> t_direction c = t_direction t \<and> t_stop_loss c = t_stop_loss t
     \<and> t_take_profit c = t_take_profit t \<and> trade_id c = trade_id t \<and> t_status c \<noteq> T_OPEN
     \<and> (\<exists>pnl. trade_pnl reg c price = Inr pnl \<and> t_pnl c = Some pnl \<and> t_status c = pnl_status pnl)"

lemma close_at_open:
  assumes "close_at reg b env tid reason price = Inr (r, b1)" and "ex_open_trades (bk_exec b) tid = Some t"
  obtains c where "r = Some c" "exit_of reg t reason price c"
    "b1 = b\<lparr>bk_exec := (bk_exec b)\<lparr>ex_open_trades := (ex_open_trades (bk_exec b))(tid := None),
               ex_risk := register_trade_close (ex_risk (bk_exec b)) (dt_date (xe_now env)) c\<rparr>,
             bk_closed := bk_closed b @ [c], bk_stats := record_trade (bk_stats b) c\<rparr>"
  using assms unfolding close_at_def close_trade_def
  by (auto simp: Let_def exit_of_def on_persist_def is_closed_def trade_pnl_update split: sum.splits)

lemma close_at_none:
  "close_at reg b env tid reason price = Inr (r, b1) \<Longrightarrow> ex_open_trades (bk_exec b) tid = None \<Longrightarrow> r = None \<and> b1 = b"
  by (auto simp: close_at_def close_unknown)

section \<open>The replay\<close>

text \<open>A closed trade that left at one of its own levels, with the profit of that level.\<close>

definition level_exit :: "registry \<Rightarrow> trade \<Rightarrow> bool" where
  "level_exit reg c \<longleftrightarrow> t_status c \<noteq> T_OPEN
     \<and> (t_exit_reason c = Some ''stop_loss'' \<and> t_exit_price c = Some (t_stop_loss c)
          \<and> map_option Inr (t_pnl c) = Some (trade_pnl reg c (t_stop_loss c))
        \<or> t_exit_reason c = Some ''take_profit'' \<and> t_exit_price c = Some (t_take_profit c)
          \<and> map_option Inr (t_pnl c) = Some (trade_pnl reg c (t_take_profit c)))"

definition bk_inv :: "registry \<Rightarrow> pyfloat \<Rightarrow> 's backtest \<Rightarrow> bool" where
  "bk_inv reg start b \<longleftrightarrow> bk_stats b = ag_of start (bk_closed b)
     \<and> current_balance (ex_risk (bk_exec b)) = foldl fadd start (map pnl_or_0 (bk_closed b))
     \<and> list_all (level_exit reg) (bk_closed b)
     \<and> distinct (bk_order b) \<and> dom (ex_open_trades (bk_exec b)) \<subseteq> set (bk_order b)"

lemma level_hit_cases:
  "level_hit t c = Some (reason, price) \<Longrightarrow>
     reason = ''stop_loss'' \<and> price = t_stop_loss t \<or> reason = ''take_profit'' \<and> price = t_take_profit t"
  by (auto simp: level_hit_def split: if_splits)

lemma level_exitI:
  "level_hit t c = Some (reason, price) \<Longrightarrow> exit_of reg t reason price ct \<Longrightarrow> level_exit reg ct"
  using level_hit_cases [of t c reason price] by (auto simp: exit_of_def level_exit_def)

lemma record_closed: "t_status c \<noteq> T_OPEN \<Longrightarrow> record_trade (ag_of start ts) c = ag_of start (ts @ [c])"
  by (simp add: record_trade_of not_open_def)

lemma close_at_inv:
  assumes "close_at reg b env tid reason price = Inr (r, b1)" and "bk_inv reg start b"
    and "ex_open_trades (bk_exec b) tid = Some t" and "level_hit t c = Some (reason, price)"
  shows "bk_inv reg start b1"
proof -
  from assms(1,3) obtain ct where "exit_of reg t reason price ct" and
    "b1 = b\<lparr>bk_exec := (bk_exec b)\<lparr>ex_open_trades := (ex_open_trades (bk_exec b))(tid := None),
               ex_risk := register_trade_close (ex_risk (bk_exec b)) (dt_date (xe_now env)) ct\<rparr>,
             bk_closed := bk_closed b @ [ct], bk_stats := record_trade (bk_stats b) ct\<rparr>"
    by (rule close_at_open)
  moreover from this have "t_status ct \<noteq> T_OPEN" "level_exit reg ct"
    using level_exitI [OF assms(4)] by (auto simp: exit_of_def)
  ultimately show ?thesis using assms(2) by (auto simp: bk_inv_def record_closed)
qed

text \<open>Only the entries of the list are closed, and those that stay are out of reach.\<close>

definition entries_of :: "'s backtest \<Rightarrow> (string \<times> trade) list \<Rightarrow> bool" where
  "entries_of b ts \<longleftrightarrow> distinct (map fst ts) \<and> (\<forall>tid t. (tid, t) \<in> set ts \<longrightarrow> ex_open_trades (bk_exec b) tid = Some t)"

lemma entries_of_Cons: "entries_of b ((tid, t) # ts) \<longleftrightarrow>
    ex_open_trades (bk_exec b) tid = Some t \<and> tid \<notin> fst ` set ts \<and> entries_of b ts"
  by (auto simp: entries_of_def)

lemma close_at_entries:
  assumes "close_at reg b env tid reason price = Inr (r, b1)" and "entries_of b ((tid, t) # ts)"
  shows "entries_of b1 ts \<and> ex_open_trades (bk_exec b1) = (ex_open_trades (bk_exec b))(tid := None)
     \<and> bk_order b1 = bk_order b \<and> ex_broker (bk_exec b1) = ex_broker (bk_exec b)"
proof -
  have "ex_open_trades (bk_exec b) tid = Some t" using assms(2) by (simp add: entries_of_Cons)
  with assms(1) show ?thesis
    by (rule close_at_open) (use assms(2) in \<open>force simp: entries_of_def\<close>)
qed

lemma entries_fst: "map fst (List.map_filter (\<lambda>k. map_option (Pair k) (m k)) ks) = filter (\<lambda>k. m k \<noteq> None) ks"
  by (induction ks) (auto simp: List.map_filter_simps split: option.split)

lemma entries_set: "(k, v) \<in> set (List.map_filter (\<lambda>k. map_option (Pair k) (m k)) ks) \<longleftrightarrow> k \<in> set ks \<and> m k = Some v"
  by (induction ks) (auto simp: List.map_filter_simps split: option.split)

lemma open_list_entries: "distinct (bk_order b) \<Longrightarrow> entries_of b (open_list b)"
  by (auto simp: entries_of_def open_list_def entries_fst entries_set)

lemma open_list_covers: "dom (ex_open_trades (bk_exec b)) \<subseteq> set (bk_order b) \<Longrightarrow>
    (tid, t) \<in> set (open_list b) \<longleftrightarrow> ex_open_trades (bk_exec b) tid = Some t"
  by (auto simp: open_list_def entries_set)

lemma check_list_inv:
  assumes "check_list reg b env c ts = Inr b1" and "bk_inv reg start b" and "entries_of b ts"
  shows "bk_inv reg start b1 \<and> bk_order b1 = bk_order b
    \<and> (\<forall>tid t. ex_open_trades (bk_exec b1) tid = Some t \<longrightarrow> ex_open_trades (bk_exec b) tid = Some t
        \<and> ((tid, t) \<in> set ts \<longrightarrow> level_hit t c = None))"
  using assms
proof (induction reg b env c ts rule: check_list.induct)
  case (2 reg b env c tid t ts)
  have open_t: "ex_open_trades (bk_exec b) tid = Some t" and fresh: "tid \<notin> fst ` set ts" and es: "entries_of b ts"
    using "2.prems"(3) by (simp_all add: entries_of_Cons)
  show ?case
  proof (cases "level_hit t c")
    case None
    with 2 es open_t show ?thesis by (auto simp: entries_of_Cons)
  next
    case (Some rp)
    obtain reason price where rp: "rp = (reason, price)" by fastforce
    with "2.prems"(1) Some obtain r b2 where cl: "close_at reg b env tid reason price = Inr (r, b2)"
      and rest: "check_list reg b2 env c ts = Inr b1"
      by (auto split: sum.splits)
    have step: "entries_of b2 ts \<and> ex_open_trades (bk_exec b2) = (ex_open_trades (bk_exec b))(tid := None)
        \<and> bk_order b2 = bk_order b"
      using close_at_entries [OF cl "2.prems"(3)] by blast
    have "bk_inv reg start b2" using close_at_inv [OF cl "2.prems"(2) open_t] Some rp by simp
    with "2.IH"(2) [OF Some rp [symmetric] cl refl rest] step
    have rest': "bk_inv reg start b1 \<and> bk_order b1 = bk_order b2
      \<and> (\<forall>tid t. ex_open_trades (bk_exec b1) tid = Some t \<longrightarrow> ex_open_trades (bk_exec b2) tid = Some t
          \<and> ((tid, t) \<in> set ts \<longrightarrow> level_hit t c = None))" by blast
    then show ?thesis using step by (auto split: if_splits) (metis option.distinct(1))
  qed
qed simp

lemma check_sl_tp_inv:
  assumes "check_sl_tp reg b env c = Inr b1" and "bk_inv reg start b"
  shows "bk_inv reg start b1"
    "ex_open_trades (bk_exec b1) tid = Some t \<Longrightarrow> level_hit t c = None"
proof -
  have o: "distinct (bk_order b)" "dom (ex_open_trades (bk_exec b)) \<subseteq> set (bk_order b)"
    using assms(2) by (simp_all add: bk_inv_def)
  note r = check_list_inv [OF assms(1) [unfolded check_sl_tp_def] assms(2) open_list_entries [OF o(1)]]
  from r show "bk_inv reg start b1" by blast
  show "level_hit t c = None" if "ex_open_trades (bk_exec b1) tid = Some t"
    using r that open_list_covers [OF o(2)] by blast
qed

lemma feed_quote_inv: "bk_inv reg start b \<Longrightarrow> bk_inv reg start (feed_quote b i sp c)"
  by (simp add: bk_inv_def feed_quote_def set_simulated_time_def Let_def)

lemma handle_signal_open:
  "handle_signal place reg ex sg spread env = ((Inr None, evs), ex') \<Longrightarrow> ex_open_trades ex' = ex_open_trades ex"
  "handle_signal place reg ex sg spread env = ((Inr (Some t), evs), ex') \<Longrightarrow>
     ex_open_trades ex' = (ex_open_trades ex)(trade_id t \<mapsto> t)"
proof -
  show "handle_signal place reg ex sg spread env = ((Inr None, evs), ex') \<Longrightarrow> ex_open_trades ex' = ex_open_trades ex"
    by (auto simp: handle_signal_def stage_semi_auto_def Let_def dest: fire_not_opened split: prod.splits sum.splits if_splits)
  show "handle_signal place reg ex sg spread env = ((Inr (Some t), evs), ex') \<Longrightarrow>
      ex_open_trades ex' = (ex_open_trades ex)(trade_id t \<mapsto> t)"
    by (elim handle_signal_Some fire_Some) simp
qed

lemma run_strategy_on_inv:
  assumes "run_strategy_on next_signal reg b sp env c = Inr b1" and "bk_inv reg start b"
  shows "bk_inv reg start b1"
proof (cases "bk_strategies b (c_symbol c)")
  case None
  with assms show ?thesis by (simp add: run_strategy_on_def)
next
  case (Some st)
  obtain r st1 where n: "next_signal st c = (r, st1)" by fastforce
  let ?b = "b\<lparr>bk_strategies := (bk_strategies b)(c_symbol c \<mapsto> st1)\<rparr>"
  have inv: "bk_inv reg start ?b" using assms(2) by (simp add: bk_inv_def)
  show ?thesis
  proof (cases r)
    case (Inl x)
    with assms(1) Some n show ?thesis by (simp add: run_strategy_on_def)
  next
    case (Inr osg)
    show ?thesis
    proof (cases osg)
      case None
      with assms(1) Some n Inr inv show ?thesis by (simp add: run_strategy_on_def Let_def)
    next
      case (Some sg)
      obtain r' evs ex' where h: "handle_signal paper_place reg (bk_exec ?b) sg (Some sp) env = ((r', evs), ex')"
        by (cases "handle_signal paper_place reg (bk_exec ?b) sg (Some sp) env") auto
      have keep: "persist_outputs (?b\<lparr>bk_exec := ex'\<rparr>) evs = ?b\<lparr>bk_exec := ex'\<rparr>"
        and bal: "current_balance (ex_risk ex') = current_balance (ex_risk (bk_exec b))"
        using handle_signal_persists [of "?b\<lparr>bk_exec := ex'\<rparr>" paper_place reg "bk_exec ?b" sg "Some sp" env]
          handle_signal_booked [of paper_place reg "bk_exec ?b" sg "Some sp" env] h by simp_all
      from assms(1) \<open>bk_strategies b (c_symbol c) = Some st\<close> n Inr Some h keep
      obtain opened where o: "r' = Inr opened"
        and b1: "b1 = (case opened of None \<Rightarrow> ?b\<lparr>bk_exec := ex'\<rparr> | Some t \<Rightarrow> note_opened ?b t (?b\<lparr>bk_exec := ex'\<rparr>))"
        by (cases r') (simp_all add: run_strategy_on_def Let_def)
      from h o handle_signal_open [of paper_place reg "bk_exec ?b" sg "Some sp" env] inv bal b1
      show ?thesis by (cases opened) (auto simp: bk_inv_def note_opened_def distinct_removeAll)
    qed
  qed
qed

lemma replay_bar_inv:
  assumes "replay_bar next_signal reg sp b env row = Inr b1" and "bk_inv reg start b"
  shows "bk_inv reg start b1"
proof -
  let ?b = "b\<lparr>bk_total_bars := bk_total_bars b + 1\<rparr>"
  from assms(1) obtain c i b2 where "check_sl_tp reg (feed_quote ?b i sp c) env c = Inr b2"
    and run: "run_strategy_on next_signal reg b2 sp env c = Inr b1"
    by (auto simp: replay_bar_def Let_def bind_res_eq_Inr)
  moreover have "bk_inv reg start (feed_quote ?b i sp c)"
    by (rule feed_quote_inv) (use assms(2) in \<open>simp add: bk_inv_def\<close>)
  ultimately show ?thesis using check_sl_tp_inv(1) run_strategy_on_inv [OF run] by blast
qed

lemma replay_inv:
  "replay next_signal reg sp b es rows = Inr b1 \<Longrightarrow> bk_inv reg start b \<Longrightarrow> bk_inv reg start b1"
proof (induction next_signal reg sp b es rows rule: replay.induct)
  case (1 next_signal reg sp b e es row rows)
  then show ?case by (auto simp: bind_res_eq_Inr intro: replay_bar_inv)
qed simp_all

lemma new_backtest_inv: "bk_inv reg (account_balance s) (new_backtest s now slippage strats)"
  by (simp add: bk_inv_def new_backtest_def new_aggregator_of new_executor_def new_risk_manager_def)

section \<open>The forced closes\<close>

lemma force_close_forced:
  assumes "force_close reg b env ts = Inr b1" and "entries_of b ts" and "bk_stats b = ag_of start (bk_closed b)"
  shows "\<exists>cs. map trade_id cs = map (trade_id \<circ> snd) ts \<and> list_all (\<lambda>c. t_exit_reason c = Some ''backtest_end'') cs
    \<and> bk_closed b1 = bk_closed b @ concat (map (\<lambda>c. [c, c]) cs) \<and> bk_stats b1 = ag_of start (bk_closed b1)
    \<and> current_balance (ex_risk (bk_exec b1)) = foldl fadd (current_balance (ex_risk (bk_exec b))) (map pnl_or_0 cs)"
  using assms
proof (induction reg b env ts rule: force_close.induct)
  case (2 reg b env tid t ts)
  have open_t: "ex_open_trades (bk_exec b) tid = Some t"
    using "2.prems"(2) by (simp add: entries_of_Cons)
  from "2.prems"(1) obtain bid ask r b2 where
    q: "paper_get_quote (ex_broker (bk_exec b)) (t_symbol t) = Inr (bid, ask)" and
    cl: "close_at reg b env tid ''backtest_end'' (if t_direction t = LONG then bid else ask) = Inr (r, b2)" and
    rest: "force_close reg (case r of None \<Rightarrow> b2
         | Some ct \<Rightarrow> b2\<lparr>bk_closed := bk_closed b2 @ [ct], bk_stats := record_trade (bk_stats b2) ct\<rparr>) env ts = Inr b1"
    by (auto simp: bind_res_eq_Inr)
  from cl open_t obtain ct where ct: "r = Some ct"
    "exit_of reg t ''backtest_end'' (if t_direction t = LONG then bid else ask) ct"
    "b2 = b\<lparr>bk_exec := (bk_exec b)\<lparr>ex_open_trades := (ex_open_trades (bk_exec b))(tid := None),
               ex_risk := register_trade_close (ex_risk (bk_exec b)) (dt_date (xe_now env)) ct\<rparr>,
             bk_closed := bk_closed b @ [ct], bk_stats := record_trade (bk_stats b) ct\<rparr>"
    by (rule close_at_open)
  let ?b = "b2\<lparr>bk_closed := bk_closed b2 @ [ct], bk_stats := record_trade (bk_stats b2) ct\<rparr>"
  have closed_ct: "t_status ct \<noteq> T_OPEN" using ct(2) by (simp add: exit_of_def)
  have "entries_of b2 ts" using close_at_entries [OF cl "2.prems"(2)] by blast
  then have es: "entries_of ?b ts" by (simp add: entries_of_def)
  have stats: "bk_stats ?b = ag_of start (bk_closed ?b)"
    using ct(3) "2.prems"(3) closed_ct by (simp add: record_closed)
  from "2.IH" [OF rest, unfolded ct(1) option.case, OF es stats]
  obtain cs where "map trade_id cs = map (trade_id \<circ> snd) ts" "list_all (\<lambda>c. t_exit_reason c = Some ''backtest_end'') cs"
    "bk_closed b1 = bk_closed ?b @ concat (map (\<lambda>c. [c, c]) cs)" "bk_stats b1 = ag_of start (bk_closed b1)"
    "current_balance (ex_risk (bk_exec b1)) = foldl fadd (current_balance (ex_risk (bk_exec ?b))) (map pnl_or_0 cs)"
    by blast
  with ct(2,3) show ?case by (intro exI [of _ "ct # cs"]) (simp add: exit_of_def)
qed simp

section \<open>A run for the witnesses\<close>

text \<open>A strategy that signals on a close of 108, and two bars: the second one reaches the stop.\<close>

definition demo_next :: "unit \<Rightarrow> candle \<Rightarrow> signal option res \<times> unit" where
  "demo_next u c = (Inr (if c_close c = 108 then Some demo_btc_signal else None), ())"

definition demo_row :: "pyfloat \<Rightarrow> pyfloat \<Rightarrow> raw_bar" where
  "demo_row low close = \<lparr>rb_symbol = ''BTCUSD'', rb_timeframe = ''M1'', rb_timestamp = utc 1641600000000000,
     rb_open = 106, rb_high = 110, rb_low = low, rb_close = close, rb_volume = 0\<rparr>"

definition demo_backtest :: "unit backtest" where
  "demo_backtest = new_backtest default_settings 19000 0 [''BTCUSD'' \<mapsto> ()]"

definition demo_clock :: risk_manager where
  "demo_clock = set_simulated_time demo_risk (utc 1641600000000000)"

lemma demo_clock_evaluate:
  "evaluate_risk default_registry demo_clock now demo_btc_signal (Some 0) =
     (Inr \<lparr>rd_accepted = True, rd_quantity = rnd (909 / 10), rd_risk_amount = fmul 100000 (rnd (1 / 100)), rd_reason = R_OK\<rparr>,
      demo_clock)"
proof -
  have f: "current_balance demo_clock = 100000" "high_water_mark demo_clock = 100000" "starting_balance demo_clock = 100000"
    "rm_settings demo_clock = default_settings" "trades_today demo_clock = 0" "consecutive_losses demo_clock = 0"
    "realized_today demo_clock = 0" "\<not> rm_disabled demo_clock"
    by (simp_all add: demo_clock_def set_simulated_time_def)
  have roll: "maybe_rollover demo_clock now = demo_clock"
    by (rule rollover_same_day) (simp add: now_date_def demo_clock_def set_simulated_time_def dt_date_def utc_def)
  have size: "size_position default_registry demo_clock demo_btc_signal = Inr (rnd (909 / 10))"
    using demo_size by (simp add: size_position_def f)
  have may: "may_trade (maybe_rollover demo_clock now)"
    using demo_may_trade unfolding roll by (simp add: may_trade_def daily_loss_limit_amount_def f Let_def fl_eval)
  have fits: "signal_fits default_registry (maybe_rollover demo_clock now) demo_btc_signal (Some 0) (rnd (909 / 10))"
    unfolding roll by (simp add: signal_fits_def size f demo_risk_distance is_spread_acceptable_def get_instrument_btcusd Let_def default_settings_def) (simp add: fl_eval)
  show ?thesis
    using evaluate_risk_may_trade [OF may, of default_registry demo_btc_signal "Some 0"]
      evaluate_size_may_accept [OF fits] by (simp add: roll f)
qed

definition demo_open :: "unit backtest" where
  "demo_open = demo_backtest\<lparr>bk_total_bars := 1, bk_exec := (bk_exec demo_backtest)\<lparr>
      ex_broker := paper_set_quote (new_paper 100000 0) ''BTCUSD'' 108 108, ex_risk := demo_clock\<rparr>\<rparr>"

lemma demo_open_fires:
  "\<exists>t evs ex'. handle_signal paper_place default_registry (bk_exec demo_open) demo_btc_signal (Some 0) demo_exec_env
     = ((Inr (Some t), evs), ex') \<and> trade_id t = ''o1'' \<and> t_symbol t = ''BTCUSD'' \<and> t_direction t = LONG
     \<and> t_stop_loss t = 97 \<and> t_take_profit t = 122 \<and> pb_quotes (ex_broker ex') ''BTCUSD'' = Some (108, 108)"
proof -
  have sg: "sg_sl demo_btc_signal = 97" "sg_tp demo_btc_signal = 122" "sg_entry demo_btc_signal = 108" by (simp_all add: demo_btc_signal_def)
  have gate: "evaluate_risk default_registry (ex_risk (bk_exec demo_open)) (dt_date (xe_t0 demo_exec_env)) demo_btc_signal (Some 0) =
     (Inr \<lparr>rd_accepted = True, rd_quantity = rnd (909 / 10), rd_risk_amount = fmul 100000 (rnd (1 / 100)), rd_reason = R_OK\<rparr>,
      demo_clock)" by (simp add: demo_open_def demo_clock_evaluate)
  have lots: "0 < rnd (909 / 10)" by (simp add: fl_eval)
  have pips: "inst_pips \<lparr>i_symbol = ''BTCUSD'', pip_size = 1, contract_size = 1, quote_per_pip_per_lot = 1, is_metal = False\<rparr>
    0 = Inr 0" by (simp add: inst_pips_def) (simp add: fl_eval)
  show ?thesis
    unfolding handle_signal_def gate unfolding demo_open_def
    by (simp add: fire_def market_order_def mk_order_def with_retry_def lots sg pips
      paper_place_def paper_get_quote_def paper_set_quote_def opened_trade_def or_else_def
      get_instrument_btcusd demo_backtest_def new_backtest_def new_executor_def Let_def)
qed

lemma demo_first_bar:
  "\<exists>b t. replay_bar demo_next default_registry 0 demo_backtest demo_exec_env (demo_row 98 108) = Inr b
     \<and> ex_open_trades (bk_exec b) = [''o1'' \<mapsto> t] \<and> bk_order b = [''o1''] \<and> bk_strategies b = [''BTCUSD'' \<mapsto> ()]
     \<and> t_symbol t = ''BTCUSD'' \<and> t_direction t = LONG \<and> t_stop_loss t = 97 \<and> t_take_profit t = 122
     \<and> pb_quotes (ex_broker (bk_exec b)) ''BTCUSD'' = Some (108, 108)"
proof -
  have c: "mk_candle ''BTCUSD'' ''M1'' (utc 1641600000000000) 106 110 98 108 0 =
      Inr \<lparr>c_symbol = ''BTCUSD'', c_timeframe = ''M1'', c_timestamp = utc 1641600000000000, c_open = 106,
           c_high = 110, c_low = 98, c_close = 108, c_volume = 0\<rparr>"
    by (simp add: mk_candle_def high_consistent_def to_utc_def utc_def)
  let ?c = "\<lparr>c_symbol = ''BTCUSD'', c_timeframe = ''M1'', c_timestamp = utc 1641600000000000, c_open = 106,
           c_high = 110, c_low = 98, c_close = 108, c_volume = 0\<rparr> :: candle"
  let ?b = "demo_backtest\<lparr>bk_total_bars := 1, bk_exec := (bk_exec demo_backtest)\<lparr>
      ex_broker := paper_set_quote (new_paper 100000 0) ''BTCUSD'' 108 108, ex_risk := demo_clock\<rparr>\<rparr>"
  have feed: "feed_quote (demo_backtest\<lparr>bk_total_bars := 1\<rparr>) \<lparr>i_symbol = ''BTCUSD'', pip_size = 1, contract_size = 1,
     quote_per_pip_per_lot = 1, is_metal = False\<rparr> 0 ?c = ?b"
    by (simp add: feed_quote_def demo_backtest_def new_backtest_def new_executor_def demo_clock_def demo_risk_def Let_def)
      (simp add: fl_eval)
  have check: "check_sl_tp default_registry ?b demo_exec_env ?c = Inr ?b"
    by (simp add: check_sl_tp_def open_list_def List.map_filter_simps demo_backtest_def new_backtest_def)
  obtain t evs ex' where h: "handle_signal paper_place default_registry (bk_exec ?b) demo_btc_signal (Some 0) demo_exec_env
     = ((Inr (Some t), evs), ex')" and t: "trade_id t = ''o1''" "t_symbol t = ''BTCUSD''" "t_direction t = LONG"
       "t_stop_loss t = 97" "t_take_profit t = 122" and quote: "pb_quotes (ex_broker ex') ''BTCUSD'' = Some (108, 108)"
    using demo_open_fires unfolding demo_open_def by blast
  let ?b1 = "?b\<lparr>bk_exec := ex', bk_order := [''o1'']\<rparr>"
  have strat: "bk_strategies ?b = [''BTCUSD'' \<mapsto> ()]" "ex_open_trades (bk_exec ?b) = Map.empty" "bk_order ?b = []"
    by (simp_all add: demo_backtest_def new_backtest_def new_executor_def)
  have keep: "persist_outputs x evs = x" for x :: "unit backtest"
    using handle_signal_persists [of x paper_place default_registry "bk_exec ?b" demo_btc_signal "Some 0" demo_exec_env] h by simp
  have run: "run_strategy_on demo_next default_registry ?b 0 demo_exec_env ?c = Inr ?b1"
    unfolding run_strategy_on_def demo_next_def
    using h strat t(1) by (simp add: Let_def note_opened_def keep)
  have "replay_bar demo_next default_registry 0 demo_backtest demo_exec_env (demo_row 98 108) = Inr ?b1"
  proof -
    have "bk_total_bars demo_backtest = 0" by (simp add: demo_backtest_def new_backtest_def)
    then show ?thesis
      unfolding replay_bar_def demo_row_def using feed check run by (simp add: c get_instrument_btcusd)
  qed
  moreover have "ex_open_trades ex' = [''o1'' \<mapsto> t]" using handle_signal_open(2) [OF h] strat(2) t(1) by simp
  ultimately show ?thesis using t strat(1) quote by (intro exI [of _ ?b1] exI [of _ t]) simp
qed

lemma demo_pnl: "t_symbol t = ''BTCUSD'' \<Longrightarrow> \<exists>p. trade_pnl default_registry t x = Inr p"
  by (simp add: trade_pnl_def get_instrument_btcusd inst_pips_def)

lemma demo_second_bar:
  assumes "ex_open_trades (bk_exec b) = [''o1'' \<mapsto> t]" "bk_order b = [''o1'']" "bk_strategies b = [''BTCUSD'' \<mapsto> ()]"
    and "t_symbol t = ''BTCUSD''" "t_direction t = LONG" "t_stop_loss t = 97"
  shows "\<exists>b2. replay_bar demo_next default_registry 0 b demo_exec_env (demo_row 96 100) = Inr b2"
proof -
  let ?c = "\<lparr>c_symbol = ''BTCUSD'', c_timeframe = ''M1'', c_timestamp = utc 1641600000000000, c_open = 106,
           c_high = 110, c_low = 96, c_close = 100, c_volume = 0\<rparr> :: candle"
  have c: "mk_candle ''BTCUSD'' ''M1'' (utc 1641600000000000) 106 110 96 100 0 = Inr ?c"
    by (simp add: mk_candle_def high_consistent_def to_utc_def utc_def)
  have close: "\<exists>ct b1. close_at default_registry x demo_exec_env ''o1'' reason price = Inr (ct, b1)
      \<and> bk_strategies b1 = bk_strategies x" if "ex_open_trades (bk_exec x) ''o1'' = Some t" for x :: "unit backtest" and reason price
    using demo_pnl [OF assms(4), of price] that by (auto simp: close_at_def close_trade_def on_persist_def Let_def)
  let ?i = "\<lparr>i_symbol = ''BTCUSD'', pip_size = 1, contract_size = 1, quote_per_pip_per_lot = 1, is_metal = False\<rparr> :: instrument"
  let ?b = "feed_quote (b\<lparr>bk_total_bars := bk_total_bars b + 1\<rparr>) ?i 0 ?c"
  have fields: "ex_open_trades (bk_exec ?b) ''o1'' = Some t" "open_list ?b = [(''o1'', t)]" "bk_strategies ?b = [''BTCUSD'' \<mapsto> ()]"
    using assms(1-3) by (simp_all add: feed_quote_def open_list_def List.map_filter_simps Let_def)
  from close [OF fields(1)] obtain ct b1 where
    "close_at default_registry ?b demo_exec_env ''o1'' ''stop_loss'' 97 = Inr (ct, b1)" "bk_strategies b1 = bk_strategies ?b" by blast
  then have "check_sl_tp default_registry ?b demo_exec_env ?c = Inr b1" "bk_strategies b1 = [''BTCUSD'' \<mapsto> ()]"
    using assms(4-6) fields by (simp_all add: check_sl_tp_def level_hit_def)
  then show ?thesis
    unfolding replay_bar_def demo_row_def by (simp add: c get_instrument_btcusd run_strategy_on_def demo_next_def Let_def)
qed

definition demo_btc :: instrument where
  "demo_btc = \<lparr>i_symbol = ''BTCUSD'', pip_size = 1, contract_size = 1, quote_per_pip_per_lot = 1, is_metal = False\<rparr>"

definition demo_candle :: candle where
  "demo_candle = (sample_bar 106 110 98 108 480)\<lparr>c_symbol := ''BTCUSD''\<rparr>"

section \<open>Properties\<close>

text \<open>
  C12. The books of the replay: after any bars, whatever signals the strategy gives and whatever the
  clock, the statistics hold exactly the closed trades of the run, the last point of their equity
  curve is the balance of the risk manager, and every closed trade left exactly at its own stop or
  its own target with the profit of that price.
\<close>

theorem backtest_books:
  assumes "replay next_signal reg sp (new_backtest s now slippage strats) envs rows = Inr b"
  shows "bk_stats b = ag_of (account_balance s) (bk_closed b)
    \<and> last (ag_equity (bk_stats b)) = current_balance (ex_risk (bk_exec b))
    \<and> list_all (level_exit reg) (bk_closed b)"
  using replay_inv [OF assms new_backtest_inv [of reg]] by (simp add: bk_inv_def ag_of_def)

lemma backtest_books_witness:
  "\<exists>b. replay demo_next default_registry 0 (new_backtest default_settings 19000 0 [''BTCUSD'' \<mapsto> ()])
      [demo_exec_env, demo_exec_env] [demo_row 98 108, demo_row 96 100] = Inr b
    \<and> last (ag_equity (bk_stats b)) = current_balance (ex_risk (bk_exec b)) \<and> list_all (level_exit default_registry) (bk_closed b)"
proof -
  obtain b t where b: "replay_bar demo_next default_registry 0 demo_backtest demo_exec_env (demo_row 98 108) = Inr b"
    "ex_open_trades (bk_exec b) = [''o1'' \<mapsto> t]" "bk_order b = [''o1'']" "bk_strategies b = [''BTCUSD'' \<mapsto> ()]"
    "t_symbol t = ''BTCUSD''" "t_direction t = LONG" "t_stop_loss t = 97"
    using demo_first_bar by blast
  obtain b2 where "replay_bar demo_next default_registry 0 b demo_exec_env (demo_row 96 100) = Inr b2"
    using demo_second_bar [OF b(2-7)] by blast
  with b(1) have r: "replay demo_next default_registry 0 (new_backtest default_settings 19000 0 [''BTCUSD'' \<mapsto> ()])
      [demo_exec_env, demo_exec_env] [demo_row 98 108, demo_row 96 100] = Inr b2"
    by (simp add: demo_backtest_def)
  from backtest_books [OF r] r show ?thesis by blast
qed

text \<open>
  C36. No trade survives its level: after any replay, when the next bar has been checked, every trade
  that is still open is one the bar does not reach, on its own symbol; in particular a bar that
  reaches both levels of a trade has closed it.
\<close>

theorem backtest_levels_enforced:
  assumes "replay next_signal reg sp (new_backtest s now slippage strats) envs rows = Inr b"
    and "check_sl_tp reg (feed_quote b i sp c) env c = Inr b1"
    and "ex_open_trades (bk_exec b1) tid = Some t"
  shows "level_hit t c = None \<and> (t_symbol t = c_symbol c \<longrightarrow>
    (if t_direction t = LONG then t_stop_loss t < c_low c \<and> c_high c < t_take_profit t
     else c_high c < t_stop_loss t \<and> t_take_profit t < c_low c))"
proof -
  have "bk_inv reg (account_balance s) (feed_quote b i sp c)"
    by (rule feed_quote_inv [OF replay_inv [OF assms(1) new_backtest_inv]])
  then have "level_hit t c = None" using check_sl_tp_inv(2) assms(2,3) by blast
  then show ?thesis by (auto simp: level_hit_def split: if_splits)
qed

lemma backtest_levels_enforced_witness:
  "\<exists>b b1 t. replay demo_next default_registry 0 (new_backtest default_settings 19000 0 [''BTCUSD'' \<mapsto> ()])
      [demo_exec_env] [demo_row 98 108] = Inr b
    \<and> check_sl_tp default_registry (feed_quote b demo_btc 0 demo_candle) demo_exec_env demo_candle = Inr b1
    \<and> ex_open_trades (bk_exec b1) ''o1'' = Some t \<and> level_hit t demo_candle = None"
proof -
  obtain b t where b: "replay_bar demo_next default_registry 0 demo_backtest demo_exec_env (demo_row 98 108) = Inr b"
    "ex_open_trades (bk_exec b) = [''o1'' \<mapsto> t]" "bk_order b = [''o1'']" "t_direction t = LONG" "t_stop_loss t = 97"
    "t_take_profit t = 122"
    using demo_first_bar by blast
  then have r: "replay demo_next default_registry 0 (new_backtest default_settings 19000 0 [''BTCUSD'' \<mapsto> ()])
      [demo_exec_env] [demo_row 98 108] = Inr b" by (simp add: demo_backtest_def)
  let ?b = "feed_quote b demo_btc 0 demo_candle"
  have "open_list ?b = [(''o1'', t)]" "ex_open_trades (bk_exec ?b) ''o1'' = Some t"
    using b(2,3) by (simp_all add: feed_quote_def open_list_def List.map_filter_simps Let_def)
  moreover from this have k: "check_sl_tp default_registry ?b demo_exec_env demo_candle = Inr ?b"
    using b(4-6) by (simp add: check_sl_tp_def level_hit_def demo_candle_def)
  ultimately show ?thesis using backtest_levels_enforced [OF r k] r by blast
qed

text \<open>
  The trades closed after the last bar are counted twice: each trade still open is closed once, and
  booked once with the risk manager, but stands twice among the trades of the result and in its
  statistics, so that the final equity holds its profit twice.
\<close>

theorem backtest_forced_counted_twice:
  assumes "replay next_signal reg sp (new_backtest s now slippage strats) envs rows = Inr b"
    and "force_close reg b env (open_list b) = Inr b1"
  shows "\<exists>cs. map trade_id cs = map (trade_id \<circ> snd) (open_list b)
    \<and> bk_closed b1 = bk_closed b @ concat (map (\<lambda>c. [c, c]) cs)
    \<and> bk_stats b1 = ag_of (account_balance s) (bk_closed b1)
    \<and> current_balance (ex_risk (bk_exec b1)) = foldl fadd (current_balance (ex_risk (bk_exec b))) (map pnl_or_0 cs)"
proof -
  have "bk_inv reg (account_balance s) b"
    by (rule replay_inv [OF assms(1) new_backtest_inv])
  then have "bk_stats b = ag_of (account_balance s) (bk_closed b)" "entries_of b (open_list b)"
    using open_list_entries [of b] by (simp_all add: bk_inv_def)
  from force_close_forced [OF assms(2) this(2,1)] show ?thesis by blast
qed

lemma backtest_forced_counted_twice_witness:
  "\<exists>b b1 c. replay demo_next default_registry 0 (new_backtest default_settings 19000 0 [''BTCUSD'' \<mapsto> ()])
      [demo_exec_env] [demo_row 98 108] = Inr b
    \<and> force_close default_registry b demo_exec_env (open_list b) = Inr b1
    \<and> trade_id c = trade_id (snd (hd (open_list b))) \<and> bk_closed b1 = bk_closed b @ [c, c]"
proof -
  obtain b t where b: "replay_bar demo_next default_registry 0 demo_backtest demo_exec_env (demo_row 98 108) = Inr b"
    "ex_open_trades (bk_exec b) = [''o1'' \<mapsto> t]" "bk_order b = [''o1'']" "t_symbol t = ''BTCUSD''"
    "pb_quotes (ex_broker (bk_exec b)) ''BTCUSD'' = Some (108, 108)"
    using demo_first_bar by blast
  then have r: "replay demo_next default_registry 0 (new_backtest default_settings 19000 0 [''BTCUSD'' \<mapsto> ()])
      [demo_exec_env] [demo_row 98 108] = Inr b" by (simp add: demo_backtest_def)
  have l: "open_list b = [(''o1'', t)]" using b(2,3) by (simp add: open_list_def List.map_filter_simps)
  obtain p where "trade_pnl default_registry t 108 = Inr p" using demo_pnl [OF b(4)] by blast
  then obtain b1 where k: "force_close default_registry b demo_exec_env (open_list b) = Inr b1"
    using b(2,4,5) by (simp add: l paper_get_quote_def close_at_def close_trade_def Let_def split: option.split)
  from backtest_forced_counted_twice [OF r k] obtain cs where
    "map trade_id cs = map (trade_id \<circ> snd) (open_list b)" "bk_closed b1 = bk_closed b @ concat (map (\<lambda>c. [c, c]) cs)" by blast
  with r k l show ?thesis by (auto simp: map_eq_Cons_conv)
qed

end
