(* ===== verification/Feed.thy ===== *)
theory Feed
  imports Config
begin

text \<open>
  The two sources of candles: the REST poller (\<open>src/app/market/rest_poller.py\<close>), which aggregates polled
  prices into candles, and the Finnhub poller (\<open>src/app/integrations/finnhub\<close>), which fetches bars and
  hands on the ones it has not handed on before.  The answers of the two services are arguments, and
  so are the clocks; the callback \<open>on_candle\<close> is a function on a state, which can raise.  The REST poller also looks up
  the numbers of its instruments.  The start of the REST poller is in \<open>Lifecycle\<close>; the sleeping between two polls is left out.

  The lemmas show: what a candle of the REST poller aggregates and that it is a valid candle; that
  the Finnhub poller hands on no bar twice, even when the callback raises; and what that means for a
  bar that was fetched before it was complete.
\<close>

section \<open>The candle dictionary\<close>

record candle_dict =
  cd_symbol :: string
  cd_timeframe :: string
  cd_timestamp :: py_datetime
  cd_open :: pyfloat
  cd_high :: pyfloat
  cd_low :: pyfloat
  cd_close :: pyfloat
  cd_volume :: pyfloat

definition dict_of_candle :: "candle \<Rightarrow> candle_dict" where
  "dict_of_candle c = \<lparr>cd_symbol = c_symbol c, cd_timeframe = c_timeframe c, cd_timestamp = c_timestamp c,
     cd_open = c_open c, cd_high = c_high c, cd_low = c_low c, cd_close = c_close c, cd_volume = c_volume c\<rparr>"

section \<open>The REST poller\<close>

definition seconds_to_tf :: "int \<Rightarrow> string option" where
  "seconds_to_tf = map_of [(60, ''M1''), (300, ''M5''), (900, ''M15''), (1800, ''M30''), (3600, ''H1''),
     (14400, ''H4''), (86400, ''D1'')]"

record buffer =
  bf_symbol :: string
  bf_open :: pyfloat
  bf_high :: pyfloat
  bf_low :: pyfloat
  bf_close :: pyfloat
  bf_volume :: pyfloat
  bf_ts_start :: pyfloat
  bf_last_ask :: pyfloat
  bf_last_bid :: pyfloat

record quote =
  q_bid :: pyfloat
  q_ask :: pyfloat
  q_mid :: pyfloat

record poller =
  rp_candle_seconds :: "string \<rightharpoonup> int"
  rp_buffers :: "string \<rightharpoonup> buffer"
  rp_last_quotes :: "(string \<times> quote) list"

text \<open>\<open>dict.get(key, default)\<close>.\<close>

definition get_or :: "('k \<rightharpoonup> 'v) \<Rightarrow> 'k \<Rightarrow> 'v \<Rightarrow> 'v" where
  "get_or m k d = (case m k of None \<Rightarrow> d | Some v \<Rightarrow> v)"

definition new_buffer :: "string \<Rightarrow> pyfloat \<Rightarrow> pyfloat \<Rightarrow> buffer" where
  "new_buffer symb price now = \<lparr>bf_symbol = symb, bf_open = price, bf_high = price, bf_low = price, bf_close = price,
     bf_volume = 0, bf_ts_start = now, bf_last_ask = price, bf_last_bid = price\<rparr>"

definition extend_buffer :: "buffer \<Rightarrow> pyfloat \<Rightarrow> buffer" where
  "extend_buffer b price = b\<lparr>bf_high := max (bf_high b) price, bf_low := min (bf_low b) price, bf_close := price,
     bf_volume := fadd (bf_volume b) 1\<rparr>"

text \<open>\<open>now\<close> is the monotonic clock, \<open>wall\<close> the time of day.\<close>

definition produce_candle :: "poller \<Rightarrow> pyfloat \<Rightarrow> py_datetime \<Rightarrow> string \<Rightarrow> pyfloat \<Rightarrow> candle_dict option \<times> poller" where
  "produce_candle p now wall symb price =
     (case rp_buffers p symb of
        None \<Rightarrow> (None, p\<lparr>rp_buffers := (rp_buffers p)(symb \<mapsto> new_buffer symb price now)\<rparr>)
      | Some b0 \<Rightarrow>
          let b = extend_buffer b0 price;
              candle_secs = get_or (rp_candle_seconds p) symb 60
          in if fsub now (bf_ts_start b) \<ge> of_int candle_secs
             then (Some \<lparr>cd_symbol = symb, cd_timeframe = (case seconds_to_tf candle_secs of None \<Rightarrow> ''M1'' | Some tf \<Rightarrow> tf),
                     cd_timestamp = wall, cd_open = bf_open b, cd_high = bf_high b, cd_low = bf_low b,
                     cd_close = bf_close b, cd_volume = bf_volume b\<rparr>,
                   p\<lparr>rp_buffers := (rp_buffers p)(symb \<mapsto> new_buffer symb price now)\<rparr>)
             else (None, p\<lparr>rp_buffers := (rp_buffers p)(symb \<mapsto> b)\<rparr>))"

subsection \<open>The instruments\<close>

text \<open>
  What the service lists: the name, the routes with their numbers and types, and the number of the instrument.  The dictionary of
  resolved instruments, from the symbol to both numbers, is kept in its order; a number that is 0 counts as missing.
\<close>

record tl_instrument =
  ti_name :: string
  ti_routes :: "(int \<times> string) list"
  ti_id :: "int option"

type_synonym instrument_ids = "(string \<times> int \<times> int) list"

fun resolve_list :: "string list \<Rightarrow> instrument_ids \<Rightarrow> tl_instrument list \<Rightarrow> instrument_ids" where
  "resolve_list symbs ids [] = ids"
| "resolve_list symbs ids (inst # rest) =
     (if ti_name inst \<notin> set symbs then resolve_list symbs ids rest
      else let info_route = (case List.find (\<lambda>r. snd r = ''INFO'') (ti_routes inst) of None \<Rightarrow> 0 | Some r \<Rightarrow> fst r);
               trade_id = (case ti_id inst of None \<Rightarrow> 0 | Some i \<Rightarrow> i)
           in resolve_list symbs
                (if info_route \<noteq> 0 \<and> trade_id \<noteq> 0 then AList.update (ti_name inst) (trade_id, info_route) ids else ids) rest)"

datatype resolve_reply = ResolveRaise py_exc | ResolveFailed | Resolved "tl_instrument list"

definition resolve_instruments :: "string list \<Rightarrow> instrument_ids \<Rightarrow> resolve_reply \<Rightarrow> instrument_ids res" where
  "resolve_instruments symbs ids reply = (case reply of
       ResolveRaise x \<Rightarrow> Inl x
     | ResolveFailed \<Rightarrow> Inr ids
     | Resolved insts \<Rightarrow> Inr (resolve_list symbs ids insts))"

lemma resolve_list_keys:
  "distinct (map fst ids) \<Longrightarrow> fst ` set ids \<subseteq> set symbs \<Longrightarrow>
     distinct (map fst (resolve_list symbs ids insts)) \<and> fst ` set (resolve_list symbs ids insts) \<subseteq> set symbs"
proof (induction symbs ids insts rule: resolve_list.induct)
  case (2 symbs ids inst rest)
  have keys: "fst ` set (AList.update k v ids) = insert k (fst ` set ids)" for k v
    by (simp add: dom_update)
  from 2 show ?case by (simp add: Let_def distinct_update keys)
qed simp

subsection \<open>One poll\<close>

text \<open>
  What the request for the quote of an instrument ends in: the two prices of the answer (0 where they are missing), an
  error that is logged, or an exception that leaves \<open>_poll\<close> (of the token refresh).
\<close>

datatype quote_reply = QuoteOk pyfloat pyfloat | QuoteSkip | QuoteRaise py_exc

definition mk_quote :: "pyfloat \<Rightarrow> pyfloat \<Rightarrow> quote" where
  "mk_quote bid ask = \<lparr>q_bid = bid, q_ask = ask, q_mid = (if bid \<noteq> 0 \<and> ask \<noteq> 0 then fquot (fadd bid ask) 2 else 0)\<rparr>"

fun poll :: "(string \<times> quote_reply) list \<Rightarrow> (string \<times> quote) list res" where
  "poll [] = Inr []"
| "poll ((symb, QuoteOk bid ask) # rs) = bind_res (poll rs) (\<lambda>prices. Inr ((symb, mk_quote bid ask) # prices))"
| "poll ((symb, QuoteSkip) # rs) = poll rs"
| "poll ((symb, QuoteRaise x) # rs) = Inl x"

text \<open>The loop over the prices, each with its own clock readings; an exception of the callback ends it.\<close>

fun emit_prices :: "('e \<Rightarrow> candle_dict \<Rightarrow> unit res \<times> 'e) \<Rightarrow> poller \<Rightarrow> 'e \<Rightarrow> (nat \<Rightarrow> pyfloat \<times> py_datetime) \<Rightarrow> nat
    \<Rightarrow> (string \<times> quote) list \<Rightarrow> poller \<times> 'e" where
  "emit_prices on_candle p e clock n [] = (p, e)"
| "emit_prices on_candle p e clock n ((symb, q) # qs) =
     (if q_mid q > 0 then
        (case produce_candle p (fst (clock n)) (snd (clock n)) symb (q_mid q) of
           (None, p1) \<Rightarrow> emit_prices on_candle p1 e clock (n + 1) qs
         | (Some d, p1) \<Rightarrow>
             (case on_candle e d of
                (Inl x, e1) \<Rightarrow> (p1, e1)
              | (Inr u, e1) \<Rightarrow> emit_prices on_candle p1 e1 clock (n + 1) qs))
      else emit_prices on_candle p e clock (n + 1) qs)"

text \<open>One turn of \<open>_poll_loop\<close>: every exception is logged, and the loop goes on.\<close>

definition poll_turn :: "('e \<Rightarrow> candle_dict \<Rightarrow> unit res \<times> 'e) \<Rightarrow> poller \<Rightarrow> 'e \<Rightarrow> (nat \<Rightarrow> pyfloat \<times> py_datetime)
    \<Rightarrow> (string \<times> quote_reply) list \<Rightarrow> poller \<times> 'e" where
  "poll_turn on_candle p e clock replies =
     (case poll replies of
        Inl x \<Rightarrow> (p, e)
      | Inr prices \<Rightarrow> if prices = [] then (p, e)
          else emit_prices on_candle (p\<lparr>rp_last_quotes := prices\<rparr>) e clock 0 prices)"

section \<open>The Finnhub client\<close>

definition resolution_map :: "string \<Rightarrow> string option" where
  "resolution_map = map_of [(''M1'', ''1''), (''M5'', ''5''), (''M15'', ''15''), (''M30'', ''30''), (''M60'', ''60''),
     (''H1'', ''60''), (''H4'', ''240''), (''D1'', ''D''), (''D'', ''D''), (''W'', ''W'')]"

definition symbol_map :: "string \<Rightarrow> string option" where
  "symbol_map = map_of [(''EURUSD'', ''OANDA:EUR_USD''), (''GBPUSD'', ''OANDA:GBP_USD''), (''USDJPY'', ''OANDA:USD_JPY''),
     (''USDCHF'', ''OANDA:USD_CHF''), (''AUDUSD'', ''OANDA:AUD_USD''), (''NZDUSD'', ''OANDA:NZD_USD''),
     (''USDCAD'', ''OANDA:USD_CAD''), (''EURGBP'', ''OANDA:EUR_GBP''), (''EURJPY'', ''OANDA:EUR_JPY''),
     (''GBPJPY'', ''OANDA:GBP_JPY''), (''XAUUSD'', ''OANDA:XAU_USD''), (''XAGUSD'', ''OANDA:XAG_USD''),
     (''BTCUSD'', ''OANDA:BTC_USD''), (''ETHUSD'', ''OANDA:ETH_USD'')]"

definition to_finnhub_symbol :: "string \<Rightarrow> string" where
  "to_finnhub_symbol symb = (case symbol_map (py_upper symb) of
       Some m \<Rightarrow> m
     | None \<Rightarrow> let s = py_upper symb in
         if length s = 6 then ''OANDA:'' @ take 3 s @ ''_'' @ drop 3 s else s)"

record fh_response =
  fr_status :: string
  fr_t :: "int list"
  fr_o :: "pyfloat list"
  fr_h :: "pyfloat list"
  fr_l :: "pyfloat list"
  fr_c :: "pyfloat list"
  fr_v :: "pyfloat list"

text \<open>An HTTP or connection error is logged; another exception of the library escapes.\<close>

datatype fh_result = FhData fh_response | FhHttpError | FhRaise py_exc

record fh_request =
  fq_symbol :: string
  fq_resolution :: string
  fq_from :: int
  fq_to :: int

definition nth_res :: "'a list \<Rightarrow> nat \<Rightarrow> 'a res" where
  "nth_res xs i = (if i < length xs then Inr (xs ! i) else Inl IndexError)"

definition fh_candle :: "string \<Rightarrow> string \<Rightarrow> fh_response \<Rightarrow> nat \<Rightarrow> candle res" where
  "fh_candle symb resolution d i =
     bind_res (nth_res (fr_t d) i) (\<lambda>t.
     bind_res (nth_res (fr_o d) i) (\<lambda>opn.
     bind_res (nth_res (fr_h d) i) (\<lambda>high.
     bind_res (nth_res (fr_l d) i) (\<lambda>low.
     bind_res (nth_res (fr_c d) i) (\<lambda>close.
       mk_candle symb resolution (utc (t * 1000000)) opn high low close
         (if i < length (fr_v d) then fr_v d ! i else 0))))))"

definition get_candles :: "(fh_request \<Rightarrow> fh_result) \<Rightarrow> string \<Rightarrow> string \<Rightarrow> int \<Rightarrow> int \<Rightarrow> candle list res" where
  "get_candles service symb resolution from_ts to_ts =
     (case service \<lparr>fq_symbol = to_finnhub_symbol symb, fq_resolution = get_or resolution_map (py_upper resolution) ''1'',
         fq_from = from_ts, fq_to = to_ts\<rparr> of
        FhHttpError \<Rightarrow> Inr []
      | FhRaise x \<Rightarrow> Inl x
      | FhData d \<Rightarrow> if fr_status d \<noteq> ''ok'' then Inr []
          else map_res (fh_candle symb resolution d) [0..<length (fr_t d)])"

text \<open>\<open>get_price\<close>: the last price of a quote, and 0 when there is none.\<close>

datatype fh_quote_result = PriceData "pyfloat option" | PriceHttpError | PriceRaise py_exc

definition get_price :: "(string \<Rightarrow> fh_quote_result) \<Rightarrow> string \<Rightarrow> pyfloat res" where
  "get_price service symb = (case service (to_finnhub_symbol symb) of
       PriceHttpError \<Rightarrow> Inr 0
     | PriceRaise x \<Rightarrow> Inl x
     | PriceData c \<Rightarrow> (case c of None \<Rightarrow> Inr 0 | Some price \<Rightarrow> Inr price))"

section \<open>The Finnhub poller\<close>

definition seconds_to_resolution :: "int \<Rightarrow> string" where
  "seconds_to_resolution s = get_or (map_of [(60, ''M1''), (300, ''M5''), (900, ''M15''), (1800, ''M30''), (3600, ''M60''),
     (14400, ''H4''), (86400, ''D1'')]) s ''M1''"

record fh_poller =
  fp_symbols :: "string list"
  fp_candle_seconds :: "string \<rightharpoonup> int"
  fp_last_ts :: "string \<rightharpoonup> int"
  fp_prices :: "string \<rightharpoonup> pyfloat"

definition new_fh_poller :: "string list \<Rightarrow> (string \<rightharpoonup> int) \<Rightarrow> fh_poller" where
  "new_fh_poller symbs secs = \<lparr>fp_symbols = symbs, fp_candle_seconds = secs, fp_last_ts = Map.empty, fp_prices = Map.empty\<rparr>"

text \<open>
  The loop over the fetched candles: the ones later than the last seen one are handed on, each recorded before the callback
  runs.  The first component lists what was handed on.
\<close>

definition candle_ts :: "candle \<Rightarrow> int" where
  "candle_ts c = dt_timestamp (c_timestamp c) div 1000000"

fun emit_new :: "('e \<Rightarrow> candle_dict \<Rightarrow> unit res \<times> 'e) \<Rightarrow> string \<Rightarrow> int \<Rightarrow> fh_poller \<Rightarrow> 'e \<Rightarrow> candle list
    \<Rightarrow> (candle_dict list \<times> unit res) \<times> fh_poller \<times> 'e" where
  "emit_new on_candle symb last_seen p e [] = (([], Inr ()), p, e)"
| "emit_new on_candle symb last_seen p e (c # cs) =
     (if candle_ts c > last_seen then
        let p1 = p\<lparr>fp_last_ts := (fp_last_ts p)(symb \<mapsto> candle_ts c)\<rparr>;
            d = dict_of_candle c
        in case on_candle e d of
             (Inl x, e1) \<Rightarrow> (([d], Inl x), p1, e1)
           | (Inr u, e1) \<Rightarrow>
               (case emit_new on_candle symb last_seen p1 e1 cs of ((ds, r), pe) \<Rightarrow> ((d # ds, r), pe))
      else emit_new on_candle symb last_seen p e cs)"

definition fetch_and_emit :: "(fh_request \<Rightarrow> fh_result) \<Rightarrow> ('e \<Rightarrow> candle_dict \<Rightarrow> unit res \<times> 'e) \<Rightarrow> fh_poller \<Rightarrow> 'e \<Rightarrow> int
    \<Rightarrow> string \<Rightarrow> (candle_dict list \<times> unit res) \<times> fh_poller \<times> 'e" where
  "fetch_and_emit service on_candle p e now_ts symb =
     (let secs = get_or (fp_candle_seconds p) symb 60 in
      case get_candles service symb (seconds_to_resolution secs) (now_ts - secs * 3) now_ts of
        Inl x \<Rightarrow> (([], Inl x), p, e)
      | Inr candles \<Rightarrow>
          if candles = [] then (([], Inr ()), p, e)
          else emit_new on_candle symb (get_or (fp_last_ts p) symb 0)
                 (p\<lparr>fp_prices := (fp_prices p)(symb \<mapsto> c_close (last candles))\<rparr>) e candles)"

text \<open>
  The poll loop as the sequence of its fetches, each with the clock and the service it meets; an exception of one is logged.
  \<open>fp_turn\<close> is one turn: a fetch for every symbol.
\<close>

type_synonym fetch = "(fh_request \<Rightarrow> fh_result) \<times> int \<times> string"

fun run_fetches :: "('e \<Rightarrow> candle_dict \<Rightarrow> unit res \<times> 'e) \<Rightarrow> fh_poller \<Rightarrow> 'e \<Rightarrow> fetch list \<Rightarrow> candle_dict list \<times> fh_poller \<times> 'e" where
  "run_fetches on_candle p e [] = ([], p, e)"
| "run_fetches on_candle p e ((service, now_ts, symb) # fs) =
     (case fetch_and_emit service on_candle p e now_ts symb of
        ((ds, r), p1, e1) \<Rightarrow> (case run_fetches on_candle p1 e1 fs of (ds', pe) \<Rightarrow> (ds @ ds', pe)))"

definition fp_turn :: "('e \<Rightarrow> candle_dict \<Rightarrow> unit res \<times> 'e) \<Rightarrow> fh_poller \<Rightarrow> 'e \<Rightarrow> ((fh_request \<Rightarrow> fh_result) \<times> int) list
    \<Rightarrow> candle_dict list \<times> fh_poller \<times> 'e" where
  "fp_turn on_candle p e answers =
     run_fetches on_candle p e (map (\<lambda>((service, now_ts), symb). (service, now_ts, symb)) (zip answers (fp_symbols p)))"

text \<open>The seconds until the next turn, from the configured candle lengths.\<close>

definition fp_sleep :: "int list \<Rightarrow> int" where
  "fp_sleep secs = max (if secs = [] then 60 else Min (set secs)) 5"

section \<open>What a candle aggregates\<close>

type_synonym price_tick = "pyfloat \<times> py_datetime \<times> pyfloat"

fun produce_run :: "poller \<Rightarrow> (string \<times> price_tick) list \<Rightarrow> candle_dict list \<times> poller" where
  "produce_run p [] = ([], p)"
| "produce_run p ((symb, now, wall, price) # ts) =
     (case produce_candle p now wall symb price of
        (c, p1) \<Rightarrow> (case produce_run p1 ts of (cs, p2) \<Rightarrow> ((case c of None \<Rightarrow> cs | Some d \<Rightarrow> d # cs), p2)))"

definition ticks_of :: "string \<Rightarrow> (string \<times> price_tick) list \<Rightarrow> price_tick list" where
  "ticks_of symb ts = map snd (filter (\<lambda>t. fst t = symb) ts)"

definition new_poller :: "(string \<rightharpoonup> int) \<Rightarrow> poller" where
  "new_poller secs = \<lparr>rp_candle_seconds = secs, rp_buffers = Map.empty, rp_last_quotes = []\<rparr>"

text \<open>
  The specification: the ticks are cut into segments, each of which lasts at least the configured time and
  starts with the tick that ended the one before; a candle is made of the prices of its segment.
\<close>

fun segments :: "int \<Rightarrow> price_tick list \<Rightarrow> price_tick list \<Rightarrow> price_tick list list" where
  "segments secs acc [] = []"
| "segments secs acc (t # ts) =
     (if acc = [] then segments secs [t] ts
      else if fsub (fst t) (fst (hd acc)) \<ge> of_int secs then (acc @ [t]) # segments secs [t] ts
      else segments secs (acc @ [t]) ts)"

definition tick_price :: "price_tick \<Rightarrow> pyfloat" where
  "tick_price t = snd (snd t)"

definition count_ticks :: "nat \<Rightarrow> pyfloat" where
  "count_ticks n = ((\<lambda>v. fadd v 1) ^^ n) 0"

definition candle_of :: "string \<Rightarrow> string \<Rightarrow> price_tick list \<Rightarrow> candle_dict" where
  "candle_of symb tf seg = \<lparr>cd_symbol = symb, cd_timeframe = tf, cd_timestamp = fst (snd (last seg)),
     cd_open = tick_price (hd seg), cd_high = Max (set (map tick_price seg)), cd_low = Min (set (map tick_price seg)),
     cd_close = tick_price (last seg), cd_volume = count_ticks (length seg - 1)\<rparr>"

definition buffer_of :: "string \<Rightarrow> price_tick list \<Rightarrow> buffer" where
  "buffer_of symb seg = \<lparr>bf_symbol = symb, bf_open = tick_price (hd seg), bf_high = Max (set (map tick_price seg)),
     bf_low = Min (set (map tick_price seg)), bf_close = tick_price (last seg), bf_volume = count_ticks (length seg - 1),
     bf_ts_start = fst (hd seg), bf_last_ask = tick_price (hd seg), bf_last_bid = tick_price (hd seg)\<rparr>"

definition tf_label :: "int \<Rightarrow> string" where
  "tf_label secs = (case seconds_to_tf secs of None \<Rightarrow> ''M1'' | Some tf \<Rightarrow> tf)"

lemma new_buffer_of: "new_buffer symb price now = buffer_of symb [(now, wall, price)]"
  by (simp add: new_buffer_def buffer_of_def tick_price_def count_ticks_def)

lemma extend_buffer_of:
  assumes "seg \<noteq> []"
  shows "extend_buffer (buffer_of symb seg) price = buffer_of symb (seg @ [(now, wall, price)])"
proof -
  let ?P = "set (map tick_price seg)"
  have ne: "?P \<noteq> {}" and fin: "finite ?P" using assms by simp_all
  have "max (Max ?P) price = Max (insert price ?P)" "min (Min ?P) price = Min (insert price ?P)"
    using Max_insert [OF fin ne, of price] Min_insert [OF fin ne, of price] by (simp_all only: max.commute min.commute)
  moreover have "fadd (count_ticks (length seg - 1)) 1 = count_ticks (length seg)"
    using assms by (cases "length seg") (simp_all add: count_ticks_def)
  ultimately show ?thesis
    using assms by (simp add: extend_buffer_def buffer_of_def tick_price_def hd_append)
qed

lemma produce_step:
  assumes "rp_buffers p symb = Some (buffer_of symb acc)" and "acc \<noteq> []"
  shows "produce_candle p now wall symb price =
    (if fsub now (fst (hd acc)) \<ge> of_int (get_or (rp_candle_seconds p) symb 60)
     then (Some (candle_of symb (tf_label (get_or (rp_candle_seconds p) symb 60)) (acc @ [(now, wall, price)])),
           p\<lparr>rp_buffers := (rp_buffers p)(symb \<mapsto> buffer_of symb [(now, wall, price)])\<rparr>)
     else (None, p\<lparr>rp_buffers := (rp_buffers p)(symb \<mapsto> buffer_of symb (acc @ [(now, wall, price)]))\<rparr>))"
  using assms
  by (simp add: produce_candle_def Let_def extend_buffer_of [of acc symb price now wall] new_buffer_of [of symb price now wall])
    (simp add: buffer_of_def candle_of_def tf_label_def)

lemma produce_frame:
  "rp_candle_seconds (snd (produce_candle p now wall symb price)) = rp_candle_seconds p"
  "s \<noteq> symb \<Longrightarrow> rp_buffers (snd (produce_candle p now wall symb price)) s = rp_buffers p s"
  "fst (produce_candle p now wall symb price) = Some d \<Longrightarrow> cd_symbol d = symb"
  by (auto simp: produce_candle_def Let_def split: option.splits if_splits)

text \<open>The candles of one symbol depend on its own ticks only.\<close>

lemma produce_run_segments:
  assumes "rp_buffers p s = (if acc = [] then None else Some (buffer_of s acc))"
  shows "filter (\<lambda>d. cd_symbol d = s) (fst (produce_run p ts)) =
    map (candle_of s (tf_label (get_or (rp_candle_seconds p) s 60))) (segments (get_or (rp_candle_seconds p) s 60) acc (ticks_of s ts))"
  using assms
proof (induction p ts arbitrary: acc rule: produce_run.induct)
  case (2 p symb now wall price ts)
  obtain c p1 where pc: "produce_candle p now wall symb price = (c, p1)" by fastforce
  have secs: "rp_candle_seconds p1 = rp_candle_seconds p" using produce_frame(1) [of p now wall symb price] pc by simp
  have out: "fst (produce_run p ((symb, now, wall, price) # ts)) = (case c of None \<Rightarrow> [] | Some d \<Rightarrow> [d]) @ fst (produce_run p1 ts)"
    by (simp add: pc case_prod_beta split: option.split)
  show ?case
  proof (cases "symb = s")
    case False
    then have "rp_buffers p1 s = rp_buffers p s" using produce_frame(2) [of s symb p now wall price] pc by simp
    with "2.prems" have b: "rp_buffers p1 s = (if acc = [] then None else Some (buffer_of s acc))" by simp
    have "\<forall>d. c = Some d \<longrightarrow> cd_symbol d \<noteq> s" using produce_frame(3) [of p now wall symb price] pc False by auto
    with "2.IH" [OF pc [symmetric] b] False show ?thesis
      unfolding out by (simp add: ticks_of_def secs split: option.split)
  next
    case True
    let ?k = "get_or (rp_candle_seconds p) s 60"
    have ticks: "ticks_of s ((symb, now, wall, price) # ts) = (now, wall, price) # ticks_of s ts" using True by (simp add: ticks_of_def)
    show ?thesis
    proof (cases "acc = []")
      case nil: True
      with "2.prems" pc True have c: "c = None" "rp_buffers p1 s = Some (buffer_of s [(now, wall, price)])"
        by (auto simp: produce_candle_def new_buffer_of [of s price now wall])
      then have b: "rp_buffers p1 s = (if [(now, wall, price)] = [] then None else Some (buffer_of s [(now, wall, price)]))" by simp
      show ?thesis using "2.IH" [OF pc [symmetric] b] nil c(1) unfolding out ticks by (simp add: secs)
    next
      case acc: False
      with "2.prems" have "rp_buffers p symb = Some (buffer_of symb acc)" using True by simp
      note st = produce_step [OF this acc, of now wall price]
      show ?thesis
      proof (cases "fsub now (fst (hd acc)) \<ge> of_int ?k")
        case full: True
        with st pc True have c: "c = Some (candle_of s (tf_label ?k) (acc @ [(now, wall, price)]))"
          "rp_buffers p1 s = Some (buffer_of s [(now, wall, price)])" by auto
        then have b: "rp_buffers p1 s = (if [(now, wall, price)] = [] then None else Some (buffer_of s [(now, wall, price)]))" by simp
        have "cd_symbol (candle_of s (tf_label ?k) (acc @ [(now, wall, price)])) = s" by (simp add: candle_of_def)
        then show ?thesis using "2.IH" [OF pc [symmetric] b] acc full c(1) unfolding out ticks by (simp add: secs)
      next
        case less: False
        with st pc True have c: "c = None" "rp_buffers p1 s = Some (buffer_of s (acc @ [(now, wall, price)]))" by auto
        then have b: "rp_buffers p1 s = (if acc @ [(now, wall, price)] = [] then None else Some (buffer_of s (acc @ [(now, wall, price)])))"
          by simp
        show ?thesis using "2.IH" [OF pc [symmetric] b] acc less c(1) unfolding out ticks by (simp add: secs)
      qed
    qed
  qed
qed (simp add: ticks_of_def)

lemma segments_nonempty: "seg \<in> set (segments secs acc ts) \<Longrightarrow> seg \<noteq> [] \<and> set seg \<subseteq> set acc \<union> set ts"
  by (induction secs acc ts rule: segments.induct) (auto split: if_splits)

lemma count_ticks_nonneg: "0 \<le> count_ticks n"
  by (induction n) (simp_all add: count_ticks_def fadd_nonneg)

lemma candle_of_valid:
  assumes "seg \<noteq> []" and "list_all (\<lambda>t. 0 < tick_price t) seg"
  shows "(let d = candle_of symb tf seg in
      \<exists>c. mk_candle (cd_symbol d) (cd_timeframe d) (cd_timestamp d) (cd_open d) (cd_high d) (cd_low d) (cd_close d) (cd_volume d) = Inr c
        \<and> ohlc_ok c)"
proof -
  let ?P = "set (map tick_price seg)"
  have pos: "\<forall>x \<in> ?P. 0 < x" using assms(2) by (auto simp: list_all_iff)
  have mem: "tick_price (hd seg) \<in> ?P" "tick_price (last seg) \<in> ?P" using assms(1) by simp_all
  then have le: "tick_price (hd seg) \<le> Max ?P" "tick_price (last seg) \<le> Max ?P"
    "Min ?P \<le> tick_price (hd seg)" "Min ?P \<le> tick_price (last seg)" by (simp_all only: Max_ge Min_le finite_set)
  have "Min ?P \<in> ?P" using assms(1) by (intro Min_in) simp_all
  then have "0 < Min ?P" "0 < tick_price (hd seg)" "0 < tick_price (last seg)" using pos mem by blast+
  then show ?thesis
    using le count_ticks_nonneg [of "length seg - 1"]
    by (simp add: candle_of_def mk_candle_def high_consistent_def ohlc_ok_def Let_def del: set_map)
qed

section \<open>What the Finnhub poller hands on\<close>

definition dict_ts :: "candle_dict \<Rightarrow> int" where
  "dict_ts d = dt_timestamp (cd_timestamp d) div 1000000"

lemma dict_of_candle_fields [simp]:
  "dict_ts (dict_of_candle c) = candle_ts c" "cd_symbol (dict_of_candle c) = c_symbol c"
  "cd_timeframe (dict_of_candle c) = c_timeframe c"
  by (simp_all add: dict_ts_def dict_of_candle_def candle_ts_def)

definition seen :: "fh_poller \<Rightarrow> string \<Rightarrow> int" where
  "seen p symb = get_or (fp_last_ts p) symb 0"

lemma emit_new_prefix:
  assumes "emit_new on_candle symb last_seen p e cs = ((ds, r), p1, e1)"
  shows "\<exists>n. ds = map dict_of_candle (take n (filter (\<lambda>c. candle_ts c > last_seen) cs))
    \<and> fp_last_ts p1 = (if ds = [] then fp_last_ts p else (fp_last_ts p)(symb \<mapsto> dict_ts (last ds)))
    \<and> fp_candle_seconds p1 = fp_candle_seconds p"
  using assms
proof (induction on_candle symb last_seen p e cs arbitrary: ds r p1 e1 rule: emit_new.induct)
  case (1 on_candle symb last_seen p e)
  then show ?case by simp
next
  case (2 on_candle symb last_seen p e c cs)
  let ?p = "p\<lparr>fp_last_ts := (fp_last_ts p)(symb \<mapsto> candle_ts c)\<rparr>"
  show ?case
  proof (cases "candle_ts c > last_seen")
    case False
    with 2 show ?thesis by simp
  next
    case True
    obtain v e2 where v: "on_candle e (dict_of_candle c) = (v, e2)" by fastforce
    show ?thesis
    proof (cases v)
      case (Inl x)
      with "2.prems" True v have "ds = [dict_of_candle c]" "p1 = ?p" by (auto simp: Let_def)
      with True show ?thesis by (intro exI [of _ 1]) simp
    next
      case (Inr u)
      obtain ds' r' p' e' where rest: "emit_new on_candle symb last_seen ?p e2 cs = ((ds', r'), p', e')"
        by (metis surj_pair)
      with "2.prems" True v Inr have d: "ds = dict_of_candle c # ds'" "p1 = p'" by (auto simp: Let_def)
      from "2.IH"(1) [OF True refl refl v [symmetric] Inr rest] obtain n where
        "ds' = map dict_of_candle (take n (filter (\<lambda>c. candle_ts c > last_seen) cs))"
        "fp_last_ts p' = (if ds' = [] then fp_last_ts ?p else (fp_last_ts ?p)(symb \<mapsto> dict_ts (last ds')))"
        "fp_candle_seconds p' = fp_candle_seconds ?p" by blast
      with d True show ?thesis by (intro exI [of _ "Suc n"]) (simp add: fun_eq_iff)
    qed
  qed
qed

text \<open>A service that returns its bars in ascending order of time, as Finnhub documents it.\<close>

definition ascending :: "(fh_request \<Rightarrow> fh_result) \<Rightarrow> bool" where
  "ascending service \<longleftrightarrow> (\<forall>q d. service q = FhData d \<longrightarrow> sorted_wrt (<) (fr_t d))"

lemma map_res_Inr: "map_res f xs = Inr ys \<Longrightarrow> length ys = length xs \<and> (\<forall>i < length xs. f (xs ! i) = Inr (ys ! i))"
proof (induction xs arbitrary: ys)
  case (Cons x xs)
  then obtain y zs where y: "f x = Inr y" "map_res f xs = Inr zs" "ys = y # zs" by (auto simp: bind_res_eq_Inr)
  with Cons.IH [OF y(2)] show ?case by (auto simp: nth_Cons split: nat.split)
qed simp

lemma fh_candle_Inr:
  "fh_candle symb res d i = Inr c \<Longrightarrow> i < length (fr_t d) \<and> candle_ts c = fr_t d ! i \<and> c_symbol c = symb \<and> c_timeframe c = res"
  by (auto simp: fh_candle_def bind_res_eq_Inr nth_res_def mk_candle_def candle_ts_def dt_timestamp_def Let_def utc_def to_utc_def
      split: if_splits)

lemma get_candles_Inr:
  assumes "get_candles service symb res a b = Inr cs" and "ascending service"
  shows "sorted_wrt (<) (map candle_ts cs) \<and> list_all (\<lambda>c. c_symbol c = symb \<and> c_timeframe c = res) cs"
proof -
  let ?q = "\<lparr>fq_symbol = to_finnhub_symbol symb, fq_resolution = get_or resolution_map (py_upper res) ''1'',
         fq_from = a, fq_to = b\<rparr>"
  show ?thesis
  proof (cases "service ?q")
    case (FhData d)
    show ?thesis
    proof (cases "fr_status d = ''ok''")
      case True
      with assms(1) FhData have m: "map_res (fh_candle symb res d) [0..<length (fr_t d)] = Inr cs"
        by (simp add: get_candles_def)
      from map_res_Inr [OF this] have l: "length cs = length (fr_t d)"
        and f: "\<And>i. i < length cs \<Longrightarrow> fh_candle symb res d i = Inr (cs ! i)" by simp_all
      have each: "candle_ts (cs ! i) = fr_t d ! i \<and> c_symbol (cs ! i) = symb \<and> c_timeframe (cs ! i) = res" if "i < length cs" for i
        using fh_candle_Inr [OF f [OF that]] by blast
      have "map candle_ts cs = fr_t d" using l each by (intro nth_equalityI) simp_all
      moreover have "sorted_wrt (<) (fr_t d)" using assms(2) FhData unfolding ascending_def by blast
      ultimately show ?thesis using each by (simp add: list_all_length)
    qed (use assms(1) FhData in \<open>simp add: get_candles_def\<close>)
  qed (use assms(1) in \<open>simp_all add: get_candles_def\<close>)
qed

lemma sorted_wrt_le_last: "sorted_wrt (<) (xs :: int list) \<Longrightarrow> x \<in> set xs \<Longrightarrow> x \<le> last xs"
  by (induction xs) (auto split: if_splits intro: order_trans less_imp_le)

lemma emit_new_step:
  assumes emit: "emit_new on_candle symb (seen p symb) q e cs = ((ds, r), p1, e1)"
    and q: "fp_last_ts q = fp_last_ts p"
    and bars: "list_all (\<lambda>c. c_symbol c = symb \<and> c_timeframe c = tf) cs" and sorted_bars: "sorted_wrt (<) (map candle_ts cs)"
  shows "sorted_wrt (<) (map dict_ts ds)
    \<and> list_all (\<lambda>d. cd_symbol d = symb \<and> cd_timeframe d = tf \<and> seen p symb < dict_ts d \<and> dict_ts d \<le> seen p1 symb) ds
    \<and> seen p symb \<le> seen p1 symb \<and> (\<forall>s. s \<noteq> symb \<longrightarrow> seen p1 s = seen p s) \<and> fp_candle_seconds p1 = fp_candle_seconds q"
proof -
  obtain n where ds: "ds = map dict_of_candle (take n (filter (\<lambda>c. candle_ts c > seen p symb) cs))"
    and ts: "fp_last_ts p1 = (if ds = [] then fp_last_ts p else (fp_last_ts p)(symb \<mapsto> dict_ts (last ds)))"
    and secs: "fp_candle_seconds p1 = fp_candle_seconds q"
    using emit_new_prefix [OF emit] q by auto
  have sorted: "sorted_wrt (<) (map dict_ts ds)"
    using sorted_bars by (simp add: ds sorted_wrt_map sorted_wrt_take sorted_wrt_filter o_def)
  have le: "dict_ts d \<le> dict_ts (last ds)" if "d \<in> set ds" for d
    using sorted_wrt_le_last [OF sorted, of "dict_ts d"] that last_map [of ds dict_ts] by fastforce
  have gt: "cd_symbol d = symb \<and> cd_timeframe d = tf \<and> seen p symb < dict_ts d" if "d \<in> set ds" for d
    using that bars unfolding ds by (auto simp: list_all_iff dest: in_set_takeD)
  show ?thesis
  proof (cases "ds = []")
    case True
    with ts secs show ?thesis by (simp add: seen_def)
  next
    case ne: False
    then have s1: "seen p1 symb = dict_ts (last ds)" "\<forall>s. s \<noteq> symb \<longrightarrow> seen p1 s = seen p s"
      using ts by (simp_all add: seen_def get_or_def)
    have "seen p symb < dict_ts (last ds)" using gt ne by simp
    with s1 sorted le gt secs show ?thesis by (simp add: list_all_iff)
  qed
qed

lemma fetch_step:
  assumes "fetch_and_emit service on_candle p e now_ts symb = ((ds, r), p1, e1)" and "ascending service"
  shows "sorted_wrt (<) (map dict_ts ds)
    \<and> list_all (\<lambda>d. cd_symbol d = symb \<and> cd_timeframe d = seconds_to_resolution (get_or (fp_candle_seconds p) symb 60)
        \<and> seen p symb < dict_ts d \<and> dict_ts d \<le> seen p1 symb) ds
    \<and> seen p symb \<le> seen p1 symb \<and> (\<forall>s. s \<noteq> symb \<longrightarrow> seen p1 s = seen p s) \<and> fp_candle_seconds p1 = fp_candle_seconds p"
proof -
  let ?secs = "get_or (fp_candle_seconds p) symb 60"
  let ?res = "seconds_to_resolution ?secs"
  show ?thesis
  proof (cases "get_candles service symb ?res (now_ts - ?secs * 3) now_ts")
    case (Inl x)
    with assms(1) show ?thesis by (auto simp: fetch_and_emit_def Let_def)
  next
    case (Inr cs)
    note g = get_candles_Inr [OF Inr assms(2)]
    show ?thesis
    proof (cases "cs = []")
      case True
      with Inr assms(1) show ?thesis by (auto simp: fetch_and_emit_def Let_def)
    next
      case False
      let ?p = "p\<lparr>fp_prices := (fp_prices p)(symb \<mapsto> c_close (last cs))\<rparr>"
      from False Inr assms(1) have "emit_new on_candle symb (seen p symb) ?p e cs = ((ds, r), p1, e1)"
        by (simp add: fetch_and_emit_def seen_def Let_def)
      from emit_new_step [OF this _ g [THEN conjunct2] g [THEN conjunct1]] show ?thesis by simp
    qed
  qed
qed

lemma run_fetches_new:
  assumes "list_all (\<lambda>(service, now_ts, symb). ascending service) fs"
  shows "sorted_wrt (<) (map dict_ts (filter (\<lambda>d. cd_symbol d = s) (fst (run_fetches on_candle p e fs))))
    \<and> list_all (\<lambda>d. cd_symbol d = s \<longrightarrow> seen p s < dict_ts d) (fst (run_fetches on_candle p e fs))"
  using assms
proof (induction on_candle p e fs rule: run_fetches.induct)
  case (2 on_candle p e service now_ts symb fs)
  obtain ds r p1 e1 where f: "fetch_and_emit service on_candle p e now_ts symb = ((ds, r), p1, e1)" by (metis surj_pair)
  from 2 have "ascending service" by simp
  note st = fetch_step [OF f this]
  have IH: "sorted_wrt (<) (map dict_ts (filter (\<lambda>d. cd_symbol d = s) (fst (run_fetches on_candle p1 e1 fs))))"
    "list_all (\<lambda>d. cd_symbol d = s \<longrightarrow> seen p1 s < dict_ts d) (fst (run_fetches on_candle p1 e1 fs))"
    using "2.IH" [OF f [symmetric] refl refl] "2.prems" by simp_all
  have here: "fst (run_fetches on_candle p e ((service, now_ts, symb) # fs)) = ds @ fst (run_fetches on_candle p1 e1 fs)"
    by (simp add: f case_prod_beta)
  show ?case
  proof (cases "s = symb")
    case True
    then have "filter (\<lambda>d. cd_symbol d = s) ds = ds" using st by (auto simp: list_all_iff)
    with True st IH show ?thesis
      unfolding here by (fastforce simp: sorted_wrt_append list_all_iff)
  next
    case False
    then have none: "filter (\<lambda>d. cd_symbol d = s) ds = []" using st by (auto simp: list_all_iff filter_empty_conv)
    with False st IH show ?thesis
      unfolding here by (auto simp: list_all_iff filter_empty_conv)
  qed
qed simp

text \<open>
  The labels of the timeframes: the REST poller's label of a timeframe's length is the name of that
  timeframe, for all of them; the Finnhub poller's is not for one hour, which it calls M60.
\<close>

lemma timeframe_labels:
  "list_all (\<lambda>t. tf_label (to_seconds t) = tf_value t) all_timeframes
   \<and> map tf_value (filter (\<lambda>t. seconds_to_resolution (to_seconds t) \<noteq> tf_value t) all_timeframes) = [''H1'']"
  by (simp add: all_timeframes_def tf_label_def seconds_to_tf_def seconds_to_resolution_def get_or_def)

text \<open>A bar that is fetched while it is still forming is frozen: its later version is not handed on.\<close>

definition bars_service :: "(int \<times> pyfloat) list \<Rightarrow> fh_request \<Rightarrow> fh_result" where
  "bars_service bars q = FhData \<lparr>fr_status = ''ok'', fr_t = map fst bars, fr_o = map snd bars, fr_h = map snd bars,
     fr_l = map snd bars, fr_c = map snd bars, fr_v = []\<rparr>"

definition log_candle :: "unit \<Rightarrow> candle_dict \<Rightarrow> unit res \<times> unit" where
  "log_candle u d = (Inr (), u)"

lemma forming_bar_frozen:
  "map cd_close (fst (run_fetches log_candle (new_fh_poller [''EURUSD''] Map.empty) ()
     [(bars_service [(60, 1), (120, 2)], 130, ''EURUSD''), (bars_service [(120, 5), (180, 6)], 190, ''EURUSD'')])) = [1, 2, 6]"
  by (simp add: fetch_and_emit_def get_candles_def bars_service_def fh_candle_def nth_res_def mk_candle_def
      high_consistent_def new_fh_poller_def get_or_def log_candle_def candle_ts_def dt_timestamp_def utc_def to_utc_def
      dict_of_candle_def upt_rec Let_def)

section \<open>Properties\<close>

text \<open>
  C16. What the REST poller's candles are: for any interleaving of the symbols' ticks, the candles of a symbol
  are exactly those of the specification, which cuts the symbol's own ticks into segments of at least the configured
  length (the tick that ends one starts the next) and aggregates each; and if prices are positive, every one
  of them is accepted by the candle model and consistent.
\<close>

theorem rest_candles_aggregate:
  assumes "list_all (\<lambda>t. 0 < tick_price (snd t)) ts"
  shows "(let ds = filter (\<lambda>d. cd_symbol d = s) (fst (produce_run (new_poller secs) ts)) in
      ds = map (candle_of s (tf_label (get_or secs s 60))) (segments (get_or secs s 60) [] (ticks_of s ts))
      \<and> list_all (\<lambda>d. \<exists>c. mk_candle (cd_symbol d) (cd_timeframe d) (cd_timestamp d) (cd_open d) (cd_high d) (cd_low d)
            (cd_close d) (cd_volume d) = Inr c \<and> ohlc_ok c) ds)"
proof -
  let ?segs = "segments (get_or secs s 60) [] (ticks_of s ts)"
  have "rp_buffers (new_poller secs) s = (if [] = [] then None else Some (buffer_of s []))" by (simp add: new_poller_def)
  from produce_run_segments [OF this, of ts]
  have eq: "filter (\<lambda>d. cd_symbol d = s) (fst (produce_run (new_poller secs) ts)) = map (candle_of s (tf_label (get_or secs s 60))) ?segs"
    by (simp add: new_poller_def)
  have pos: "list_all (\<lambda>t. 0 < tick_price t) (ticks_of s ts)" using assms by (auto simp: ticks_of_def list_all_iff)
  have "seg \<noteq> [] \<and> list_all (\<lambda>t. 0 < tick_price t) seg" if "seg \<in> set ?segs" for seg
    using segments_nonempty [OF that] pos by (auto simp: list_all_iff)
  then show ?thesis using candle_of_valid unfolding eq Let_def by (simp add: list_all_iff)
qed

lemma rest_candles_aggregate_witness:
  "(let ts = [(''EURUSD'', 0, utc 0, 2), (''XAUUSD'', 1, utc 1, 9), (''EURUSD'', 30, utc 30, 5), (''EURUSD'', 61, utc 61, 3)];
        ds = filter (\<lambda>d. cd_symbol d = ''EURUSD'') (fst (produce_run (new_poller Map.empty) ts)) in
      ds = map (candle_of ''EURUSD'' (tf_label (get_or Map.empty ''EURUSD'' 60)))
        (segments (get_or Map.empty ''EURUSD'' 60) [] (ticks_of ''EURUSD'' ts))
      \<and> list_all (\<lambda>d. \<exists>c. mk_candle (cd_symbol d) (cd_timeframe d) (cd_timestamp d) (cd_open d) (cd_high d) (cd_low d)
            (cd_close d) (cd_volume d) = Inr c \<and> ohlc_ok c) ds)"
  unfolding Let_def by (rule rest_candles_aggregate [unfolded Let_def]) (simp add: tick_price_def)

text \<open>
  No bar is delivered twice: whatever the callback does, also when it raises, over any fetches of a service that
  answers in ascending order, the bars the Finnhub poller hands on for a symbol have strictly ascending times.
\<close>

theorem finnhub_no_repeats:
  assumes "list_all (\<lambda>(service, now_ts, symb). ascending service) fs"
  shows "sorted_wrt (<) (map dict_ts (filter (\<lambda>d. cd_symbol d = s) (fst (run_fetches on_candle (new_fh_poller symbs secs) e fs))))"
  by (rule run_fetches_new [OF assms, THEN conjunct1])

lemma finnhub_no_repeats_witness:
  "sorted_wrt (<) (map dict_ts (filter (\<lambda>d. cd_symbol d = ''EURUSD'') (fst (run_fetches log_candle (new_fh_poller [''EURUSD''] Map.empty) ()
     [(bars_service [(60, 1), (120, 2)], 130, ''EURUSD''), (bars_service [(120, 5), (180, 6)], 190, ''EURUSD'')]))))"
  by (rule finnhub_no_repeats) (simp add: ascending_def bars_service_def)

end
