(* ===== verification/Polling.thy ===== *)
theory Polling
  imports Feed
begin

text \<open>
  The polls of the REST poller (\<open>src/app/market/rest_poller.py\<close>) with their requests: the access token, the answers of the quote service and
  the renewal of a refused token.  \<open>Feed\<close> takes what a request comes to as an argument; here the service is a pair of functions on a
  state, \<open>http\<close> for a quote and \<open>auth\<close> for a token.  The HTTP client of the Finnhub poller (\<open>src/app/integrations/finnhub/client.py\<close>) is
  here as well: it is opened when it is first needed.  The loops of both pollers are here until they are stopped.

  The lemmas show: every loop of the Finnhub poller is a sequence of the fetches of \<open>Feed\<close>; every poll is one of \<open>Feed\<close>, at most one price is lost to a token that has expired, and a renewal that fails loses all.
\<close>

section \<open>A poll\<close>

text \<open>
  The answer to a request for a quote: the two prices, an answer that is not \<open>ok\<close>, one that cannot be read, an error status, or no answer.
\<close>

datatype quote_answer = BidAsk pyfloat pyfloat | NotOk | Unreadable py_exc | StatusError int | TransportError py_exc

text \<open>The body of the loop for one symbol; \<open>None\<close> is a symbol without a price, and the token may be a new one.\<close>

definition poll_symbol :: "('w \<Rightarrow> string \<Rightarrow> int \<times> int \<Rightarrow> quote_answer \<times> 'w) \<Rightarrow> ('w \<Rightarrow> string res \<times> 'w) \<Rightarrow> int \<times> int
    \<Rightarrow> string \<times> 'w \<Rightarrow> quote option res \<times> string \<times> 'w" where
  "poll_symbol http auth info tw =
     (case http (snd tw) (fst tw) info of
        (BidAsk bid ask, w) \<Rightarrow> (Inr (Some (mk_quote bid ask)), fst tw, w)
      | (StatusError code, w) \<Rightarrow>
          if code = 401 then (case auth w of
              (Inl x, w1) \<Rightarrow> (Inl x, fst tw, w1)
            | (Inr token, w1) \<Rightarrow> (Inr None, token, w1))
          else (Inr None, fst tw, w)
      | (_, w) \<Rightarrow> (Inr None, fst tw, w))"

text \<open>An exception of the renewal leaves the loop, and with it the prices read so far.\<close>

fun poll_symbols :: "('w \<Rightarrow> string \<Rightarrow> int \<times> int \<Rightarrow> quote_answer \<times> 'w) \<Rightarrow> ('w \<Rightarrow> string res \<times> 'w) \<Rightarrow> instrument_ids
    \<Rightarrow> string \<times> 'w \<Rightarrow> (string \<times> quote) list res \<times> string \<times> 'w" where
  "poll_symbols http auth [] tw = (Inr [], tw)"
| "poll_symbols http auth ((symb, info) # rest) tw =
     (case poll_symbol http auth info tw of
        (Inl x, tw1) \<Rightarrow> (Inl x, tw1)
      | (Inr q, tw1) \<Rightarrow> (case poll_symbols http auth rest tw1 of
            (r, tw2) \<Rightarrow> (bind_res r (\<lambda>prices. Inr ((case q of None \<Rightarrow> [] | Some q' \<Rightarrow> [(symb, q')]) @ prices)), tw2)))"

text \<open>A turn of the loop: what is polled, and what \<open>Feed\<close> does with it.\<close>

definition rest_turn :: "('w \<Rightarrow> string \<Rightarrow> int \<times> int \<Rightarrow> quote_answer \<times> 'w) \<Rightarrow> ('w \<Rightarrow> string res \<times> 'w) \<Rightarrow> instrument_ids
    \<Rightarrow> ('e \<Rightarrow> candle_dict \<Rightarrow> unit res \<times> 'e) \<Rightarrow> poller \<Rightarrow> 'e \<Rightarrow> (nat \<Rightarrow> pyfloat \<times> py_datetime) \<Rightarrow> string \<times> 'w \<Rightarrow> (poller \<times> 'e) \<times> string \<times> 'w" where
  "rest_turn http auth ids on_candle p e clock tw =
     (case poll_symbols http auth ids tw of
        (Inl x, tw1) \<Rightarrow> ((p, e), tw1)
      | (Inr prices, tw1) \<Rightarrow>
          (if prices = [] then (p, e) else emit_prices on_candle (p\<lparr>rp_last_quotes := prices\<rparr>) e clock 0 prices, tw1))"

section \<open>The loops until they are stopped\<close>

text \<open>
  The loop of the REST poller: its turns, each with its clock, and whether it was stopped by the end of the pause after it.  The
  loop ends only between two turns, and \<open>stop\<close> waits for that; the flag of the result says whether it has ended.
\<close>

fun rest_loop :: "('w \<Rightarrow> string \<Rightarrow> int \<times> int \<Rightarrow> quote_answer \<times> 'w) \<Rightarrow> ('w \<Rightarrow> string res \<times> 'w) \<Rightarrow> instrument_ids
    \<Rightarrow> ('e \<Rightarrow> candle_dict \<Rightarrow> unit res \<times> 'e) \<Rightarrow> bool \<Rightarrow> poller \<Rightarrow> 'e \<Rightarrow> ((nat \<Rightarrow> pyfloat \<times> py_datetime) \<times> bool) list
    \<Rightarrow> string \<times> 'w \<Rightarrow> bool \<times> (poller \<times> 'e) \<times> string \<times> 'w" where
  "rest_loop http auth ids on_candle True p e vs tw = (True, (p, e), tw)"
| "rest_loop http auth ids on_candle False p e [] tw = (False, (p, e), tw)"
| "rest_loop http auth ids on_candle False p e ((clock, stop) # vs) tw =
     (case rest_turn http auth ids on_candle p e clock tw of
        ((p1, e1), tw1) \<Rightarrow> rest_loop http auth ids on_candle stop p1 e1 vs tw1)"

text \<open>
  The loop of the Finnhub poller: \<open>stop\<close> sets the event and cancels the task, so that it ends in the pause, or within a turn
  after some of the fetches.  (A cancellation within the callback is one of the executor's calls that never goes on.)
\<close>

datatype turn_end = GoesOn | StoppedInPause | CancelledAfter nat

fun fp_loop :: "('e \<Rightarrow> candle_dict \<Rightarrow> unit res \<times> 'e) \<Rightarrow> bool \<Rightarrow> fh_poller \<Rightarrow> 'e
    \<Rightarrow> (((fh_request \<Rightarrow> fh_result) \<times> int) list \<times> turn_end) list \<Rightarrow> (bool \<times> candle_dict list) \<times> fh_poller \<times> 'e" where
  "fp_loop on_candle True p e vs = ((True, []), p, e)"
| "fp_loop on_candle False p e [] = ((False, []), p, e)"
| "fp_loop on_candle False p e ((answers, CancelledAfter n) # vs) =
     (case fp_turn on_candle p e (take n answers) of (ds, pe) \<Rightarrow> ((True, ds), pe))"
| "fp_loop on_candle False p e ((answers, GoesOn) # vs) =
     (case fp_turn on_candle p e answers of (ds, p1, e1) \<Rightarrow>
        (case fp_loop on_candle False p1 e1 vs of ((ended, ds'), pe) \<Rightarrow> ((ended, ds @ ds'), pe)))"
| "fp_loop on_candle False p e ((answers, StoppedInPause) # vs) =
     (case fp_turn on_candle p e answers of (ds, p1, e1) \<Rightarrow>
        (case fp_loop on_candle True p1 e1 vs of ((ended, ds'), pe) \<Rightarrow> ((ended, ds @ ds'), pe)))"

text \<open>The whole loop is a sequence of fetches, by the answers it met.\<close>

lemma run_fetches_append:
  "run_fetches f p e (fs @ gs) = (case run_fetches f p e fs of (ds, p1, e1) \<Rightarrow>
     (case run_fetches f p1 e1 gs of (ds', pe) \<Rightarrow> (ds @ ds', pe)))"
  by (induction f p e fs rule: run_fetches.induct) (auto split: prod.splits)

lemma fp_loop_fetches:
  "\<exists>fs. snd (fst (fp_loop f stopped p e vs)) = fst (run_fetches f p e fs) \<and> snd (fp_loop f stopped p e vs) = snd (run_fetches f p e fs)
     \<and> (\<forall>(service, now_ts, symb) \<in> set fs. \<exists>(answers, w) \<in> set vs. (service, now_ts) \<in> set answers)"
proof (induction f stopped p e vs rule: fp_loop.induct)
  case (3 f p e answers n vs)
  show ?case
    by (rule exI [of _ "map (\<lambda>((service, now_ts), symb). (service, now_ts, symb)) (zip (take n answers) (fp_symbols p))"])
      (auto simp: fp_turn_def case_prod_beta dest!: set_zip_leftD in_set_takeD)
next
  case (4 f p e answers vs)
  obtain ds p1 e1 where t: "fp_turn f p e answers = (ds, p1, e1)" by (metis surj_pair)
  from "4.IH" [OF t [symmetric] refl] obtain fs where fs: "snd (fst (fp_loop f False p1 e1 vs)) = fst (run_fetches f p1 e1 fs)"
    "snd (fp_loop f False p1 e1 vs) = snd (run_fetches f p1 e1 fs)"
    "\<forall>(service, now_ts, symb) \<in> set fs. \<exists>(answers, w) \<in> set vs. (service, now_ts) \<in> set answers" by blast
  show ?case
    by (rule exI [of _ "map (\<lambda>((service, now_ts), symb). (service, now_ts, symb)) (zip answers (fp_symbols p)) @ fs"])
      (use t fs in \<open>auto simp: fp_turn_def run_fetches_append case_prod_beta dest!: set_zip_leftD\<close>)
next
  case (5 f p e answers vs)
  show ?case
    by (rule exI [of _ "map (\<lambda>((service, now_ts), symb). (service, now_ts, symb)) (zip answers (fp_symbols p))"])
      (auto simp: fp_turn_def case_prod_beta dest!: set_zip_leftD)
qed (rule exI [of _ "[]"], simp)+

text \<open>So over all turns no bar of a symbol is handed on twice, as long as the service returns its bars in order.\<close>

lemma fp_loop_no_repeats:
  assumes "list_all (\<lambda>(answers, w). list_all (\<lambda>(service, now_ts). ascending service) answers) vs"
  shows "sorted_wrt (<) (map dict_ts (filter (\<lambda>d. cd_symbol d = s) (snd (fst (fp_loop f stopped p e vs)))))"
proof -
  obtain fs where fs: "snd (fst (fp_loop f stopped p e vs)) = fst (run_fetches f p e fs)"
    and src: "\<forall>(service, now_ts, symb) \<in> set fs. \<exists>(answers, w) \<in> set vs. (service, now_ts) \<in> set answers"
    using fp_loop_fetches [of f stopped p e vs] by (elim exE conjE)
  have "ascending service" if m: "(service, now_ts, symb) \<in> set fs" for service now_ts symb
  proof -
    obtain answers w where "(answers, w) \<in> set vs" "(service, now_ts) \<in> set answers" using src m by fast
    with assms show ?thesis by (auto simp: list_all_iff)
  qed
  then have "list_all (\<lambda>(service, now_ts, symb). ascending service) fs" by (auto simp: list_all_iff)
  from run_fetches_new [OF this, of s f p e] show ?thesis unfolding fs by (rule conjunct1)
qed

section \<open>The client of Finnhub\<close>

text \<open>The client: the key, and whether it has an HTTP client that is open.\<close>

record fh_client =
  fc_key :: string
  fc_open :: bool

definition new_fh_client :: "string \<Rightarrow> fh_client res" where
  "new_fh_client key = (if key = [] then Inl ValueError else Inr \<lparr>fc_key = key, fc_open = False\<rparr>)"

definition get_client :: "fh_client \<Rightarrow> fh_client" where
  "get_client c = (if \<not> fc_open c then c\<lparr>fc_open := True\<rparr> else c)"

definition close_client :: "fh_client \<Rightarrow> fh_client" where
  "close_client c = (if fc_open c then c\<lparr>fc_open := False\<rparr> else c)"

text \<open>A closed client can be used again, with the same key.\<close>

lemma fh_client_reopens: "fc_open (get_client (close_client c)) \<and> fc_key (get_client (close_client c)) = fc_key c"
  by (simp add: get_client_def close_client_def)

section \<open>Lemmas\<close>

lemma poll_symbol_token:
  "poll_symbol http auth info (token, w) = (Inr (Some q), tw') \<Longrightarrow> fst tw' = token"
  by (auto simp: poll_symbol_def split: prod.splits quote_answer.splits if_splits sum.splits)

lemma poll_Cons:
  "poll ((symb, QuoteSkip) # rs) = poll rs"
  "poll ((symb, QuoteRaise x) # rs) = Inl x"
  "poll ((symb, QuoteOk bid ask) # rs) = bind_res (poll rs) (\<lambda>prices. Inr ((symb, mk_quote bid ask) # prices))"
  by simp_all

text \<open>What the requests of a poll come to, as \<open>Feed\<close> has it.\<close>

lemma poll_symbol_reply:
  "\<exists>reply. \<forall>symb rs. poll ((symb, reply) # rs) = (case fst (poll_symbol http auth info tw) of
      Inl x \<Rightarrow> Inl x
    | Inr q \<Rightarrow> bind_res (poll rs) (\<lambda>prices. Inr ((case q of None \<Rightarrow> [] | Some q' \<Rightarrow> [(symb, q')]) @ prices)))"
proof (cases "fst (poll_symbol http auth info tw)")
  case (Inl x)
  then show ?thesis by (intro exI [of _ "QuoteRaise x"]) simp
next
  case (Inr q)
  show ?thesis
  proof (cases q)
    case None
    have "bind_res r Inr = r" for r :: "(string \<times> quote) list res" by (cases r) simp_all
    then show ?thesis using Inr None by (intro exI [of _ QuoteSkip]) simp
  next
    case (Some q')
    then have "\<exists>bid ask. q' = mk_quote bid ask"
      using Inr by (auto simp: poll_symbol_def split: prod.splits quote_answer.splits if_splits sum.splits)
    then obtain bid ask where "q' = mk_quote bid ask" by blast
    then show ?thesis using Inr Some by (intro exI [of _ "QuoteOk bid ask"]) simp
  qed
qed

lemma poll_symbols_poll:
  "\<exists>replies. fst (poll_symbols http auth ids tw) = poll replies \<and> set (map fst replies) \<subseteq> set (map fst ids)"
proof (induction ids arbitrary: tw)
  case (Cons i ids)
  obtain symb info where id: "i = (symb, info)" by (cases i)
  obtain reply where reply: "\<And>rs. poll ((symb, reply) # rs) = (case fst (poll_symbol http auth info tw) of
      Inl x \<Rightarrow> Inl x
    | Inr q \<Rightarrow> bind_res (poll rs) (\<lambda>prices. Inr ((case q of None \<Rightarrow> [] | Some q' \<Rightarrow> [(symb, q')]) @ prices)))"
    using poll_symbol_reply [of http auth info tw] by blast
  obtain r tw1 where r: "poll_symbol http auth info tw = (r, tw1)" by (rule prod.exhaust)
  from Cons.IH [of tw1] obtain replies where
    "fst (poll_symbols http auth ids tw1) = poll replies" "set (map fst replies) \<subseteq> set (map fst ids)" by blast
  then show ?case using reply [of replies] r id
    by (intro exI [of _ "(symb, reply) # replies"]) (auto split: sum.split prod.split)
qed (intro exI [of _ "[]"], simp)

text \<open>Every turn is a turn of \<open>Feed\<close>, for replies to some of the symbols.\<close>

theorem rest_turn_refines:
  "\<exists>replies. fst (rest_turn http auth ids on_candle p e clock tw) = poll_turn on_candle p e clock replies
     \<and> set (map fst replies) \<subseteq> set (map fst ids)"
proof -
  obtain replies where "fst (poll_symbols http auth ids tw) = poll replies" "set (map fst replies) \<subseteq> set (map fst ids)"
    using poll_symbols_poll by blast
  then show ?thesis
    by (intro exI [of _ replies]) (auto simp: rest_turn_def poll_turn_def split: prod.splits sum.splits)
qed

section \<open>Tokens\<close>

text \<open>A service that answers with prices when the token is the current one and with 401 otherwise, and that renews tokens.\<close>

definition serves :: "('w \<Rightarrow> string \<Rightarrow> int \<times> int \<Rightarrow> quote_answer \<times> 'w) \<Rightarrow> ('w \<Rightarrow> string res \<times> 'w) \<Rightarrow> string \<Rightarrow> (int \<times> int \<Rightarrow> pyfloat \<times> pyfloat) \<Rightarrow> bool" where
  "serves http auth current prices \<longleftrightarrow>
     (\<forall>w token info. fst (http w token info) = (if token = current then BidAsk (fst (prices info)) (snd (prices info)) else StatusError 401)) \<and>
     (\<forall>w. fst (auth w) = Inr current)"

definition priced :: "(int \<times> int \<Rightarrow> pyfloat \<times> pyfloat) \<Rightarrow> instrument_ids \<Rightarrow> (string \<times> quote) list" where
  "priced prices ids = map (\<lambda>(symb, info). (symb, mk_quote (fst (prices info)) (snd (prices info)))) ids"

lemma serves_symbol:
  assumes "serves http auth current prices"
  shows "\<exists>w'. poll_symbol http auth info (token, w) =
    (Inr (if token = current then Some (mk_quote (fst (prices info)) (snd (prices info))) else None), current, w')"
proof -
  obtain a w1 where h: "http w token info = (a, w1)" by fastforce
  obtain r w2 where au: "auth w1 = (r, w2)" by fastforce
  have "a = (if token = current then BidAsk (fst (prices info)) (snd (prices info)) else StatusError 401)" "r = Inr current"
    using assms h au unfolding serves_def by (metis fst_conv)+
  with h au show ?thesis by (simp add: poll_symbol_def)
qed

lemma current_polls_all:
  "serves http auth current prices \<Longrightarrow> \<exists>w'. poll_symbols http auth ids (current, w) = (Inr (priced prices ids), current, w')"
proof (induction ids arbitrary: w)
  case (Cons i ids)
  obtain symb info where id: "i = (symb, info)" by (cases i)
  obtain w1 where "poll_symbol http auth info (current, w) = (Inr (Some (mk_quote (fst (prices info)) (snd (prices info)))), current, w1)"
    using serves_symbol [OF Cons.prems, of info current w] by auto
  moreover obtain w2 where "poll_symbols http auth ids (current, w1) = (Inr (priced prices ids), current, w2)"
    using Cons by blast
  ultimately show ?case by (simp add: id priced_def)
qed (simp add: priced_def)

text \<open>
  An expired token costs one price: the poll that meets it renews it at the first symbol and reads all others, and from then on every poll reads
  all prices.
\<close>

theorem expired_token_costs_one:
  assumes "serves http auth current prices"
  shows "\<exists>w'. poll_symbols http auth ids (token, w) =
    (Inr (priced prices (if token = current then ids else tl ids)), if ids = [] then token else current, w')"
proof (cases ids)
  case (Cons i rest)
  obtain symb info where id: "i = (symb, info)" by (cases i)
  obtain w1 where s: "poll_symbol http auth info (token, w) =
      (Inr (if token = current then Some (mk_quote (fst (prices info)) (snd (prices info))) else None), current, w1)"
    using serves_symbol [OF assms] by blast
  obtain w2 where "poll_symbols http auth rest (current, w1) = (Inr (priced prices rest), current, w2)"
    using current_polls_all [OF assms] by blast
  with s show ?thesis by (auto simp: Cons id priced_def)
qed (simp add: priced_def)

text \<open>A renewal that fails ends the poll at any symbol: the prices read before it are dropped, and the turn does nothing.\<close>

lemma failed_renewal_drops_prices:
  assumes "poll_symbols http auth before tw = (Inr prices, token, w)" and "http w token info = (StatusError 401, w1)" and "auth w1 = (Inl x, w2)"
  shows "poll_symbols http auth (before @ (symb, info) # rest) tw = (Inl x, token, w2)
    \<and> rest_turn http auth (before @ (symb, info) # rest) on_candle p e clock tw = ((p, e), token, w2)"
proof -
  have "poll_symbols http auth (before @ (symb, info) # rest) tw = (Inl x, token, w2)"
    using assms
  proof (induction before arbitrary: tw prices)
    case Nil
    then show ?case by (simp add: poll_symbol_def)
  next
    case (Cons b bs)
    then show ?case
      by (cases b) (auto simp: bind_res_eq_Inr split: prod.splits sum.splits option.splits)
  qed
  then show ?thesis by (simp add: rest_turn_def)
qed

end
