(* ===== verification/Logging.thy ===== *)
theory Logging
  imports Py_String
begin

text \<open>
  The configuration of the log (\<open>src/app/utils/logging.py\<close>): the root logger with its level and handlers, the loggers of the libraries that
  are quietened, and the fields every record gets.  The formatter of the library and the writing of records are left out; the text of
  a record's time and its message are arguments.

  The lemmas show that only the first successful call counts, and that a record keeps the fields it came with.
\<close>

section \<open>The handlers\<close>

datatype formatter = UtcJson | Readable

datatype log_handler = Existing nat | Stdout formatter

record log_state =
  ls_configured :: bool
  ls_level :: string
  ls_handlers :: "log_handler list"
  ls_loggers :: "string \<rightharpoonup> string"

definition level_names :: "string set" where
  "level_names = {''CRITICAL'', ''FATAL'', ''ERROR'', ''WARN'', ''WARNING'', ''INFO'', ''DEBUG'', ''NOTSET''}"

definition noisy_loggers :: "string list" where
  "noisy_loggers = [''httpx'', ''httpcore'', ''websockets'', ''urllib3'']"

text \<open>The level is set first; one that is not known raises before anything else is changed.\<close>

definition configure_logging :: "string \<Rightarrow> bool \<Rightarrow> log_state \<Rightarrow> unit res \<times> log_state" where
  "configure_logging level json_output s =
     (if ls_configured s then (Inr (), s)
      else if py_upper level \<notin> level_names then (Inl ValueError, s)
      else (Inr (), s\<lparr>ls_configured := True, ls_level := py_upper level, ls_handlers := [Stdout (if json_output then UtcJson else Readable)],
        ls_loggers := foldl (\<lambda>m n. m(n \<mapsto> ''WARNING'')) (ls_loggers s) noisy_loggers\<rparr>))"

section \<open>The fields of a record\<close>

definition setdefault :: "('k \<rightharpoonup> 'v) \<Rightarrow> 'k \<Rightarrow> 'v \<Rightarrow> ('k \<rightharpoonup> 'v)" where
  "setdefault m k v = (case m k of None \<Rightarrow> m(k \<mapsto> v) | Some x \<Rightarrow> m)"

definition add_fields :: "string \<Rightarrow> string \<Rightarrow> string \<Rightarrow> string \<Rightarrow> (string \<rightharpoonup> string) \<Rightarrow> (string \<rightharpoonup> string)" where
  "add_fields time_text levelname name message rec =
     (let r1 = setdefault rec ''timestamp'' time_text; r2 = setdefault r1 ''level'' levelname; r3 = setdefault r2 ''logger'' name
      in if r3 ''message'' = None then r3(''message'' \<mapsto> message) else r3)"

section \<open>Lemmas\<close>

text \<open>Only the first call that succeeds counts; afterwards a call does nothing, with whatever level.\<close>

lemma configure_once:
  assumes "configure_logging level json s = (Inr (), s')"
  shows "ls_configured s' \<and> configure_logging level' json' s' = (Inr (), s')"
  using assms by (auto simp: configure_logging_def split: if_splits)

lemma configured_handlers:
  assumes "configure_logging level json s = (Inr (), s')" and "\<not> ls_configured s"
  shows "ls_handlers s' = [Stdout (if json then UtcJson else Readable)] \<and> (\<forall>n \<in> set noisy_loggers. ls_loggers s' n = Some ''WARNING'')"
  using assms by (auto simp: configure_logging_def noisy_loggers_def split: if_splits)

lemma setdefault_map: "m \<subseteq>\<^sub>m setdefault m k v" and dom_setdefault: "dom (setdefault m k v) = insert k (dom m)"
  by (auto simp: setdefault_def map_le_def split: option.split)

text \<open>A record keeps its own fields, and has the four of the standard.\<close>

lemma add_fields_keeps:
  "rec \<subseteq>\<^sub>m add_fields time_text levelname name message rec
   \<and> {''timestamp'', ''level'', ''logger'', ''message''} \<subseteq> dom (add_fields time_text levelname name message rec)"
proof -
  define r3 where "r3 = setdefault (setdefault (setdefault rec ''timestamp'' time_text) ''level'' levelname) ''logger'' name"
  have fields: "add_fields time_text levelname name message rec = (if r3 ''message'' = None then r3(''message'' \<mapsto> message) else r3)"
    by (simp only: add_fields_def r3_def Let_def)
  have "rec \<subseteq>\<^sub>m r3" unfolding r3_def by (meson map_le_trans setdefault_map)
  moreover have "{''timestamp'', ''level'', ''logger''} \<subseteq> dom r3" unfolding r3_def dom_setdefault by blast
  moreover have "r3 \<subseteq>\<^sub>m r3(''message'' \<mapsto> message)" if "r3 ''message'' = None"
    using that by (auto simp: map_le_def)
  ultimately show ?thesis unfolding fields by (auto intro: map_le_trans)
qed

end
