(* ===== verification/Journal.thy ===== *)
theory Journal
  imports Models
begin

text \<open>
  The trade journal (\<open>src/app/journal\<close>): the row of a trade, and the two ways \<open>save\<close> writes it, one statement
  with a conflict clause on SQLite, and a query followed by an update or an insertion on other
  databases.  The table is the list of its rows in the order of insertion; the surrogate key, which
  the database assigns, and the listing of recent rows, which leaves the order of equal times to the
  database, are left out.

  The lemmas show that both ways keep one row per trade, that they agree, and that a row holds the trade's
  last saved state.
\<close>

record trade_row =
  tr_trade_id :: string
  tr_symbol :: string
  tr_direction :: string
  tr_entry_time :: py_datetime
  tr_entry_price :: pyfloat
  tr_stop_loss :: pyfloat
  tr_take_profit :: pyfloat
  tr_quantity :: pyfloat
  tr_exit_time :: "py_datetime option"
  tr_exit_price :: "pyfloat option"
  tr_pnl :: "pyfloat option"
  tr_pnl_pct :: "pyfloat option"
  tr_status :: string
  tr_session :: string
  tr_entry_reason :: string
  tr_exit_reason :: "string option"
  tr_structure_tags :: "string list"
  tr_spread_pips :: "pyfloat option"
  tr_slippage_pips :: "pyfloat option"
  tr_latency_ms :: "pyfloat option"
  tr_rr_ratio :: "pyfloat option"
  tr_screenshot_path :: "string option"

definition to_row :: "trade \<Rightarrow> trade_row" where
  "to_row t = \<lparr>tr_trade_id = trade_id t, tr_symbol = t_symbol t, tr_direction = dir_value (t_direction t),
     tr_entry_time = t_entry_time t, tr_entry_price = t_entry_price t, tr_stop_loss = t_stop_loss t,
     tr_take_profit = t_take_profit t, tr_quantity = t_quantity t, tr_exit_time = t_exit_time t,
     tr_exit_price = t_exit_price t, tr_pnl = t_pnl t, tr_pnl_pct = t_pnl_pct t, tr_status = ts_value (t_status t),
     tr_session = t_session t, tr_entry_reason = t_entry_reason t, tr_exit_reason = t_exit_reason t,
     tr_structure_tags = t_structure_tags t, tr_spread_pips = t_spread_pips t, tr_slippage_pips = t_slippage_pips t,
     tr_latency_ms = t_latency_ms t, tr_rr_ratio = t_rr_ratio t, tr_screenshot_path = t_screenshot_path t\<rparr>"

type_synonym journal = "trade_row list"

text \<open>SQLite: \<open>INSERT ... ON CONFLICT (trade_id) DO UPDATE\<close> of every other column.\<close>

definition save_sqlite :: "journal \<Rightarrow> trade \<Rightarrow> journal" where
  "save_sqlite j t = (let data = to_row t in
     if tr_trade_id data \<in> tr_trade_id ` set j
     then map (\<lambda>r. if tr_trade_id r = tr_trade_id data then data\<lparr>tr_trade_id := tr_trade_id r\<rparr> else r) j
     else j @ [data])"

text \<open>Otherwise: \<open>SELECT\<close> one row with the identifier, and set its columns or add a new one.\<close>

fun set_first :: "(trade_row \<Rightarrow> bool) \<Rightarrow> trade_row \<Rightarrow> journal \<Rightarrow> journal" where
  "set_first p data [] = []"
| "set_first p data (r # rs) = (if p r then data # rs else r # set_first p data rs)"

definition save_select :: "journal \<Rightarrow> trade \<Rightarrow> journal" where
  "save_select j t = (let data = to_row t in
     case List.find (\<lambda>r. tr_trade_id r = trade_id t) j of
       Some existing \<Rightarrow> set_first (\<lambda>r. tr_trade_id r = trade_id t) data j
     | None \<Rightarrow> j @ [data])"

definition save :: "bool \<Rightarrow> journal \<Rightarrow> trade \<Rightarrow> journal" where
  "save is_sqlite j t = (if is_sqlite then save_sqlite j t else save_select j t)"

section \<open>One row per trade\<close>

definition rows_unique :: "journal \<Rightarrow> bool" where
  "rows_unique j \<longleftrightarrow> distinct (map tr_trade_id j)"

definition row_of :: "journal \<Rightarrow> string \<Rightarrow> trade_row option" where
  "row_of j i = List.find (\<lambda>r. tr_trade_id r = i) j"

lemma to_row_id [simp]: "tr_trade_id (to_row t) = trade_id t"
  by (simp add: to_row_def)

lemma update_ids: "map tr_trade_id (map (\<lambda>r. if tr_trade_id r = k then d\<lparr>tr_trade_id := tr_trade_id r\<rparr> else r) j) = map tr_trade_id j"
  by (induction j) simp_all

lemma update_same: "(if tr_trade_id r = tr_trade_id d then d\<lparr>tr_trade_id := tr_trade_id r\<rparr> else r)
    = (if tr_trade_id r = tr_trade_id d then d else r)"
  by simp

lemma row_of_None: "row_of j i = None \<longleftrightarrow> i \<notin> tr_trade_id ` set j"
  by (auto simp: row_of_def find_None_iff)

lemma row_of_append: "row_of (j @ [d]) i = (case row_of j i of None \<Rightarrow> if tr_trade_id d = i then Some d else None | Some r \<Rightarrow> Some r)"
  unfolding row_of_def by (induction j) auto

lemma row_of_update: "row_of (map (\<lambda>r. if tr_trade_id r = tr_trade_id d then d else r) j) i =
    (if i = tr_trade_id d \<and> i \<in> tr_trade_id ` set j then Some d else row_of j i)"
  unfolding row_of_def by (induction j) auto

lemma save_sqlite_unique: "rows_unique j \<Longrightarrow> rows_unique (save_sqlite j t)"
proof (cases "trade_id t \<in> tr_trade_id ` set j")
  case True
  then have "save_sqlite j t = map (\<lambda>r. if tr_trade_id r = trade_id t then (to_row t)\<lparr>tr_trade_id := tr_trade_id r\<rparr> else r) j"
    by (simp add: save_sqlite_def)
  then show "rows_unique j \<Longrightarrow> ?thesis" by (simp only: rows_unique_def update_ids)
qed (simp add: save_sqlite_def rows_unique_def)

text \<open>The abstraction to a map: saving is an update at the trade's identifier.\<close>

lemma save_sqlite_row_of: "row_of (save_sqlite j t) = (row_of j)(trade_id t \<mapsto> to_row t)"
proof
  fix i
  show "row_of (save_sqlite j t) i = ((row_of j)(trade_id t \<mapsto> to_row t)) i"
  proof (cases "trade_id t \<in> tr_trade_id ` set j")
    case True
    then show ?thesis using row_of_update [of "to_row t" j i] by (auto simp: save_sqlite_def update_same [of _ "to_row t", simplified])
  next
    case False
    then have "row_of j (trade_id t) = None" by (simp add: row_of_None)
    with False show ?thesis by (auto simp: save_sqlite_def row_of_append split: option.split)
  qed
qed

lemma set_first_unique:
  "rows_unique j \<Longrightarrow> i \<in> tr_trade_id ` set j \<Longrightarrow>
     set_first (\<lambda>r. tr_trade_id r = i) d j = map (\<lambda>r. if tr_trade_id r = i then d else r) j"
proof (induction j)
  case (Cons r rs)
  have "map (\<lambda>r. if tr_trade_id r = i then d else r) rs = rs" if "i \<notin> tr_trade_id ` set rs"
    using that by (intro map_idI) auto
  with Cons show ?case by (auto simp: rows_unique_def)
qed simp

lemma saves_agree: "rows_unique j \<Longrightarrow> save_select j t = save_sqlite j t"
proof -
  assume u: "rows_unique j"
  show ?thesis
  proof (cases "trade_id t \<in> tr_trade_id ` set j")
    case True
    then obtain r where "List.find (\<lambda>r. tr_trade_id r = trade_id t) j = Some r"
      using row_of_None [of j "trade_id t"] by (auto simp: row_of_def)
    with True set_first_unique [OF u True, of "to_row t"] show ?thesis
      by (simp add: save_select_def save_sqlite_def update_same [of _ "to_row t", simplified])
  next
    case False
    then have "List.find (\<lambda>r. tr_trade_id r = trade_id t) j = None"
      using row_of_None [of j "trade_id t"] by (simp add: row_of_def)
    with False show ?thesis by (simp add: save_select_def save_sqlite_def)
  qed
qed

lemma saves_unique: "rows_unique j \<Longrightarrow> rows_unique (foldl (save b) j ts)"
  by (induction ts arbitrary: j) (simp_all add: save_def saves_agree save_sqlite_unique)

lemma saves_row_of: "rows_unique j \<Longrightarrow> row_of (foldl (save b) j ts) = foldl (\<lambda>m t. m(trade_id t \<mapsto> to_row t)) (row_of j) ts"
  by (induction ts arbitrary: j) (simp_all add: save_def saves_agree save_sqlite_unique save_sqlite_row_of)

lemma last_write: "foldl (\<lambda>m t. m(trade_id t \<mapsto> to_row t)) m ts i =
    (case List.find (\<lambda>t. trade_id t = i) (rev ts) of None \<Rightarrow> m i | Some t \<Rightarrow> Some (to_row t))"
  by (induction ts rule: rev_induct) auto

section \<open>Properties\<close>

text \<open>
  C15. The journal keeps one row per trade with the trade's last saved state, and both ways of saving
  write the same table: after any sequence of saves, the row found under an identifier is that of the last trade saved
  with it, and there is none for an identifier that was never saved.
\<close>

theorem journal_last_write:
  "foldl (save True) [] ts = foldl (save False) [] ts
   \<and> distinct (map tr_trade_id (foldl (save b) [] ts))
   \<and> row_of (foldl (save b) [] ts) i = map_option to_row (List.find (\<lambda>t. trade_id t = i) (rev ts))"
proof -
  have empty: "rows_unique []" "row_of [] = Map.empty" by (simp_all add: rows_unique_def row_of_def fun_eq_iff)
  have "foldl (save True) j ts = foldl (save False) j ts" if "rows_unique j" for j
    using that by (induction ts arbitrary: j) (simp_all add: save_def saves_agree save_sqlite_unique)
  moreover have "rows_unique (foldl (save b) [] ts)" using saves_unique empty(1) by blast
  moreover have "row_of (foldl (save b) [] ts) i = map_option to_row (List.find (\<lambda>t. trade_id t = i) (rev ts))"
    unfolding saves_row_of [OF empty(1)] empty(2) last_write by (simp split: option.split)
  ultimately show ?thesis using empty(1) by (simp add: rows_unique_def)
qed

end
