(* ===== verification/TradeLocker.thy ===== *)
theory TradeLocker
  imports Config Broker
begin

text \<open>
  The REST client of the live broker (\<open>src/app/broker/tradelocker.py\<close>): the tokens, the lock around
  the authentication, the request with retries, and the broker's operations on top of it.  The HTTP
  service is an argument, a function on its own state; the decoding of a token's expiry is one too.
  Of an answer the model keeps the status, the text and the fields the code reads, whose numbers are
  JSON numbers; a field that is null counts as missing.  An operation that never returns, because it waits for a lock that its own task
  holds, has the result \<open>None\<close>.  The operations are taken one at a time; \<open>tl_locked\<close> says that a task
  that never returns holds the lock.

  The lemmas show: with a free lock every request returns after at most nine HTTP calls; a failed
  refresh of the token never returns and blocks every later authentication; and how often an order
  is sent.
\<close>

section \<open>The service\<close>

datatype tl_request = AuthReq | RefreshReq string | StateReq | QuoteReq string | OrderReq order | CancelReq string | CloseReq string

record tl_body =
  tb_access :: "string option"
  tb_refresh :: "string option"
  tb_num :: "string \<rightharpoonup> pyfloat"
  tb_details :: "(string \<rightharpoonup> pyfloat) option"
  tb_order_id :: string

datatype tl_reply = Answer int string tl_body | NoAnswer

record tl =
  tl_settings :: settings
  tl_access :: "string option"
  tl_refresh :: "string option"
  tl_exp :: pyfloat
  tl_locked :: bool
  tl_closed :: bool
  tl_sent :: "tl_request list"

text \<open>\<open>tl_sent\<close> records the requests for the statements below.  The client raises when it was closed.\<close>

type_synonym 'w tl_http = "'w \<Rightarrow> tl_request \<Rightarrow> tl_reply \<times> 'w"

definition new_tl :: "settings \<Rightarrow> tl" where
  "new_tl s = \<lparr>tl_settings = s, tl_access = None, tl_refresh = None, tl_exp = 0, tl_locked = False, tl_closed = False, tl_sent = []\<rparr>"

definition send :: "'w tl_http \<Rightarrow> tl \<times> 'w \<Rightarrow> tl_request \<Rightarrow> tl_reply res \<times> tl \<times> 'w" where
  "send http tw q = (case tw of (t, w) \<Rightarrow>
     if tl_closed t then (Inl RuntimeError, t, w)
     else case http w q of (r, w1) \<Rightarrow>
       ((case r of NoAnswer \<Rightarrow> Inl TransportError | Answer code msg body \<Rightarrow> Inr r), t\<lparr>tl_sent := tl_sent t @ [q]\<rparr>, w1))"

section \<open>Authentication\<close>

text \<open>\<open>_decode_exp\<close>: the claim \<open>exp\<close> of the token, or ten minutes from now.\<close>

definition decode_exp :: "(string \<Rightarrow> pyfloat option res) \<Rightarrow> pyfloat \<Rightarrow> string \<Rightarrow> pyfloat" where
  "decode_exp jwt now token = (case jwt token of Inr (Some e) \<Rightarrow> e | _ \<Rightarrow> fadd now 600)"

definition set_tokens :: "(string \<Rightarrow> pyfloat option res) \<Rightarrow> pyfloat \<Rightarrow> tl \<Rightarrow> string option \<Rightarrow> tl_body \<Rightarrow> unit res \<times> tl" where
  "set_tokens jwt now t fallback body = (case tb_access body of
       None \<Rightarrow> (Inl KeyError, t)
     | Some a \<Rightarrow> (Inr (), t\<lparr>tl_access := Some a,
         tl_refresh := (case tb_refresh body of None \<Rightarrow> fallback | Some r \<Rightarrow> Some r), tl_exp := decode_exp jwt now a\<rparr>))"

definition authenticate :: "(string \<Rightarrow> pyfloat option res) \<Rightarrow> pyfloat \<Rightarrow> 'w tl_http \<Rightarrow> tl \<times> 'w \<Rightarrow> unit res option \<times> tl \<times> 'w" where
  "authenticate jwt now http tw =
     (if tl_locked (fst tw) then (None, tw)
      else case send http tw AuthReq of
        (Inl x, tw1) \<Rightarrow> (Some (Inl x), tw1)
      | (Inr NoAnswer, tw1) \<Rightarrow> (Some (Inl TransportError), tw1)
      | (Inr (Answer code msg body), t1, w1) \<Rightarrow>
          if code \<ge> 400 then (Some (Inl AuthError), t1, w1)
          else case set_tokens jwt now t1 None body of (r, t2) \<Rightarrow> (Some r, t2, w1))"

text \<open>A refresh that is refused authenticates again while it holds the lock.\<close>

definition refresh :: "(string \<Rightarrow> pyfloat option res) \<Rightarrow> pyfloat \<Rightarrow> 'w tl_http \<Rightarrow> tl \<times> 'w \<Rightarrow> unit res option \<times> tl \<times> 'w" where
  "refresh jwt now http tw =
     (case tl_refresh (fst tw) of
        None \<Rightarrow> authenticate jwt now http tw
      | Some token \<Rightarrow>
          if token = [] then authenticate jwt now http tw
          else if tl_locked (fst tw) then (None, tw)
          else case send http tw (RefreshReq token) of
            (Inl x, tw1) \<Rightarrow> (Some (Inl x), tw1)
          | (Inr NoAnswer, tw1) \<Rightarrow> (Some (Inl TransportError), tw1)
          | (Inr (Answer code msg body), t1, w1) \<Rightarrow>
              if code \<ge> 400 then authenticate jwt now http (t1\<lparr>tl_locked := True\<rparr>, w1)
              else case set_tokens jwt now t1 (tl_refresh t1) body of (r, t2) \<Rightarrow> (Some r, t2, w1))"

definition refresh_lead :: "pyfloat \<Rightarrow> pyfloat \<Rightarrow> pyfloat" where
  "refresh_lead expires now = max (fsub (fsub expires now) 60) 5"

text \<open>Turns of the refresh loop, each with its clock: an exception is logged; a turn that does not return is the last.\<close>

fun refresh_loop :: "(string \<Rightarrow> pyfloat option res) \<Rightarrow> 'w tl_http \<Rightarrow> tl \<times> 'w \<Rightarrow> pyfloat list \<Rightarrow> unit option \<times> tl \<times> 'w" where
  "refresh_loop jwt http tw [] = (Some (), tw)"
| "refresh_loop jwt http tw (now # nows) =
     (case refresh jwt now http tw of
        (None, tw1) \<Rightarrow> (None, tw1)
      | (Some r, tw1) \<Rightarrow> refresh_loop jwt http tw1 nows)"

definition tl_connect :: "(string \<Rightarrow> pyfloat option res) \<Rightarrow> pyfloat \<Rightarrow> 'w tl_http \<Rightarrow> tl \<times> 'w \<Rightarrow> unit res option \<times> tl \<times> 'w" where
  "tl_connect jwt now http tw = authenticate jwt now http tw"

text \<open>Closing cancels the refresh task, which gives the lock back if that task holds it, and closes the HTTP client.\<close>

definition tl_close :: "tl \<Rightarrow> tl" where
  "tl_close t = t\<lparr>tl_locked := False, tl_closed := True\<rparr>"

section \<open>Requests\<close>

text \<open>How a request ends: with the body, with an HTTP error status and its text, or with another exception.\<close>

datatype 'a req = ReqOk 'a | ReqStatus int string | ReqRaise py_exc

definition raise_for_status :: "tl_reply \<Rightarrow> tl_body req" where
  "raise_for_status r = (case r of
       NoAnswer \<Rightarrow> ReqRaise TransportError
     | Answer code msg body \<Rightarrow> if 200 \<le> code \<and> code < 300 then ReqOk body else ReqStatus code msg)"

definition reply_status :: "tl_reply \<Rightarrow> int" where
  "reply_status r = (case r of NoAnswer \<Rightarrow> 0 | Answer code msg body \<Rightarrow> code)"

definition request_once :: "(string \<Rightarrow> pyfloat option res) \<Rightarrow> pyfloat \<Rightarrow> 'w tl_http \<Rightarrow> tl_request \<Rightarrow> tl \<times> 'w
    \<Rightarrow> tl_body req option \<times> tl \<times> 'w" where
  "request_once jwt now http q tw =
     (case send http tw q of
        (Inl x, tw1) \<Rightarrow> (Some (ReqRaise x), tw1)
      | (Inr r, tw1) \<Rightarrow>
          if reply_status r = 401 then
            (case authenticate jwt now http tw1 of
               (None, tw2) \<Rightarrow> (None, tw2)
             | (Some (Inl x), tw2) \<Rightarrow> (Some (ReqRaise x), tw2)
             | (Some (Inr u), tw2) \<Rightarrow>
                 (case send http tw2 q of
                    (Inl x, tw3) \<Rightarrow> (Some (ReqRaise x), tw3)
                  | (Inr r2, tw3) \<Rightarrow> (Some (raise_for_status r2), tw3)))
          else (Some (raise_for_status r), tw1))"

definition retryable :: "tl_body req \<Rightarrow> bool" where
  "retryable r = (case r of ReqOk b \<Rightarrow> False | ReqStatus code msg \<Rightarrow> True | ReqRaise x \<Rightarrow> x = TransportError)"

text \<open>The attempts of \<open>tenacity\<close>: the argument counts those still allowed.\<close>

fun request_attempts :: "nat \<Rightarrow> (string \<Rightarrow> pyfloat option res) \<Rightarrow> pyfloat \<Rightarrow> 'w tl_http \<Rightarrow> tl_request \<Rightarrow> tl \<times> 'w
    \<Rightarrow> tl_body req option \<times> tl \<times> 'w" where
  "request_attempts 0 jwt now http q tw = (Some (ReqRaise RuntimeError), tw)"
| "request_attempts (Suc n) jwt now http q tw =
     (case request_once jwt now http q tw of
        (None, tw1) \<Rightarrow> (None, tw1)
      | (Some r, tw1) \<Rightarrow> if retryable r \<and> n \<noteq> 0 then request_attempts n jwt now http q tw1 else (Some r, tw1))"

definition tl_request_retry :: "(string \<Rightarrow> pyfloat option res) \<Rightarrow> pyfloat \<Rightarrow> 'w tl_http \<Rightarrow> tl_request \<Rightarrow> tl \<times> 'w
    \<Rightarrow> tl_body req option \<times> tl \<times> 'w" where
  "tl_request_retry = request_attempts 3"

section \<open>The broker's operations\<close>

definition req_res :: "'a req \<Rightarrow> ('a \<Rightarrow> 'b res) \<Rightarrow> 'b res" where
  "req_res r f = (case r of ReqOk b \<Rightarrow> f b | ReqStatus code msg \<Rightarrow> Inl (HTTPStatusError code) | ReqRaise x \<Rightarrow> Inl x)"

definition body_balance :: "settings \<Rightarrow> tl_body \<Rightarrow> pyfloat" where
  "body_balance s b =
     (case List.find (\<lambda>k. tb_num b k \<noteq> None) [''balance'', ''Balance'', ''accountBalance''] of
        Some k \<Rightarrow> the (tb_num b k)
      | None \<Rightarrow> (case tb_details b of
            None \<Rightarrow> account_balance s
          | Some d \<Rightarrow> (case d ''balance'' of None \<Rightarrow> account_balance s | Some x \<Rightarrow> x)))"

definition tl_balance :: "(string \<Rightarrow> pyfloat option res) \<Rightarrow> pyfloat \<Rightarrow> 'w tl_http \<Rightarrow> tl \<times> 'w \<Rightarrow> pyfloat res option \<times> tl \<times> 'w" where
  "tl_balance jwt now http tw = (case tl_request_retry jwt now http StateReq tw of
     (r, tw1) \<Rightarrow> (map_option (\<lambda>q. req_res q (\<lambda>b. Inr (body_balance (tl_settings (fst tw)) b))) r, tw1))"

text \<open>Python's \<open>x or y\<close> on optional numbers.\<close>

definition num_or :: "pyfloat option \<Rightarrow> pyfloat option \<Rightarrow> pyfloat" where
  "num_or x y = (case x of Some a \<Rightarrow> if a \<noteq> 0 then a else (case y of None \<Rightarrow> 0 | Some b \<Rightarrow> b)
     | None \<Rightarrow> (case y of None \<Rightarrow> 0 | Some b \<Rightarrow> b))"

definition body_quote :: "tl_body \<Rightarrow> (pyfloat \<times> pyfloat) res" where
  "body_quote b = (let bid = num_or (tb_num b ''bid'') (tb_num b ''b''); ask = num_or (tb_num b ''ask'') (tb_num b ''a'')
     in if bid \<le> 0 \<or> ask \<le> 0 then Inl ValueError else Inr (bid, ask))"

definition tl_quote :: "(string \<Rightarrow> pyfloat option res) \<Rightarrow> pyfloat \<Rightarrow> 'w tl_http \<Rightarrow> string \<Rightarrow> tl \<times> 'w
    \<Rightarrow> (pyfloat \<times> pyfloat) res option \<times> tl \<times> 'w" where
  "tl_quote jwt now http symb tw = (case tl_request_retry jwt now http (QuoteReq symb) tw of
     (r, tw1) \<Rightarrow> (map_option (\<lambda>q. req_res q body_quote) r, tw1))"

definition placed_order :: "order \<Rightarrow> tl_body req \<Rightarrow> order res" where
  "placed_order ord r = (case r of
       ReqOk b \<Rightarrow> Inr (ord\<lparr>o_status := SUBMITTED, broker_order_id := Some (tb_order_id b)\<rparr>)
     | ReqStatus code msg \<Rightarrow> Inr (ord\<lparr>o_status := REJECTED, rejection_reason := Some (take 200 msg)\<rparr>)
     | ReqRaise x \<Rightarrow> Inl x)"

definition tl_place :: "(string \<Rightarrow> pyfloat option res) \<Rightarrow> pyfloat \<Rightarrow> 'w tl_http \<Rightarrow> order \<Rightarrow> tl \<times> 'w \<Rightarrow> order res option \<times> tl \<times> 'w" where
  "tl_place jwt now http ord tw = (case tl_request_retry jwt now http (OrderReq ord) tw of
     (r, tw1) \<Rightarrow> (map_option (placed_order ord) r, tw1))"

text \<open>\<open>cancel_order\<close> and \<open>close_position\<close>: an error status is \<open>False\<close>.\<close>

definition done_or_not :: "tl_body req \<Rightarrow> bool res" where
  "done_or_not r = (case r of ReqOk b \<Rightarrow> Inr True | ReqStatus code msg \<Rightarrow> Inr False | ReqRaise x \<Rightarrow> Inl x)"

definition tl_cancel :: "(string \<Rightarrow> pyfloat option res) \<Rightarrow> pyfloat \<Rightarrow> 'w tl_http \<Rightarrow> string \<Rightarrow> tl \<times> 'w \<Rightarrow> bool res option \<times> tl \<times> 'w" where
  "tl_cancel jwt now http oid tw = (case tl_request_retry jwt now http (CancelReq oid) tw of
     (r, tw1) \<Rightarrow> (map_option done_or_not r, tw1))"

definition tl_close_position :: "(string \<Rightarrow> pyfloat option res) \<Rightarrow> pyfloat \<Rightarrow> 'w tl_http \<Rightarrow> string \<Rightarrow> tl \<times> 'w
    \<Rightarrow> bool res option \<times> tl \<times> 'w" where
  "tl_close_position jwt now http symb tw = (case tl_request_retry jwt now http (CloseReq symb) tw of
     (r, tw1) \<Rightarrow> (map_option done_or_not r, tw1))"

section \<open>The lock and the number of calls\<close>

text \<open>What an operation may do to the client: keep the lock as it is and send at most \<open>n\<close> requests.\<close>

definition bounded_op :: "nat \<Rightarrow> tl \<Rightarrow> tl \<Rightarrow> bool" where
  "bounded_op n t t1 \<longleftrightarrow> tl_locked t1 = tl_locked t \<and> length (tl_sent t1) \<le> length (tl_sent t) + n \<and> tl_settings t1 = tl_settings t"

lemma bounded_op_trans: "bounded_op m t t1 \<Longrightarrow> bounded_op n t1 t2 \<Longrightarrow> bounded_op (m + n) t t2"
  by (simp add: bounded_op_def)

lemma bounded_op_mono: "bounded_op m t t1 \<Longrightarrow> m \<le> n \<Longrightarrow> bounded_op n t t1"
  by (simp add: bounded_op_def)

lemma bounded_op_refl [simp]: "bounded_op n t t"
  by (simp add: bounded_op_def)

lemma send_bounded: "send http tw q = (r, tw1) \<Longrightarrow> bounded_op 1 (fst tw) (fst tw1)"
  by (auto simp: send_def bounded_op_def split: prod.splits if_splits)

lemma set_tokens_bounded: "set_tokens jwt now t fb body = (r, t1) \<Longrightarrow> bounded_op 0 t t1"
  by (auto simp: set_tokens_def bounded_op_def split: option.splits)

lemma authenticate_bounded:
  assumes "authenticate jwt now http tw = (r, tw1)"
  shows "bounded_op 1 (fst tw) (fst tw1) \<and> (r = None \<longleftrightarrow> tl_locked (fst tw))"
proof (cases "tl_locked (fst tw)")
  case True
  with assms show ?thesis by (auto simp: authenticate_def)
next
  case False
  obtain s t1 w1 where s: "send http tw AuthReq = (s, t1, w1)" by (metis surj_pair)
  note b = send_bounded [OF s]
  show ?thesis
  proof (cases "\<exists>code msg body. s = Inr (Answer code msg body) \<and> code < 400")
    case True
    then obtain code msg body where a: "s = Inr (Answer code msg body)" "code < 400" by blast
    obtain r2 t2 where st: "set_tokens jwt now t1 None body = (r2, t2)" by fastforce
    with assms False s a have "r = Some r2" "fst tw1 = t2" by (auto simp: authenticate_def)
    with False bounded_op_trans [OF b [simplified]] set_tokens_bounded [OF st] show ?thesis by fastforce
  next
    case False
    with assms \<open>\<not> tl_locked (fst tw)\<close> s have "r \<noteq> None" "fst tw1 = t1"
      by (auto simp: authenticate_def split: sum.splits tl_reply.splits if_splits)
    with b \<open>\<not> tl_locked (fst tw)\<close> show ?thesis by simp
  qed
qed

lemma request_once_bounded:
  assumes "request_once jwt now http q tw = (r, tw1)"
  shows "bounded_op 3 (fst tw) (fst tw1) \<and> (r = None \<longrightarrow> tl_locked (fst tw))"
proof -
  obtain s tw2 where s: "send http tw q = (s, tw2)" by (metis surj_pair)
  note b = send_bounded [OF s]
  show ?thesis
  proof (cases "\<exists>rep. s = Inr rep \<and> reply_status rep = 401")
    case False
    with assms s have "r \<noteq> None" "tw1 = tw2" by (auto simp: request_once_def split: sum.splits if_splits)
    with bounded_op_mono [OF b, of 3] show ?thesis by auto
  next
    case True
    then obtain rep where rep: "s = Inr rep" "reply_status rep = 401" by blast
    obtain a tw3 where a: "authenticate jwt now http tw2 = (a, tw3)" by (metis surj_pair)
    note ab = authenticate_bounded [OF a]
    have two: "bounded_op 2 (fst tw) (fst tw3)"
      using bounded_op_trans [OF b conjunct1 [OF ab]] by (simp add: numeral_2_eq_2)
    show ?thesis
    proof (cases "a = Some (Inr ())")
      case False
      with assms s rep a have "tw1 = tw3" "r = None \<longrightarrow> a = None"
        by (auto simp: request_once_def split: option.splits sum.splits)
      with two ab b bounded_op_mono [OF two, of 3] show ?thesis by (auto simp: bounded_op_def)
    next
      case True
      obtain s2 tw4 where s2: "send http tw3 q = (s2, tw4)" by (metis surj_pair)
      with assms s rep a True have "tw1 = tw4" "r \<noteq> None" by (auto simp: request_once_def split: sum.splits)
      with bounded_op_trans [OF two send_bounded [OF s2]] show ?thesis by auto
    qed
  qed
qed

lemma request_attempts_bounded:
  "request_attempts n jwt now http q tw = (r, tw1) \<Longrightarrow>
     bounded_op (3 * n) (fst tw) (fst tw1) \<and> (r = None \<longrightarrow> tl_locked (fst tw))"
proof (induction n arbitrary: tw)
  case (Suc n)
  obtain a tw2 where a: "request_once jwt now http q tw = (a, tw2)" by (metis surj_pair)
  note b = request_once_bounded [OF a]
  show ?case
  proof (cases "\<exists>x. a = Some x \<and> retryable x \<and> n \<noteq> 0")
    case True
    with Suc.prems a have "request_attempts n jwt now http q tw2 = (r, tw1)" by auto
    from Suc.IH [OF this] b bounded_op_trans [of 3 "fst tw" "fst tw2" "3 * n" "fst tw1"] show ?thesis
      by (auto simp: bounded_op_def)
  next
    case False
    with Suc.prems a have "tw1 = tw2" "r = a" by (auto split: option.splits if_splits)
    with b bounded_op_mono [of 3 "fst tw" "fst tw2" "3 * Suc n"] show ?thesis by simp
  qed
qed auto

text \<open>A request that is answered with 401 while the lock is held never returns.\<close>

lemma request_401_hangs:
  assumes "tl_locked (fst tw)" and "\<not> tl_closed (fst tw)" and "reply_status (fst (http (snd tw) q)) = 401"
  shows "fst (tl_request_retry jwt now http q tw) = None"
proof -
  obtain t w where tw: "tw = (t, w)" by fastforce
  obtain rep w1 where h: "http w q = (rep, w1)" by fastforce
  with assms tw have "send http tw q = (Inr rep, t\<lparr>tl_sent := tl_sent t @ [q]\<rparr>, w1)"
    by (auto simp: send_def reply_status_def split: tl_reply.splits)
  moreover have "reply_status rep = 401" using assms(3) tw h by simp
  ultimately have "fst (request_once jwt now http q tw) = None"
    using assms(1) tw by (simp add: request_once_def authenticate_def)
  then show ?thesis by (cases "request_once jwt now http q tw") (simp add: tl_request_retry_def numeral_3_eq_3)
qed

text \<open>A request whose answer is lost is sent again, an order too.\<close>

lemma lost_answers_resend:
  assumes "\<not> tl_closed t"
  shows "tl_place jwt now (\<lambda>w q. (NoAnswer, w)) ord (t, w) =
    (Some (Inl TransportError), t\<lparr>tl_sent := tl_sent t @ [OrderReq ord, OrderReq ord, OrderReq ord]\<rparr>, w)"
  using assms
  by (simp add: tl_place_def tl_request_retry_def numeral_3_eq_3 request_once_def send_def retryable_def placed_order_def)

lemma lost_first_answer_places_twice:
  assumes "\<not> tl_closed t" and "http w (OrderReq ord) = (NoAnswer, w1)" and "http w1 (OrderReq ord) = (Answer 200 msg body, w2)"
  shows "fst (tl_place jwt now http ord (t, w)) = Some (Inr (ord\<lparr>o_status := SUBMITTED, broker_order_id := Some (tb_order_id body)\<rparr>))
    \<and> tl_sent (fst (snd (tl_place jwt now http ord (t, w)))) = tl_sent t @ [OrderReq ord, OrderReq ord]"
  using assms
  by (simp add: tl_place_def tl_request_retry_def numeral_3_eq_3 request_once_def send_def retryable_def placed_order_def
      reply_status_def raise_for_status_def)

section \<open>Properties\<close>

definition demo_tl :: tl where
  "demo_tl = (new_tl default_settings)\<lparr>tl_access := Some ''a'', tl_refresh := Some ''r''\<rparr>"

definition refusing :: "nat \<Rightarrow> tl_request \<Rightarrow> tl_reply \<times> nat" where
  "refusing n q = (Answer 401 [] \<lparr>tb_access = None, tb_refresh = None, tb_num = Map.empty, tb_details = None,
     tb_order_id = []\<rparr>, n + 1)"

lemma demo_tl_fields [simp]: "\<not> tl_locked demo_tl" "\<not> tl_closed demo_tl" "tl_refresh demo_tl = Some ''r''" "tl_sent demo_tl = []"
  by (simp_all add: demo_tl_def new_tl_def)

text \<open>
  C21. Every request ends: while no hung task holds the lock, a request returns, whatever the service answers,
  after at most nine HTTP calls, and leaves the lock free; so do placing and cancelling an order, closing a position, and reading
  the balance or a quote, which are one request each.
\<close>

theorem tl_request_returns:
  assumes "\<not> tl_locked (fst tw)"
  shows "(let r = tl_request_retry jwt now http q tw in
      fst r \<noteq> None \<and> \<not> tl_locked (fst (snd r)) \<and> length (tl_sent (fst (snd r))) \<le> length (tl_sent (fst tw)) + 9)
    \<and> fst (tl_place jwt now http ord tw) \<noteq> None \<and> fst (tl_cancel jwt now http oid tw) \<noteq> None
    \<and> fst (tl_close_position jwt now http symb tw) \<noteq> None \<and> fst (tl_balance jwt now http tw) \<noteq> None
    \<and> fst (tl_quote jwt now http symb tw) \<noteq> None"
proof -
  have ret: "fst (tl_request_retry jwt now http q tw) \<noteq> None" for q
    using request_attempts_bounded [of 3 jwt now http q tw] assms
    by (cases "tl_request_retry jwt now http q tw") (auto simp: tl_request_retry_def)
  obtain r tw1 where r: "tl_request_retry jwt now http q tw = (r, tw1)" by (metis surj_pair)
  have "bounded_op 9 (fst tw) (fst tw1)"
    using request_attempts_bounded [of 3 jwt now http q tw r tw1] r by (simp add: tl_request_retry_def)
  then show ?thesis
    using ret [of q] r ret assms
    by (auto simp: bounded_op_def Let_def tl_place_def tl_cancel_def tl_close_position_def tl_balance_def tl_quote_def split: prod.split)
      (metis fst_conv option.distinct(1))+
qed

lemma tl_request_returns_witness:
  "(let r = tl_request_retry (\<lambda>t. Inr None) 0 refusing StateReq (demo_tl, 0) in
      fst r \<noteq> None \<and> \<not> tl_locked (fst (snd r)) \<and> length (tl_sent (fst (snd r))) \<le> 9)"
  using tl_request_returns [of "(demo_tl, 0)" "\<lambda>t. Inr None" 0 refusing StateReq] by (simp add: Let_def)

text \<open>
  C22. A refused refresh never returns: when the service answers the refresh of the token with an error status, the client
  authenticates while it holds the lock that the authentication takes; the refresh, and with it the refresh loop,
  never returns and keeps the lock, and from then on no authentication, no refresh, no connection and no request that is answered
  with 401 returns, whatever the service would answer.
\<close>

theorem tl_refresh_deadlock:
  assumes "\<not> tl_locked t" and "\<not> tl_closed t" and "tl_refresh t = Some token" and "token \<noteq> []"
    and "http w (RefreshReq token) = (Answer code msg body, w1)" and "400 \<le> code"
  shows "fst (refresh jwt now http (t, w)) = None
    \<and> fst (refresh_loop jwt http (t, w) (now # nows)) = None
    \<and> (let stuck = snd (refresh jwt now http (t, w)) in
        tl_locked (fst stuck) \<and> fst (authenticate jwt' now' http' stuck) = None \<and> fst (refresh jwt' now' http' stuck) = None
        \<and> fst (tl_connect jwt' now' http' stuck) = None
        \<and> (reply_status (fst (http' (snd stuck) q)) = 401 \<longrightarrow> fst (tl_request_retry jwt' now' http' q stuck) = None))"
proof -
  let ?t = "t\<lparr>tl_sent := tl_sent t @ [RefreshReq token], tl_locked := True\<rparr>"
  have r: "refresh jwt now http (t, w) = (None, ?t, w1)"
    using assms by (simp add: refresh_def send_def authenticate_def)
  have "fst (refresh jwt' now' http' (?t, w1)) = None" using assms(3,4) by (simp add: refresh_def)
  moreover have "reply_status (fst (http' w1 q)) = 401 \<Longrightarrow> fst (tl_request_retry jwt' now' http' q (?t, w1)) = None"
    using request_401_hangs [of "(?t, w1)" http' q] assms(2) by simp
  ultimately show ?thesis by (simp add: r authenticate_def tl_connect_def Let_def)
qed

lemma tl_refresh_deadlock_witness:
  "fst (refresh (\<lambda>t. Inr None) 0 refusing (demo_tl, 0)) = None
   \<and> fst (tl_request_retry (\<lambda>t. Inr None) 0 refusing StateReq (snd (refresh (\<lambda>t. Inr None) 0 refusing (demo_tl, 0)))) = None"
proof -
  let ?b = "\<lparr>tb_access = None, tb_refresh = None, tb_num = Map.empty, tb_details = None, tb_order_id = []\<rparr>"
  have h: "refusing 0 (RefreshReq ''r'') = (Answer 401 [] ?b, 1)" by (simp add: refusing_def)
  have "reply_status (fst (refusing n StateReq)) = 401" for n by (simp add: refusing_def reply_status_def)
  with tl_refresh_deadlock [of demo_tl "''r''" refusing 0 401 "[]" ?b 1 "\<lambda>t. Inr None" 0 "[]" "\<lambda>t. Inr None" 0 refusing StateReq] h
  show ?thesis by (simp add: Let_def)
qed

end
