(* ===== verification/Live_Broker.thy ===== *)
theory Live_Broker
  imports TradeLocker Execution
begin

text \<open>
  The executor (\<open>src/app/execution/executor.py\<close>) on the live broker (\<open>src/app/broker/tradelocker.py\<close>): the
  client of the theory \<open>TradeLocker\<close> provides the broker protocol, and the two layers of retries compose.
  A call that never returns cannot happen here, because no hung task holds the client's lock.

  The lemmas show what a trade on the live broker rests on: an order that was sent, under the trade's
  identifier, at most nine times, and the price of the signal, since the client never learns the price of the fill.
\<close>

definition client_place :: "(string \<Rightarrow> pyfloat option res) \<Rightarrow> pyfloat \<Rightarrow> 'w tl_http \<Rightarrow> tl \<times> 'w \<Rightarrow> order \<Rightarrow> call_env
    \<Rightarrow> order res \<times> tl \<times> 'w" where
  "client_place jwt now http tw ord env = (case tl_place jwt now http ord tw of
     (r, tw1) \<Rightarrow> ((case r of None \<Rightarrow> Inl RuntimeError | Some x \<Rightarrow> x), tw1))"

definition configured_balance :: "tl \<times> 'w \<Rightarrow> pyfloat" where
  "configured_balance tw = account_balance (tl_settings (fst tw))"

lemma placed_order_Inr:
  "placed_order ord r = Inr p \<Longrightarrow> (\<exists>x. p = ord\<lparr>o_status := SUBMITTED, broker_order_id := Some x\<rparr> \<and> (\<exists>b. r = ReqOk b))
     \<or> (\<exists>m. p = ord\<lparr>o_status := REJECTED, rejection_reason := Some m\<rparr>)"
  by (auto simp: placed_order_def split: req.splits)

lemma client_place_Inr:
  assumes "client_place jwt now http tw ord env = (Inr p, tw1)"
  obtains r where "tl_request_retry jwt now http (OrderReq ord) tw = (Some r, tw1)" "placed_order ord r = Inr p"
  using assms by (auto simp: client_place_def tl_place_def split: prod.splits option.splits)

text \<open>A request that was answered was sent.\<close>

lemma send_Inr: "send http tw q = (Inr r, tw1) \<Longrightarrow> q \<in> set (tl_sent (fst tw1))"
  by (auto simp: send_def split: prod.splits if_splits)

lemma request_once_sent: "request_once jwt now http q tw = (Some (ReqOk b), tw1) \<Longrightarrow> q \<in> set (tl_sent (fst tw1))"
  by (auto simp: request_once_def dest: send_Inr split: prod.splits sum.splits option.splits if_splits)

lemma request_attempts_sent: "request_attempts n jwt now http q tw = (Some (ReqOk b), tw1) \<Longrightarrow> q \<in> set (tl_sent (fst tw1))"
  by (induction n arbitrary: tw) (auto dest: request_once_sent split: prod.splits option.splits if_splits)

lemma client_place_submitted:
  assumes "client_place jwt now http tw ord env = (Inr p, tw1)" and "o_status p \<noteq> REJECTED"
  shows "OrderReq ord \<in> set (tl_sent (fst tw1)) \<and> filled_price p = filled_price ord \<and> o_status p = SUBMITTED"
proof -
  from assms(1) obtain r where r: "tl_request_retry jwt now http (OrderReq ord) tw = (Some r, tw1)" "placed_order ord r = Inr p"
    by (rule client_place_Inr)
  from placed_order_Inr [OF r(2)] assms(2) r(1) show ?thesis
    by (auto simp: tl_request_retry_def intro: request_attempts_sent)
qed

lemma client_place_bounded: "bounded_op 9 (fst tw) (fst (snd (client_place jwt now http tw ord env)))"
proof -
  obtain r tw1 where r: "tl_request_retry jwt now http (OrderReq ord) tw = (r, tw1)" by (metis surj_pair)
  then have "bounded_op 9 (fst tw) (fst tw1)"
    using request_attempts_bounded [of 3 jwt now http "OrderReq ord" tw r tw1] by (simp add: tl_request_retry_def)
  with r show ?thesis by (simp add: client_place_def tl_place_def)
qed

interpretation tl_client: broker_client "client_place jwt now http" configured_balance for jwt now http
proof
  fix tw p tw1 ord env
  assume "client_place jwt now http tw ord env = (Inr p, tw1)"
  then show "same_order p ord" by (rule client_place_Inr) (auto simp: same_order_def dest: placed_order_Inr)
next
  fix tw ord env
  show "configured_balance (snd (client_place jwt now http tw ord env)) = configured_balance tw"
    using client_place_bounded [of tw jwt now http ord env] by (simp add: configured_balance_def bounded_op_def)
qed

text \<open>The attempt that succeeded.\<close>

lemma attempts_last: "attempts place b ord es = (Inr p, b') \<Longrightarrow> \<exists>b0 e. place b0 ord e = (Inr p, b') \<and> o_status p \<noteq> REJECTED"
proof (induction es arbitrary: b)
  case (Cons e es)
  obtain r b1 where r: "place b ord e = (r, b1)" by fastforce
  show ?case
  proof (cases "\<exists>q. r = Inr q \<and> o_status q \<noteq> REJECTED")
    case True
    with Cons.prems r have "r = Inr p" "b1 = b'" "o_status p \<noteq> REJECTED" by auto
    with r show ?thesis by blast
  next
    case False
    with Cons.prems r have "attempts place b1 ord es = (Inr p, b')" by (auto split: sum.splits if_splits)
    then show ?thesis by (rule Cons.IH)
  qed
qed simp

lemma attempts_bounded:
  "bounded_op (9 * length es) (fst tw) (fst (snd (attempts (client_place jwt now http) tw ord es)))"
proof (induction es arbitrary: tw)
  case (Cons e es)
  obtain r tw1 where r: "client_place jwt now http tw ord e = (r, tw1)" by (metis surj_pair)
  have b: "bounded_op 9 (fst tw) (fst tw1)" using client_place_bounded [of tw jwt now http ord e] r by simp
  from bounded_op_trans [OF b Cons.IH] bounded_op_mono [OF b, of "9 * length (e # es)"] r show ?case
    by (auto split: sum.split)
qed simp

lemma fquot_0_left [simp]: "fquot 0 x = 0"
  by (simp add: fquot_def)

section \<open>Properties\<close>

text \<open>
  C27. Trades on the live broker: when the executor opens a trade through the client, while no hung task holds its lock, the order
  of the trade was sent under the trade's identifier with its quantity, one signal makes at most 27 HTTP calls, and the lock stays free; and the
  entry of the trade is the entry of the signal with a slippage of zero, whatever the price of the fill.
\<close>

theorem live_trade_unconfirmed:
  assumes "handle_signal (client_place jwt now http) reg ex sg spread env = ((Inr (Some t), evs), ex')"
    and "\<not> tl_locked (fst (ex_broker ex))"
  shows "(\<exists>ord. OrderReq ord \<in> set (tl_sent (fst (ex_broker ex'))) \<and> client_order_id ord = trade_id t
      \<and> o_symbol ord = t_symbol t \<and> o_quantity ord = t_quantity t)
    \<and> length (tl_sent (fst (ex_broker ex'))) \<le> length (tl_sent (fst (ex_broker ex))) + 27
    \<and> \<not> tl_locked (fst (ex_broker ex'))
    \<and> t_entry_price t = sg_entry sg \<and> t_slippage_pips t = Some 0"
  using assms(1)
proof (rule handle_signal_Some)
  fix d rm
  assume fire: "fire (client_place jwt now http) reg (ex\<lparr>ex_risk := rm\<rparr>) sg d env = ((Inr (Some t), evs), ex')"
  then show ?thesis
  proof (rule fire_Some)
    fix placed b ord
    assume ord: "market_order (xe_id env) sg (rd_quantity d) = Inr ord"
      and retry: "with_retry (client_place jwt now http) (ex_broker (ex\<lparr>ex_risk := rm\<rparr>)) ord (xe_calls env) = (Inr placed, b)"
      and t: "trade_for sg d env t" "t_entry_price t = or_else (filled_price placed) (sg_entry sg)"
      and ex': "ex' = ex\<lparr>ex_risk := rm, ex_broker := b, ex_risk := register_trade_open (ex_risk (ex\<lparr>ex_risk := rm\<rparr>)) (dt_date (xe_now env)),
              ex_open_trades := (ex_open_trades (ex\<lparr>ex_risk := rm\<rparr>))(trade_id t \<mapsto> t)\<rparr>"
    from retry have "attempts (client_place jwt now http) (ex_broker ex) ord (map (xe_calls env) [0, 1, 2]) = (Inr placed, b)"
      by (simp add: with_retry_def)
    from attempts_last [OF this] attempts_bounded [where tw = "ex_broker ex" and es = "map (xe_calls env) [0, 1, 2]" and jwt = jwt
        and now = now and http = http and ord = ord] this
    obtain b0 e where p: "client_place jwt now http b0 ord e = (Inr placed, b)" "o_status placed \<noteq> REJECTED"
      and bound: "bounded_op 27 (fst (ex_broker ex)) (fst b)" by auto
    have ord': "client_order_id ord = xe_id env" "o_symbol ord = sg_symbol sg" "o_quantity ord = rd_quantity d" "filled_price ord = None"
      using ord by (auto simp: market_order_def mk_order_def split: if_splits)
    with client_place_submitted [OF p] have "OrderReq ord \<in> set (tl_sent (fst b))" "filled_price placed = None" by auto
    moreover from this t have price: "t_entry_price t = sg_entry sg" by (simp add: or_else_def)
    moreover have "t_slippage_pips t = Some 0"
      using fire ord retry \<open>filled_price placed = None\<close> client_place_submitted [OF p]
      by (auto simp: fire_def opened_trade_def or_else_def inst_pips_def fdiv_def bind_res_eq_Inr Let_def split: sum.splits if_splits)
    ultimately show ?thesis
      using ord' t(1) bound assms(2) by (auto simp: ex' bounded_op_def trade_for_def)
  qed
qed

text \<open>A service that accepts everything.\<close>

definition accepting :: "nat \<Rightarrow> tl_request \<Rightarrow> tl_reply \<times> nat" where
  "accepting n q = (Answer 200 [] \<lparr>tb_access = Some ''a'', tb_refresh = None, tb_num = Map.empty, tb_details = None,
     tb_order_id = ''b1''\<rparr>, n + 1)"

lemma live_trade_unconfirmed_witness:
  "\<exists>t evs ex'. handle_signal (client_place (\<lambda>t. Inr None) 0 accepting) default_registry
       (new_executor (demo_tl, 0) demo_risk full_auto 90) demo_btc_signal None demo_exec_env = ((Inr (Some t), evs), ex')
     \<and> t_entry_price t = 108 \<and> t_slippage_pips t = Some 0 \<and> length (tl_sent (fst (ex_broker ex'))) \<le> 27"
proof -
  let ?ex = "new_executor (demo_tl, 0 :: nat) demo_risk full_auto 90"
  have "\<exists>t evs ex'. handle_signal (client_place (\<lambda>t. Inr None) 0 accepting) default_registry ?ex demo_btc_signal None demo_exec_env
      = ((Inr (Some t), evs), ex')"
    unfolding handle_signal_def demo_exec_dates
    by (simp add: new_executor_def demo_evaluate fire_def market_order_def mk_order_def with_retry_def client_place_def tl_place_def
        tl_request_retry_def numeral_3_eq_3 request_once_def send_def accepting_def reply_status_def raise_for_status_def retryable_def
        placed_order_def or_else_def get_instrument_btcusd inst_pips_def Let_def)
      (simp add: fl_eval)
  then obtain t evs ex' where h: "handle_signal (client_place (\<lambda>t. Inr None) 0 accepting) default_registry ?ex demo_btc_signal None
      demo_exec_env = ((Inr (Some t), evs), ex')" by blast
  have "ex_broker ?ex = (demo_tl, 0)" by (simp add: new_executor_def)
  with live_trade_unconfirmed [OF h] have "t_entry_price t = sg_entry demo_btc_signal \<and> t_slippage_pips t = Some 0
      \<and> length (tl_sent (fst (ex_broker ex'))) \<le> 27" by simp
  with h show ?thesis by (auto simp: demo_btc_signal_def)
qed

end
