(* ===== verification/Engine.thy ===== *)
theory Engine
  imports Backtest Feed Journal TradeLocker
begin

text \<open>
  The engine of \<open>src/app/engine/orchestrator.py\<close> and the two dashboard routes that change it
  (\<open>src/app/api/routes/risk.py\<close> and \<open>settings.py\<close>): the start, candles from a poller, messages of the
  web socket, the kill switch, the snapshots of the risk manager that roll its day over, new risk parameters and
  the switch of the environment.  The live broker is an argument
  (\<open>live_ops\<close>; the theory \<open>TradeLocker\<close> models its client), and its calls are taken to return.  The
  broker object is shared by the engine and its executor, and the risk manager by the executor and
  the dashboard: \<open>en_own\<close> and \<open>en_dash_risk\<close> hold the object where that has ceased.

  The lemmas show: what the journal, the statistics and the risk manager hold after any events; that
  no trade is ever closed in paper mode; what a switch forgets and which manager the kill switch
  then halts; and that a strategy on one-hour bars gets no candle from Finnhub.
\<close>

section \<open>Brokers\<close>

datatype 'l any_broker = PaperB paper_broker | LiveB 'l

record 'l live_ops =
  lv_new :: "settings \<Rightarrow> 'l"
  lv_connect :: "'l \<Rightarrow> unit res \<times> 'l"
  lv_close :: "'l \<Rightarrow> unit res \<times> 'l"
  lv_balance :: "'l \<Rightarrow> pyfloat res \<times> 'l"
  lv_quote :: "'l \<Rightarrow> string \<Rightarrow> (pyfloat \<times> pyfloat) res \<times> 'l"
  lv_place :: "'l \<Rightarrow> order \<Rightarrow> call_env \<Rightarrow> order res \<times> 'l"

fun any_place :: "'l live_ops \<Rightarrow> 'l any_broker \<Rightarrow> order \<Rightarrow> call_env \<Rightarrow> order res \<times> 'l any_broker" where
  "any_place lv (PaperB b) ord e = (case paper_place b ord e of (r, b1) \<Rightarrow> (r, PaperB b1))"
| "any_place lv (LiveB l) ord e = (case lv_place lv l ord e of (r, l1) \<Rightarrow> (r, LiveB l1))"

fun any_quote :: "'l live_ops \<Rightarrow> 'l any_broker \<Rightarrow> string \<Rightarrow> (pyfloat \<times> pyfloat) res \<times> 'l any_broker" where
  "any_quote lv (PaperB b) symb = (paper_get_quote b symb, PaperB b)"
| "any_quote lv (LiveB l) symb = (case lv_quote lv l symb of (r, l1) \<Rightarrow> (r, LiveB l1))"

fun any_balance :: "'l live_ops \<Rightarrow> 'l any_broker \<Rightarrow> pyfloat res \<times> 'l any_broker" where
  "any_balance lv (PaperB b) = (Inr (paper_balance b), PaperB b)"
| "any_balance lv (LiveB l) = (case lv_balance lv l of (r, l1) \<Rightarrow> (r, LiveB l1))"

text \<open>Connecting and closing the paper broker only writes log records.\<close>

fun any_connect :: "'l live_ops \<Rightarrow> 'l any_broker \<Rightarrow> unit res \<times> 'l any_broker" where
  "any_connect lv (PaperB b) = (Inr (), PaperB b)"
| "any_connect lv (LiveB l) = (case lv_connect lv l of (r, l1) \<Rightarrow> (r, LiveB l1))"

fun any_close :: "'l live_ops \<Rightarrow> 'l any_broker \<Rightarrow> unit res \<times> 'l any_broker" where
  "any_close lv (PaperB b) = (Inr (), PaperB b)"
| "any_close lv (LiveB l) = (case lv_close lv l of (r, l1) \<Rightarrow> (r, LiveB l1))"

definition new_broker :: "'l live_ops \<Rightarrow> settings \<Rightarrow> trading_mode \<Rightarrow> 'l any_broker" where
  "new_broker lv s mode = (if mode = paper then PaperB (new_paper (account_balance s) 0) else LiveB (lv_new lv s))"

section \<open>State and start\<close>

record 'l engine =
  en_settings :: settings
  en_exec :: "'l any_broker executor"
  en_own :: "'l any_broker option"
  en_ws :: bool
  en_strategies :: "string \<rightharpoonup> strategy"
  en_stats :: aggregator
  en_is_sqlite :: bool
  en_journal :: journal
  en_last_signal :: "signal option"
  en_dash_risk :: "risk_manager option"

definition en_broker :: "'l engine \<Rightarrow> 'l any_broker" where
  "en_broker e = (case en_own e of None \<Rightarrow> ex_broker (en_exec e) | Some b \<Rightarrow> b)"

definition put_broker :: "'l engine \<Rightarrow> 'l any_broker \<Rightarrow> 'l engine" where
  "put_broker e b = (case en_own e of
       None \<Rightarrow> e\<lparr>en_exec := (en_exec e)\<lparr>ex_broker := b\<rparr>\<rparr>
     | Some b0 \<Rightarrow> e\<lparr>en_own := Some b\<rparr>)"

fun live_strategies :: "registry \<Rightarrow> settings \<Rightarrow> (string \<times> string) list \<Rightarrow> (string \<rightharpoonup> strategy) res" where
  "live_strategies reg s [] = Inr Map.empty"
| "live_strategies reg s ((symb, tf) # rest) =
     bind_res (new_strategy reg symb tf
         (new_session_filter (s_london_open s) (s_london_close s) (s_ny_open s) (s_ny_close s))
         (target_profit_pct_min s) (target_profit_pct_max s)) (\<lambda>st.
     bind_res (live_strategies reg s rest) (\<lambda>m. Inr (m(symb \<mapsto> st))))"

text \<open>The lengths of the candles, for the poller; an unknown timeframe raises.\<close>

definition poller_seconds :: "settings \<Rightarrow> (string \<rightharpoonup> int) res" where
  "poller_seconds s = bind_res (map_res (\<lambda>(symb, tf). bind_res (timeframe_of tf) (\<lambda>t. Inr (symb, to_seconds t)))
     (symbol_timeframe_map s)) (\<lambda>xs. Inr (map_of xs))"

definition start_engine :: "'l live_ops \<Rightarrow> registry \<Rightarrow> settings \<Rightarrow> bool \<Rightarrow> journal \<Rightarrow> int \<Rightarrow> 'l engine res" where
  "start_engine lv reg s is_sqlite j now =
     (case any_connect lv (new_broker lv s (app_mode s)) of
        (Inl x, b1) \<Rightarrow> Inl x
      | (Inr u, b1) \<Rightarrow>
          (case any_balance lv b1 of
             (Inl x, b2) \<Rightarrow> Inl x
           | (Inr balance, b2) \<Rightarrow>
               bind_res (live_strategies reg s (symbol_timeframe_map s)) (\<lambda>strats.
               bind_res (poller_seconds s) (\<lambda>secs.
               Inr \<lparr>en_settings = s,
                    en_exec = new_executor b2 (new_risk_manager s balance balance balance now) (app_mode s) 90,
                    en_own = None, en_ws = (app_mode s \<noteq> paper), en_strategies = strats, en_stats = new_aggregator balance,
                    en_is_sqlite = is_sqlite, en_journal = j, en_last_signal = None, en_dash_risk = None\<rparr>))))"

section \<open>Persistence\<close>

definition engine_persist :: "'l engine \<Rightarrow> trade \<Rightarrow> 'l engine" where
  "engine_persist e t = e\<lparr>en_journal := save (en_is_sqlite e) (en_journal e) t,
     en_stats := (if is_closed t then record_trade (en_stats e) t else en_stats e)\<rparr>"

fun persisted :: "exec_output list \<Rightarrow> trade list" where
  "persisted [] = []"
| "persisted (PersistTrade t # outs) = t # persisted outs"
| "persisted (out # outs) = persisted outs"

definition persist_all :: "'l engine \<Rightarrow> exec_output list \<Rightarrow> 'l engine" where
  "persist_all e outs = foldl engine_persist e (persisted outs)"

section \<open>Market data\<close>

type_synonym 'l outcome = "(exec_output list \<times> unit res) \<times> 'l engine"

text \<open>The quote of the paper broker around the close.\<close>

definition quote_candle :: "registry \<Rightarrow> 'l engine \<Rightarrow> candle \<Rightarrow> 'l engine res" where
  "quote_candle reg e c = (case en_broker e of
       LiveB l \<Rightarrow> Inr e
     | PaperB b \<Rightarrow> bind_res (get_instrument_in reg (c_symbol c)) (\<lambda>i.
         let half_spread = fquot (fmul (max_spread_pips_fx (en_settings e)) (pip_size i)) 2 in
         Inr (put_broker e (PaperB (paper_set_quote b (c_symbol c) (fsub (c_close c) half_spread) (fadd (c_close c) half_spread))))))"

definition ex_signal :: "'l live_ops \<Rightarrow> registry \<Rightarrow> 'l engine \<Rightarrow> signal \<Rightarrow> pyfloat option \<Rightarrow> exec_env \<Rightarrow> 'l outcome" where
  "ex_signal lv reg e sg spread env =
     (let h = handle_signal (any_place lv) reg (en_exec e) sg spread env
      in ((snd (fst h), (case fst (fst h) of Inl x \<Rightarrow> Inl x | Inr t \<Rightarrow> Inr ())),
          persist_all (e\<lparr>en_exec := snd h\<rparr>) (snd (fst h))))"

text \<open>The spread for the risk filter, on the path of the web socket: any exception means that there is none.\<close>

definition spread_of :: "'l live_ops \<Rightarrow> registry \<Rightarrow> 'l engine \<Rightarrow> string \<Rightarrow> pyfloat option \<times> 'l engine" where
  "spread_of lv reg e symb = (case any_quote lv (en_broker e) symb of (r, b) \<Rightarrow>
     ((case bind_res r (\<lambda>(bid, ask). bind_res (get_instrument_in reg symb) (\<lambda>i. inst_pips i (fsub ask bid))) of
         Inl x \<Rightarrow> None | Inr p \<Rightarrow> Some p), put_broker e b))"

definition run_candle :: "'l live_ops \<Rightarrow> registry \<Rightarrow> 'l engine \<Rightarrow> candle \<Rightarrow> bool \<Rightarrow> exec_env \<Rightarrow> 'l outcome" where
  "run_candle lv reg e c with_spread env =
     (case quote_candle reg e c of
        Inl x \<Rightarrow> (([], Inl x), e)
      | Inr e1 \<Rightarrow>
          (case en_strategies e1 (c_symbol c) of
             None \<Rightarrow> (([], Inr ()), e1)
           | Some st \<Rightarrow>
               let (r, st1) = smc_next st c;
                   e2 = e1\<lparr>en_strategies := (en_strategies e1)(c_symbol c \<mapsto> st1)\<rparr>
               in case r of
                    Inl x \<Rightarrow> (([], Inl x), e2)
                  | Inr None \<Rightarrow> (([], Inr ()), e2)
                  | Inr (Some sg) \<Rightarrow>
                      let e3 = e2\<lparr>en_last_signal := Some sg\<rparr>;
                          (spread, e4) = (if with_spread then spread_of lv reg e3 (c_symbol c) else (None, e3))
                      in ex_signal lv reg e4 sg spread env))"

definition on_poller_candle :: "'l live_ops \<Rightarrow> registry \<Rightarrow> 'l engine \<Rightarrow> candle_dict \<Rightarrow> exec_env \<Rightarrow> 'l outcome" where
  "on_poller_candle lv reg e d env =
     (if cd_symbol d = [] \<or> en_strategies e (cd_symbol d) = None then (([], Inr ()), e)
      else case mk_candle (cd_symbol d) (cd_timeframe d) (cd_timestamp d) (cd_open d) (cd_high d) (cd_low d) (cd_close d) (cd_volume d) of
          Inl x \<Rightarrow> (([], Inr ()), e)
        | Inr c \<Rightarrow> run_candle lv reg e c False env)"

section \<open>Messages of the web socket\<close>

text \<open>The fields of a message that the code reads, each under its two names; the timestamp is what pydantic makes of it.\<close>

record ws_message =
  wm_type :: "string option"
  wm_t :: "string option"
  wc_symbol :: "string option"
  wc_s :: "string option"
  wc_timeframe :: "string option"
  wc_tf :: "string option"
  wc_timestamp :: "py_datetime option"
  wc_open :: "pyfloat option"
  wc_o :: "pyfloat option"
  wc_high :: "pyfloat option"
  wc_h :: "pyfloat option"
  wc_low :: "pyfloat option"
  wc_l :: "pyfloat option"
  wc_close :: "pyfloat option"
  wc_c :: "pyfloat option"
  wc_volume :: "pyfloat option"
  wc_v :: "pyfloat option"
  wo_status :: "string option"
  wo_state :: "string option"
  wo_clientOrderId :: "string option"
  wo_client_order_id :: "string option"
  wo_exitPrice :: "pyfloat option"
  wo_fill_price :: "pyfloat option"
  wo_reason :: "string option"

text \<open>Python's \<open>x or y or d\<close> on optional strings.\<close>

definition str_or :: "string option \<Rightarrow> string option \<Rightarrow> string \<Rightarrow> string" where
  "str_or x y d = (case x of Some (c # cs) \<Rightarrow> c # cs | _ \<Rightarrow> (case y of Some (c # cs) \<Rightarrow> c # cs | _ \<Rightarrow> d))"

definition on_market_data :: "'l live_ops \<Rightarrow> registry \<Rightarrow> 'l engine \<Rightarrow> ws_message \<Rightarrow> exec_env \<Rightarrow> 'l outcome" where
  "on_market_data lv reg e m env =
     (let symb = str_or (wc_symbol m) (wc_s m) [] in
      if symb = [] \<or> en_strategies e symb = None then (([], Inr ()), e)
      else case (case wc_timestamp m of None \<Rightarrow> Inl ValidationError
          | Some ts \<Rightarrow> mk_candle symb (str_or (wc_timeframe m) (wc_tf m) (tf_value (primary_timeframe (en_settings e)))) ts
              (num_or (wc_open m) (wc_o m)) (num_or (wc_high m) (wc_h m)) (num_or (wc_low m) (wc_l m))
              (num_or (wc_close m) (wc_c m)) (num_or (wc_volume m) (wc_v m))) of
          Inl x \<Rightarrow> (([], Inr ()), e)
        | Inr c \<Rightarrow> run_candle lv reg e c True env)"

definition on_order_update :: "registry \<Rightarrow> 'l engine \<Rightarrow> ws_message \<Rightarrow> exec_env \<Rightarrow> 'l outcome" where
  "on_order_update reg e m env =
     (let status = map lower_char (str_or (wo_status m) (wo_state m) []);
          tid = str_or (wo_clientOrderId m) (wo_client_order_id m) [];
          exit_price = num_or (wo_exitPrice m) (wo_fill_price m)
      in if status \<in> {''filled'', ''closed''} \<and> tid \<noteq> [] \<and> exit_price \<noteq> 0 then
           (let r = close_trade reg (en_exec e) tid (str_or (wo_reason m) None ''broker_close'') exit_price env
            in ((snd (fst r), (case fst (fst r) of Inl x \<Rightarrow> Inl x | Inr t \<Rightarrow> Inr ())),
                persist_all (e\<lparr>en_exec := snd r\<rparr>) (snd (fst r))))
         else (([], Inr ()), e))"

definition on_ws_message :: "'l live_ops \<Rightarrow> registry \<Rightarrow> 'l engine \<Rightarrow> ws_message \<Rightarrow> exec_env \<Rightarrow> 'l outcome" where
  "on_ws_message lv reg e m env =
     (let mtype = str_or (wm_type m) (wm_t m) [] in
      if mtype \<in> {''quote'', ''tick'', ''candle''} then on_market_data lv reg e m env
      else if mtype \<in> {''order'', ''position'', ''execution''} then on_order_update reg e m env
      else (([], Inr ()), e))"

section \<open>The dashboard\<close>

text \<open>\<open>POST /risk/disable\<close>: the manager the dashboard was given at the start.\<close>

definition dash_disable :: "'l engine \<Rightarrow> 'l engine" where
  "dash_disable e = (case en_dash_risk e of
       None \<Rightarrow> e\<lparr>en_exec := (en_exec e)\<lparr>ex_risk := force_disable (ex_risk (en_exec e))\<rparr>\<rparr>
     | Some rm \<Rightarrow> e\<lparr>en_dash_risk := Some (force_disable rm)\<rparr>)"

text \<open>
  \<open>GET /status\<close> takes a snapshot of the engine's manager, \<open>GET /risk\<close> and \<open>GET /ready\<close> one of the dashboard's; a
  snapshot rolls the day over.
\<close>

definition look_status :: "'l engine \<Rightarrow> int \<Rightarrow> 'l engine" where
  "look_status e now = e\<lparr>en_exec := (en_exec e)\<lparr>ex_risk := snd (snapshot (ex_risk (en_exec e)) now)\<rparr>\<rparr>"

definition look_risk :: "'l engine \<Rightarrow> int \<Rightarrow> 'l engine" where
  "look_risk e now = (case en_dash_risk e of
       None \<Rightarrow> look_status e now
     | Some rm \<Rightarrow> e\<lparr>en_dash_risk := Some (snd (snapshot rm now))\<rparr>)"

text \<open>\<open>PUT /settings/risk\<close>: the settings object is shared by the engine and the risk managers.\<close>

definition with_risk_params :: "pyfloat \<Rightarrow> int \<Rightarrow> settings \<Rightarrow> settings" where
  "with_risk_params dd n s = s\<lparr>max_daily_loss_pct := dd, max_trades_per_day := n\<rparr>"

definition update_risk_params :: "'l engine \<Rightarrow> pyfloat \<Rightarrow> int \<Rightarrow> 'l engine" where
  "update_risk_params e dd n =
     (if rnd (1 / 1000) \<le> dd \<and> dd \<le> rnd (1 / 10) \<and> 1 \<le> n \<and> n \<le> 50 then
        (let upd = (\<lambda>rm. rm\<lparr>rm_settings := with_risk_params dd n (rm_settings rm)\<rparr>); ex = en_exec e
         in e\<lparr>en_settings := with_risk_params dd n (en_settings e), en_exec := ex\<lparr>ex_risk := upd (ex_risk ex)\<rparr>,
              en_dash_risk := map_option upd (en_dash_risk e)\<rparr>)
      else e)"

text \<open>
  \<open>switch_environment\<close>.  The dashboard keeps the risk manager it has; after a failed connection the old broker is
  connected again, and the web socket stays stopped.
\<close>

definition switch_mode :: "trading_mode \<Rightarrow> settings \<Rightarrow> settings" where
  "switch_mode mode s = s\<lparr>app_mode := mode\<rparr>"

definition share_mode :: "trading_mode \<Rightarrow> risk_manager \<Rightarrow> risk_manager" where
  "share_mode mode rm = rm\<lparr>rm_settings := switch_mode mode (rm_settings rm)\<rparr>"

definition switch_failed :: "'l live_ops \<Rightarrow> 'l engine \<Rightarrow> 'l any_broker \<Rightarrow> 'l any_broker \<Rightarrow> 'l engine" where
  "switch_failed lv e old new =
     (case any_connect lv old of
        (Inr u, b) \<Rightarrow> put_broker e b
      | (Inl x, b) \<Rightarrow> (put_broker e b)\<lparr>en_own := Some new\<rparr>)"

definition switched :: "'l live_ops \<Rightarrow> 'l engine \<Rightarrow> trading_mode \<Rightarrow> 'l any_broker \<Rightarrow> int \<Rightarrow> 'l engine" where
  "switched lv e mode b now =
     (let s = switch_mode mode (en_settings e);
          (r, b1) = any_balance lv b;
          balance = (case r of Inl x \<Rightarrow> account_balance s | Inr v \<Rightarrow> v);
          old_risk = (case en_dash_risk e of None \<Rightarrow> ex_risk (en_exec e) | Some rm \<Rightarrow> rm)
      in e\<lparr>en_settings := s,
           en_exec := new_executor b1 (new_risk_manager s balance balance balance now) mode 90,
           en_own := None, en_ws := (mode \<noteq> paper), en_stats := new_aggregator balance,
           en_dash_risk := Some (share_mode mode old_risk)\<rparr>)"

definition switch_environment :: "'l live_ops \<Rightarrow> 'l engine \<Rightarrow> string \<Rightarrow> int \<Rightarrow> bool \<times> 'l engine" where
  "switch_environment lv e target now =
     (case mode_of target of
        Inl x \<Rightarrow> (False, e)
      | Inr mode \<Rightarrow>
          if mode = app_mode (en_settings e) then (True, e)
          else let old = snd (any_close lv (en_broker e));
                   e1 = (put_broker e old)\<lparr>en_ws := False\<rparr>
               in case any_connect lv (new_broker lv (en_settings e1) mode) of
                    (Inl x, b) \<Rightarrow> (False, switch_failed lv e1 old b)
                  | (Inr u, b) \<Rightarrow> (True, switched lv e1 mode b now))"

text \<open>\<open>PUT /settings/account\<close>.\<close>

definition env_mode :: "string \<Rightarrow> string option" where
  "env_mode = map_of [(''paper'', ''paper''), (''demo'', ''semi_auto''), (''live'', ''full_auto'')]"

definition api_switch :: "'l live_ops \<Rightarrow> 'l engine \<Rightarrow> string \<Rightarrow> int \<Rightarrow> 'l engine" where
  "api_switch lv e target_env now = (case env_mode target_env of
       None \<Rightarrow> e
     | Some target \<Rightarrow> if target = mode_value (app_mode (en_settings e)) then e else snd (switch_environment lv e target now))"

lemmas look_defs = look_status_def look_risk_def snapshot_def Let_def

section \<open>Events\<close>

datatype engine_op = EPoller candle_dict exec_env | EWs ws_message exec_env | EKill | EStatus int | ERisk int
  | ERiskParams pyfloat int | ESwitch string int

text \<open>A message arrives only while there is a web socket.\<close>

fun engine_step :: "'l live_ops \<Rightarrow> registry \<Rightarrow> 'l engine \<Rightarrow> engine_op \<Rightarrow> exec_output list \<times> 'l engine" where
  "engine_step lv reg e (EPoller d env) = (let r = on_poller_candle lv reg e d env in (fst (fst r), snd r))"
| "engine_step lv reg e (EWs m env) = (if en_ws e then (let r = on_ws_message lv reg e m env in (fst (fst r), snd r)) else ([], e))"
| "engine_step lv reg e EKill = ([], dash_disable e)"
| "engine_step lv reg e (EStatus now) = ([], look_status e now)"
| "engine_step lv reg e (ERisk now) = ([], look_risk e now)"
| "engine_step lv reg e (ERiskParams dd n) = ([], update_risk_params e dd n)"
| "engine_step lv reg e (ESwitch target now) = ([], api_switch lv e target now)"

text \<open>What the engine can reach, with everything the executor has sent.\<close>

inductive engine_reach :: "'l live_ops \<Rightarrow> registry \<Rightarrow> (engine_op \<Rightarrow> bool) \<Rightarrow> 'l engine \<Rightarrow> exec_output list \<Rightarrow> 'l engine \<Rightarrow> bool"
  for lv reg allowed e0 where
  reach_start: "engine_reach lv reg allowed e0 [] e0"
| reach_step: "engine_reach lv reg allowed e0 outs e \<Longrightarrow> allowed op \<Longrightarrow>
     engine_reach lv reg allowed e0 (outs @ fst (engine_step lv reg e op)) (snd (engine_step lv reg e op))"

inductive_cases engine_reachE: "engine_reach lv reg allowed e0 outs e"

fun engine_run :: "'l live_ops \<Rightarrow> registry \<Rightarrow> 'l engine \<Rightarrow> engine_op list \<Rightarrow> exec_output list \<times> 'l engine" where
  "engine_run lv reg e [] = ([], e)"
| "engine_run lv reg e (op # ops) = (let s = engine_step lv reg e op; r = engine_run lv reg (snd s) ops in (fst s @ fst r, snd r))"

fun not_switch :: "engine_op \<Rightarrow> bool" where
  "not_switch (ESwitch target now) = False"
| "not_switch op = True"

lemma reach_run: "engine_reach lv reg allowed e0 outs e \<Longrightarrow> list_all allowed ops \<Longrightarrow>
    engine_reach lv reg allowed e0 (outs @ fst (engine_run lv reg e ops)) (snd (engine_run lv reg e ops))"
proof (induction ops arbitrary: outs e)
  case (Cons op ops)
  then have "engine_reach lv reg allowed e0 (outs @ fst (engine_step lv reg e op)) (snd (engine_step lv reg e op))"
    by (intro reach_step) simp_all
  from Cons.IH [OF this] Cons.prems(2) show ?case by (simp add: Let_def)
qed simp

lemma run_reach: "list_all allowed ops \<Longrightarrow> engine_reach lv reg allowed e (fst (engine_run lv reg e ops)) (snd (engine_run lv reg e ops))"
  using reach_run [OF reach_start, of allowed ops lv reg e] by simp

section \<open>What one event does\<close>

lemma persist_all_fields [simp]:
  "en_exec (persist_all e outs) = en_exec e" "en_ws (persist_all e outs) = en_ws e" "en_own (persist_all e outs) = en_own e"
  "en_strategies (persist_all e outs) = en_strategies e" "en_settings (persist_all e outs) = en_settings e"
  "en_is_sqlite (persist_all e outs) = en_is_sqlite e" "en_dash_risk (persist_all e outs) = en_dash_risk e"
proof -
  have "en_exec (foldl engine_persist e ts) = en_exec e \<and> en_ws (foldl engine_persist e ts) = en_ws e
    \<and> en_own (foldl engine_persist e ts) = en_own e \<and> en_strategies (foldl engine_persist e ts) = en_strategies e
    \<and> en_settings (foldl engine_persist e ts) = en_settings e \<and> en_is_sqlite (foldl engine_persist e ts) = en_is_sqlite e
    \<and> en_dash_risk (foldl engine_persist e ts) = en_dash_risk e" for ts
    by (induction ts arbitrary: e) (simp_all add: engine_persist_def)
  then show "en_exec (persist_all e outs) = en_exec e" "en_ws (persist_all e outs) = en_ws e" "en_own (persist_all e outs) = en_own e"
    "en_strategies (persist_all e outs) = en_strategies e" "en_settings (persist_all e outs) = en_settings e"
    "en_is_sqlite (persist_all e outs) = en_is_sqlite e" "en_dash_risk (persist_all e outs) = en_dash_risk e"
    by (simp_all add: persist_all_def)
qed

lemma persisted_append [simp]: "persisted (xs @ ys) = persisted xs @ persisted ys"
  by (induction xs rule: persisted.induct) simp_all


lemma put_broker_fields [simp]:
  "ex_risk (en_exec (put_broker e b)) = ex_risk (en_exec e)" "ex_mode (en_exec (put_broker e b)) = ex_mode (en_exec e)"
  "ex_ttl_sec (en_exec (put_broker e b)) = ex_ttl_sec (en_exec e)"
  "ex_open_trades (en_exec (put_broker e b)) = ex_open_trades (en_exec e)"
  "ex_pending (en_exec (put_broker e b)) = ex_pending (en_exec e)"
  "en_ws (put_broker e b) = en_ws e" "en_strategies (put_broker e b) = en_strategies e"
  "en_settings (put_broker e b) = en_settings e" "en_is_sqlite (put_broker e b) = en_is_sqlite e"
  "en_dash_risk (put_broker e b) = en_dash_risk e" "en_journal (put_broker e b) = en_journal e"
  "en_stats (put_broker e b) = en_stats e" "en_last_signal (put_broker e b) = en_last_signal e"
  by (simp_all add: put_broker_def split: option.split)

text \<open>The parts of the engine that nothing but a signal, an order message or the dashboard changes.\<close>

definition same_books :: "'l engine \<Rightarrow> 'l engine \<Rightarrow> bool" where
  "same_books e e' \<longleftrightarrow> en_journal e' = en_journal e \<and> en_stats e' = en_stats e \<and> en_is_sqlite e' = en_is_sqlite e
     \<and> ex_risk (en_exec e') = ex_risk (en_exec e) \<and> ex_open_trades (en_exec e') = ex_open_trades (en_exec e)
     \<and> ex_pending (en_exec e') = ex_pending (en_exec e) \<and> en_dash_risk e' = en_dash_risk e \<and> en_ws e' = en_ws e
     \<and> ex_mode (en_exec e') = ex_mode (en_exec e) \<and> ex_ttl_sec (en_exec e') = ex_ttl_sec (en_exec e)"

lemma same_books_refl [simp]: "same_books e e"
  by (simp add: same_books_def)

lemma same_books_trans: "same_books e1 e2 \<Longrightarrow> same_books e2 e3 \<Longrightarrow> same_books e1 e3"
  by (simp add: same_books_def)

lemma same_books_put [simp]: "same_books e (put_broker e b)"
  by (simp add: same_books_def)

lemma same_books_upd [simp]:
  "same_books e (e'\<lparr>en_strategies := m\<rparr>) = same_books e e'" "same_books e (e'\<lparr>en_last_signal := x\<rparr>) = same_books e e'"
  by (simp_all add: same_books_def)

text \<open>The strategies with the configuration they had.\<close>

definition same_strats :: "'l engine \<Rightarrow> 'l engine \<Rightarrow> bool" where
  "same_strats e e' \<longleftrightarrow> (\<forall>symb. rel_option same_config (en_strategies e' symb) (en_strategies e symb))"

lemma same_strats_eq: "en_strategies e' = en_strategies e \<Longrightarrow> same_strats e e'"
  by (simp add: same_strats_def option.rel_refl)

lemma same_strats_trans: "same_strats e1 e2 \<Longrightarrow> same_strats e2 e3 \<Longrightarrow> same_strats e1 e3"
proof -
  have "transp (rel_option same_config)" by (intro option.rel_transp transpI) (rule same_config_trans)
  then show "same_strats e1 e2 \<Longrightarrow> same_strats e2 e3 \<Longrightarrow> same_strats e1 e3"
    unfolding same_strats_def by (blast dest: transpD)
qed

lemma smc_next_config: "smc_next st c = (r, st1) \<Longrightarrow> same_config st1 st"
  using same_config_step [of st c] by (auto simp: smc_next_def Let_def)

lemma quote_candle_same: "quote_candle reg e c = Inr e1 \<Longrightarrow> same_books e e1 \<and> en_strategies e1 = en_strategies e"
  by (auto simp: quote_candle_def Let_def bind_res_eq_Inr split: any_broker.splits)

lemma spread_of_same: "same_books e (snd (spread_of lv reg e symb)) \<and> en_strategies (snd (spread_of lv reg e symb)) = en_strategies e"
  by (simp add: spread_of_def case_prod_beta)

text \<open>A signal that the symbol's strategy gives for a candle.\<close>

definition signals :: "'l engine \<Rightarrow> signal \<Rightarrow> bool" where
  "signals e sg \<longleftrightarrow> (\<exists>c st. en_strategies e (c_symbol c) = Some st \<and> snd (fst (on_candle st c)) = Inr (Some sg))"

text \<open>
  A candle, from either source: nothing but quotes and the strategy change, or the executor handles the signal
  of the symbol's strategy.
\<close>

lemma run_candle_cases:
  obtains (quiet) "fst (fst (run_candle lv reg e c w env)) = []" "same_books e (snd (run_candle lv reg e c w env))"
      "same_strats e (snd (run_candle lv reg e c w env))"
  | (signal) e1 sg spread where "same_books e e1" "same_strats e e1" "run_candle lv reg e c w env = ex_signal lv reg e1 sg spread env"
      "signals e sg"
proof (cases "quote_candle reg e c")
  case (Inl x)
  then show ?thesis by (intro quiet) (simp_all add: run_candle_def same_strats_eq)
next
  case (Inr e1)
  note q = quote_candle_same [OF Inr]
  show ?thesis
  proof (cases "en_strategies e1 (c_symbol c)")
    case None
    with Inr q show ?thesis by (intro quiet) (simp_all add: run_candle_def same_strats_eq)
  next
    case (Some st)
    obtain r st1 where n: "smc_next st c = (r, st1)" by fastforce
    let ?e2 = "e1\<lparr>en_strategies := (en_strategies e1)(c_symbol c \<mapsto> st1)\<rparr>"
    have strats: "same_strats e ?e2" using q Some smc_next_config [OF n] by (auto simp: same_strats_def option.rel_refl)
    show ?thesis
    proof (cases "\<exists>sg. r = Inr (Some sg)")
      case False
      then have "run_candle lv reg e c w env = (([], case r of Inl x \<Rightarrow> Inl x | Inr z \<Rightarrow> Inr ()), ?e2)"
        using Inr Some n by (auto simp: run_candle_def split: sum.split option.split)
      with q strats show ?thesis by (intro quiet) simp_all
    next
      case True
      then obtain sg where sg: "r = Inr (Some sg)" ..
      let ?e3 = "?e2\<lparr>en_last_signal := Some sg\<rparr>"
      let ?x = "if w then spread_of lv reg ?e3 (c_symbol c) else (None, ?e3)"
      have r: "run_candle lv reg e c w env = ex_signal lv reg (snd ?x) sg (fst ?x) env"
        using Inr Some n sg by (simp add: run_candle_def Let_def case_prod_beta)
      have "same_books e ?e3" using q by simp
      moreover have "same_books ?e3 (snd ?x)" "en_strategies (snd ?x) = en_strategies ?e3"
        using spread_of_same [of ?e3 lv reg "c_symbol c"] by auto
      ultimately have "same_books e (snd ?x)" by (blast intro: same_books_trans)
      moreover have "same_strats e (snd ?x)" using strats \<open>en_strategies (snd ?x) = en_strategies ?e3\<close> by (simp add: same_strats_def)
      moreover have "signals e sg" using Some n sg q by (auto simp: signals_def smc_next_def Let_def)
      ultimately show ?thesis using r signal by blast
    qed
  qed
qed

text \<open>One event: quiet, a signal, a close, or a call of the dashboard.\<close>

definition close_step :: "registry \<Rightarrow> 'l engine \<Rightarrow> string \<Rightarrow> string \<Rightarrow> pyfloat \<Rightarrow> exec_env \<Rightarrow> exec_output list \<times> 'l engine" where
  "close_step reg e tid reason x env = (let r = close_trade reg (en_exec e) tid reason x env
     in (snd (fst r), persist_all (e\<lparr>en_exec := snd r\<rparr>) (snd (fst r))))"

definition signal_step :: "'l live_ops \<Rightarrow> registry \<Rightarrow> 'l engine \<Rightarrow> signal \<Rightarrow> pyfloat option \<Rightarrow> exec_env \<Rightarrow> exec_output list \<times> 'l engine" where
  "signal_step lv reg e sg spread env = (let h = handle_signal (any_place lv) reg (en_exec e) sg spread env
     in (snd (fst h), persist_all (e\<lparr>en_exec := snd h\<rparr>) (snd (fst h))))"

lemma ex_signal_step: "ex_signal lv reg e sg spread env = ((a, r), e') \<Longrightarrow> (a, e') = signal_step lv reg e sg spread env"
  by (auto simp: ex_signal_def signal_step_def Let_def)

inductive event_kind :: "'l live_ops \<Rightarrow> registry \<Rightarrow> 'l engine \<Rightarrow> engine_op \<Rightarrow> exec_output list \<times> 'l engine \<Rightarrow> bool" for lv reg e where
  ev_quiet: "same_books e e' \<Longrightarrow> same_strats e e' \<Longrightarrow> event_kind lv reg e op ([], e')"
| ev_signal: "same_books e e1 \<Longrightarrow> same_strats e e1 \<Longrightarrow> op = EPoller d env \<or> (op = EWs m env \<and> en_ws e) \<Longrightarrow> signals e sg \<Longrightarrow>
     event_kind lv reg e op (signal_step lv reg e1 sg spread env)"
| ev_close: "en_ws e \<Longrightarrow> event_kind lv reg e (EWs m env) (close_step reg e tid reason x env)"
| ev_kill: "event_kind lv reg e EKill ([], dash_disable e)"
| ev_status: "event_kind lv reg e (EStatus now) ([], look_status e now)"
| ev_risk: "event_kind lv reg e (ERisk now) ([], look_risk e now)"
| ev_params: "event_kind lv reg e (ERiskParams dd n) ([], update_risk_params e dd n)"
| ev_switch: "event_kind lv reg e (ESwitch target now) ([], api_switch lv e target now)"

lemma event_candle:
  assumes "op = EPoller d env \<or> (op = EWs m env \<and> en_ws e)"
  shows "event_kind lv reg e op (fst (fst (run_candle lv reg e c w env)), snd (run_candle lv reg e c w env))"
proof (cases rule: run_candle_cases [of lv reg e c w env])
  case quiet
  then show ?thesis by (simp add: ev_quiet)
next
  case (signal e1 sg spread)
  moreover obtain a r e' where "ex_signal lv reg e1 sg spread env = ((a, r), e')" by (metis surj_pair)
  ultimately show ?thesis using ev_signal [OF signal(1,2) assms signal(4), of lv reg spread] ex_signal_step by fastforce
qed

lemma event_kinds: "event_kind lv reg e op (engine_step lv reg e op)"
proof (cases op)
  case (EPoller d env)
  have none: "event_kind lv reg e op ([], e)" by (simp add: ev_quiet same_strats_eq)
  show ?thesis
    using EPoller none event_candle [of op d env] by (auto simp: on_poller_candle_def Let_def split: sum.split)
next
  case (EWs m env)
  have none: "event_kind lv reg e op ([], e)" by (simp add: ev_quiet same_strats_eq)
  show ?thesis
  proof (cases "en_ws e")
    case True
    have "event_kind lv reg e op (fst (fst (on_market_data lv reg e m env)), snd (on_market_data lv reg e m env))"
      using EWs True none event_candle [of op _ env m] by (auto simp: on_market_data_def Let_def split: sum.split)
    moreover have "event_kind lv reg e op (fst (fst (on_order_update reg e m env)), snd (on_order_update reg e m env))"
      using EWs none ev_close [OF True, of lv reg m env] by (auto simp: on_order_update_def close_step_def Let_def)
    ultimately show ?thesis using EWs True none by (simp add: on_ws_message_def Let_def)
  qed (use EWs none in simp)
qed (simp_all add: ev_kill ev_status ev_risk ev_params ev_switch)

section \<open>The books\<close>

lemma persist_all_journal:
  "en_journal (persist_all e outs) = foldl (save (en_is_sqlite e)) (en_journal e) (persisted outs)"
  "en_stats (persist_all e outs) = foldl record_trade (en_stats e) (filter is_closed (persisted outs))"
proof -
  have "en_journal (foldl engine_persist e ts) = foldl (save (en_is_sqlite e)) (en_journal e) ts
    \<and> en_stats (foldl engine_persist e ts) = foldl record_trade (en_stats e) (filter is_closed ts)" for ts
    by (induction ts arbitrary: e) (simp_all add: engine_persist_def)
  then show "en_journal (persist_all e outs) = foldl (save (en_is_sqlite e)) (en_journal e) (persisted outs)"
    "en_stats (persist_all e outs) = foldl record_trade (en_stats e) (filter is_closed (persisted outs))"
    by (simp_all add: persist_all_def)
qed

text \<open>A signal persists at most an open trade, and closes none.\<close>

fun opens_only :: "exec_output \<Rightarrow> bool" where
  "opens_only (PersistTrade t) \<longleftrightarrow> t_status t = T_OPEN"
| "opens_only (NotifyTradeClose t) \<longleftrightarrow> False"
| "opens_only out \<longleftrightarrow> True"

lemma fire_opening: "list_all opens_only (snd (fst (fire place reg ex sg d env)))"
  by (auto simp: fire_def opened_trade_def Let_def split: sum.split prod.split)

lemma signal_opening: "list_all opens_only (fst (signal_step lv reg e sg spread env))"
  using fire_opening by (auto simp: signal_step_def handle_signal_def stage_semi_auto_def Let_def split: sum.split prod.split)

lemma opening_persisted: "list_all opens_only outs \<Longrightarrow> filter is_closed (persisted outs) = []"
  by (induction outs rule: persisted.induct) (simp_all add: is_closed_iff)

lemma close_outputs:
  obtains (closed_trade) c where "fst (close_step reg e tid reason x env) = [PersistTrade c, NotifyTradeClose c]" "is_closed c"
      "ex_risk (en_exec (snd (close_step reg e tid reason x env))) = register_trade_close (ex_risk (en_exec e)) (dt_date (xe_now env)) c"
  | (nothing) "fst (close_step reg e tid reason x env) = []" "ex_risk (en_exec (snd (close_step reg e tid reason x env))) = ex_risk (en_exec e)"
proof -
  obtain r evs ex' where c: "close_trade reg (en_exec e) tid reason x env = ((r, evs), ex')" by (metis surj_pair)
  then have st: "fst (close_step reg e tid reason x env) = evs" "en_exec (snd (close_step reg e tid reason x env)) = ex'"
    by (simp_all add: close_step_def)
  show ?thesis
  proof (cases "\<exists>ct. r = Inr (Some ct)")
    case True
    then obtain ct where "close_trade reg (en_exec e) tid reason x env = ((Inr (Some ct), evs), ex')" using c by auto
    then show ?thesis
      by (rule close_trade_Some) (use st in \<open>auto simp: is_closed_def intro!: closed_trade\<close>)
  next
    case False
    with c have "evs = [] \<and> ex' = (en_exec e)\<lparr>ex_open_trades := (ex_open_trades (en_exec e))(tid := None)\<rparr>"
      by (intro close_trade_other) auto
    with st have "fst (close_step reg e tid reason x env) = []"
      "ex_risk (en_exec (snd (close_step reg e tid reason x env))) = ex_risk (en_exec e)" by simp_all
    then show ?thesis by (rule nothing)
  qed
qed

definition books :: "bool \<Rightarrow> journal \<Rightarrow> exec_output list \<Rightarrow> 'l engine \<Rightarrow> bool" where
  "books b j outs e \<longleftrightarrow> en_is_sqlite e = b \<and> en_journal e = foldl (save b) j (persisted outs)
     \<and> current_balance (ex_risk (en_exec e)) = last (ag_equity (en_stats e))
     \<and> (\<exists>start n. n \<le> length (filter is_closed (persisted outs))
          \<and> en_stats e = ag_of start (drop n (filter is_closed (persisted outs))))"

lemma books_quiet: "books b j outs e \<Longrightarrow> same_books e e' \<Longrightarrow> books b j outs e'"
  by (simp add: books_def same_books_def)

lemma books_persist:
  assumes "books b j outs e"
    and "current_balance (ex_risk ex') = foldl fadd (current_balance (ex_risk (en_exec e))) (map pnl_or_0 (filter is_closed (persisted evs)))"
  shows "books b j (outs @ evs) (persist_all (e\<lparr>en_exec := ex'\<rparr>) evs)"
proof -
  let ?cs = "filter is_closed (persisted evs)"
  from assms(1) obtain start n where n: "n \<le> length (filter is_closed (persisted outs))"
    "en_stats e = ag_of start (drop n (filter is_closed (persisted outs)))" by (auto simp: books_def)
  have no: "not_open ?cs = ?cs" unfolding not_open_def by (rule filter_True) (auto simp: is_closed_iff)
  have st: "foldl record_trade (en_stats e) ?cs = ag_of start (drop n (filter is_closed (persisted (outs @ evs))))"
    using record_all_of [of start "drop n (filter is_closed (persisted outs))" ?cs] n no by (simp add: record_all_def)
  have "last (ag_equity (foldl record_trade (en_stats e) ?cs)) = foldl fadd (last (ag_equity (en_stats e))) (map pnl_or_0 ?cs)"
    unfolding st unfolding n(2) using n(1) by (simp add: ag_of_def)
  with assms st n show ?thesis
    by (auto simp: books_def persist_all_journal intro!: exI [of _ start] exI [of _ n])
qed

lemma books_event:
  assumes "event_kind lv reg e op r" and "books b j outs e"
  shows "books b j (outs @ fst r) (snd r)"
  using assms
proof (cases rule: event_kind.cases)
  case (ev_quiet e')
  with assms(2) show ?thesis by (simp add: books_quiet)
next
  case (ev_signal e1 d env m sg spread)
  have "books b j outs e1" by (rule books_quiet [OF assms(2) ev_signal(2)])
  moreover have "filter is_closed (persisted (fst (signal_step lv reg e1 sg spread env))) = []"
    by (rule opening_persisted [OF signal_opening])
  ultimately show ?thesis
    using ev_signal books_persist [of b j outs e1 "snd (handle_signal (any_place lv) reg (en_exec e1) sg spread env)"
        "snd (fst (handle_signal (any_place lv) reg (en_exec e1) sg spread env))"]
      handle_signal_booked [of "any_place lv" reg "en_exec e1" sg spread env]
    by (auto simp: signal_step_def Let_def)
next
  case (ev_close m env tid reason x)
  show ?thesis
  proof (cases rule: close_outputs [of reg e tid reason x env])
    case (closed_trade c)
    with ev_close assms(2) show ?thesis
      using books_persist [of b j outs e "snd (close_trade reg (en_exec e) tid reason x env)" "[PersistTrade c, NotifyTradeClose c]"]
      by (auto simp: close_step_def Let_def)
  next
    case nothing
    with ev_close assms(2) show ?thesis
      using books_persist [of b j outs e "snd (close_trade reg (en_exec e) tid reason x env)" "[]"]
      by (auto simp: close_step_def Let_def)
  qed
next
  case ev_kill
  with assms(2) show ?thesis by (auto simp: books_def dash_disable_def force_disable_def split: option.split)
next
  case (ev_status now)
  with assms(2) show ?thesis by (auto simp: books_def look_defs)
next
  case (ev_risk now)
  with assms(2) show ?thesis by (auto simp: books_def look_defs split: option.split)
next
  case (ev_params dd n)
  with assms(2) show ?thesis by (auto simp: books_def update_risk_params_def Let_def)
next
  case (ev_switch target now)
  have sw: "books b j outs (switched lv e' mode br now)" if "en_is_sqlite e' = b" "en_journal e' = en_journal e" for e' mode br
    using that assms(2)
    by (auto simp: books_def switched_def new_executor_def new_risk_manager_def new_aggregator_of ag_of_def Let_def case_prod_beta
        intro!: exI [of _ "length (filter is_closed (persisted outs))"])
  have b: "en_is_sqlite e = b" using assms(2) by (simp add: books_def)
  have fl: "books b j outs (switch_failed lv ((put_broker e o1)\<lparr>en_ws := False\<rparr>) o2 br)" for o1 o2 br
    using assms(2) by (auto simp: books_def switch_failed_def split: sum.split prod.split)
  have "books b j outs (api_switch lv e target now)"
    using assms(2) b by (simp add: api_switch_def switch_environment_def Let_def sw fl split: option.split sum.split prod.split)
  with ev_switch show ?thesis by simp
qed

text \<open>An invariant that every kind of event keeps holds in every reachable state, with all outputs.\<close>

lemma reach_invariant:
  assumes "engine_reach lv reg allowed e0 outs e" and "I [] e0"
    and "\<And>outs e op r. I outs e \<Longrightarrow> allowed op \<Longrightarrow> event_kind lv reg e op r \<Longrightarrow> I (outs @ fst r) (snd r)"
  shows "I outs e"
  using assms(1)
proof (induction rule: engine_reach.induct)
  case reach_start
  show ?case by (rule assms(2))
next
  case (reach_step outs e op)
  show ?case by (rule assms(3) [OF reach_step.IH reach_step.hyps(2) event_kinds])
qed

lemma start_engine_fields:
  assumes "start_engine lv reg s b j now = Inr e0"
  obtains br balance strats secs where "en_stats e0 = new_aggregator balance"
    "ex_risk (en_exec e0) = new_risk_manager s balance balance balance now"
    "ex_open_trades (en_exec e0) = Map.empty" "ex_pending (en_exec e0) = Map.empty" "ex_mode (en_exec e0) = app_mode s"
    "en_journal e0 = j" "en_is_sqlite e0 = b" "en_ws e0 = (app_mode s \<noteq> paper)" "en_dash_risk e0 = None" "en_settings e0 = s"
    "app_mode s = paper \<Longrightarrow> balance = account_balance s"
    "live_strategies reg s (symbol_timeframe_map s) = Inr (en_strategies e0)" "poller_seconds s = Inr secs"
  using assms that
  by (auto simp: start_engine_def new_executor_def new_broker_def bind_res_eq_Inr new_paper_def paper_balance_def
      split: prod.splits sum.splits if_splits)

lemma start_books: "start_engine lv reg s b j now = Inr e0 \<Longrightarrow> books b j [] e0"
  by (erule start_engine_fields) (auto simp: books_def new_aggregator_of ag_of_def new_risk_manager_def)

section \<open>Paper mode\<close>

fun opened_ids :: "exec_output list \<Rightarrow> string list" where
  "opened_ids [] = []"
| "opened_ids (NotifyTradeOpen t # outs) = trade_id t # opened_ids outs"
| "opened_ids (out # outs) = opened_ids outs"

lemma opened_ids_append [simp]: "opened_ids (xs @ ys) = opened_ids xs @ opened_ids ys"
  by (induction xs rule: opened_ids.induct) simp_all

lemma opened_ids_set: "set (opened_ids outs) = trade_id ` {t. NotifyTradeOpen t \<in> set outs}"
  by (induction outs rule: opened_ids.induct) auto

lemma fire_opened: "dom (ex_open_trades (snd (fire place reg ex sg d env)))
    = dom (ex_open_trades ex) \<union> set (opened_ids (snd (fst (fire place reg ex sg d env))))"
  by (auto simp: fire_def opened_trade_def Let_def split: sum.split prod.split)

lemma signal_opened: "dom (ex_open_trades (en_exec (snd (signal_step lv reg e sg spread env))))
    = dom (ex_open_trades (en_exec e)) \<union> set (opened_ids (fst (signal_step lv reg e sg spread env)))"
  using fire_opened [of "any_place lv" reg "(en_exec e)\<lparr>ex_risk := _\<rparr>" sg _ env]
  by (auto simp: signal_step_def handle_signal_def stage_semi_auto_def Let_def simp del: dom_fun_upd split: sum.split prod.split)

definition waiting :: "pyfloat \<Rightarrow> exec_output list \<Rightarrow> 'l engine \<Rightarrow> bool" where
  "waiting balance outs e \<longleftrightarrow> \<not> en_ws e \<and> list_all opens_only outs \<and> en_stats e = new_aggregator balance
     \<and> current_balance (ex_risk (en_exec e)) = balance \<and> dom (ex_open_trades (en_exec e)) = set (opened_ids outs)"

lemma waiting_event:
  assumes "event_kind lv reg e op r" and "waiting balance outs e" and "not_switch op"
  shows "waiting balance (outs @ fst r) (snd r)"
  using assms(1)
proof (cases rule: event_kind.cases)
  case (ev_quiet e')
  with assms(2) show ?thesis by (simp add: waiting_def same_books_def)
next
  case (ev_signal e1 d env m sg spread)
  have e1: "waiting balance outs e1" using assms(2) ev_signal(2) by (simp add: waiting_def same_books_def)
  let ?r = "signal_step lv reg e1 sg spread env"
  have "en_stats (snd ?r) = en_stats e1" "en_ws (snd ?r) = en_ws e1"
    using opening_persisted [OF signal_opening [of lv reg e1 sg spread env]]
    by (simp_all add: signal_step_def Let_def persist_all_journal)
  moreover have "current_balance (ex_risk (en_exec (snd ?r))) = current_balance (ex_risk (en_exec e1))"
    using handle_signal_booked [of "any_place lv" reg "en_exec e1" sg spread env] by (simp add: signal_step_def Let_def)
  ultimately have "waiting balance (outs @ fst ?r) (snd ?r)"
    using e1 signal_opening [of lv reg e1 sg spread env] signal_opened [of lv reg e1 sg spread env] by (auto simp: waiting_def)
  with ev_signal(1) show ?thesis by simp
next
  case (ev_close m env tid reason x)
  with assms(2) show ?thesis by (simp add: waiting_def)
next
  case ev_kill
  with assms(2) show ?thesis by (auto simp: waiting_def dash_disable_def force_disable_def split: option.split)
next
  case (ev_status now)
  with assms(2) show ?thesis by (auto simp: waiting_def look_defs)
next
  case (ev_risk now)
  with assms(2) show ?thesis by (auto simp: waiting_def look_defs split: option.split)
next
  case (ev_params dd n)
  with assms(2) show ?thesis by (auto simp: waiting_def update_risk_params_def Let_def)
next
  case (ev_switch target now)
  with assms(3) show ?thesis by simp
qed

section \<open>The kill switch\<close>

text \<open>An event of day \<open>d\<close>, by the clock of the code.\<close>

fun op_day :: "int \<Rightarrow> engine_op \<Rightarrow> bool" where
  "op_day d (EPoller c env) \<longleftrightarrow> dt_date (xe_t0 env) = d \<and> dt_date (xe_now env) = d"
| "op_day d (EWs m env) \<longleftrightarrow> dt_date (xe_t0 env) = d \<and> dt_date (xe_now env) = d"
| "op_day d (EStatus now) \<longleftrightarrow> now = d"
| "op_day d (ERisk now) \<longleftrightarrow> now = d"
| "op_day d op \<longleftrightarrow> True"

text \<open>No switch yet: the dashboard has the executor's manager, and no time is simulated.\<close>

definition shared :: "'l engine \<Rightarrow> bool" where
  "shared e \<longleftrightarrow> en_dash_risk e = None \<and> simulated_now (ex_risk (en_exec e)) = None"

definition halted :: "int \<Rightarrow> exec_output list \<Rightarrow> 'l engine \<Rightarrow> bool" where
  "halted d outs e \<longleftrightarrow> rm_disabled (ex_risk (en_exec e)) \<and> at_day d (ex_risk (en_exec e)) \<and> opened_ids outs = []"

lemma fire_simulated [simp]: "simulated_now (ex_risk (snd (fire place reg ex sg d env))) = simulated_now (ex_risk ex)"
  using fire_risk [of place reg ex sg d env] by (auto simp: register_trade_open_def Let_def)

lemma signal_simulated: "simulated_now (ex_risk (snd (handle_signal place reg ex sg spread env))) = simulated_now (ex_risk ex)"
proof -
  obtain r rm where r: "evaluate_risk reg (ex_risk ex) (dt_date (xe_t0 env)) sg spread = (r, rm)" by fastforce
  then have "simulated_now rm = simulated_now (ex_risk ex)"
    using evaluate_risk_fields(5) [of reg "ex_risk ex" "dt_date (xe_t0 env)" sg spread] by simp
  with r show ?thesis by (simp add: handle_signal_def stage_semi_auto_def Let_def split: sum.split)
qed

lemma shared_event:
  assumes "event_kind lv reg e op r" and "shared e" and "not_switch op"
  shows "shared (snd r)"
  using assms(1)
proof (cases rule: event_kind.cases)
  case (ev_close m env tid reason x)
  with assms(2) show ?thesis
    by (auto simp: shared_def close_step_def close_trade_def risk_op_defs split: option.split sum.split)
next
  case (ev_switch target now)
  with assms(3) show ?thesis by simp
qed (use assms(2) in \<open>auto simp: shared_def same_books_def signal_step_def signal_simulated dash_disable_def force_disable_def
    look_defs update_risk_params_def Let_def\<close>)

lemma halted_signal:
  assumes "rm_disabled (ex_risk ex)" and "at_day d (ex_risk ex)" and "dt_date (xe_t0 env) = d"
  shows "handle_signal place reg ex sg spread env = ((Inr None, [NotifyRiskReject (sg_symbol sg) DISABLED]), ex)"
  using assms by (simp add: handle_signal_def halted_rejects reject_def)

lemma halted_event:
  assumes "event_kind lv reg e op r" and "halted d outs e" and "op_day d op" and "not_switch op"
  shows "halted d (outs @ fst r) (snd r)"
  using assms(1)
proof (cases rule: event_kind.cases)
  case (ev_quiet e')
  with assms(2) show ?thesis by (simp add: halted_def same_books_def)
next
  case (ev_signal e1 c env m sg spread)
  then have "rm_disabled (ex_risk (en_exec e1))" "at_day d (ex_risk (en_exec e1))" "dt_date (xe_t0 env) = d"
    using assms(2,3) by (auto simp: halted_def same_books_def)
  with ev_signal assms(2) show ?thesis by (simp add: signal_step_def halted_signal halted_def)
next
  case (ev_close m env tid reason x)
  then have "dt_date (xe_now env) = d" using assms(3) by simp
  with ev_close assms(2) show ?thesis
    using at_day_rollover [of d "ex_risk (en_exec e)"]
    by (auto simp: halted_def close_step_def close_trade_def register_trade_close_def at_day_def Let_def split: option.split sum.split)
next
  case ev_kill
  with assms(2) show ?thesis by (auto simp: halted_def dash_disable_def force_disable_def at_day_def split: option.split)
next
  case (ev_status now)
  with assms(2,3) show ?thesis by (simp add: halted_def look_defs at_day_rollover)
next
  case (ev_risk now)
  with assms(2,3) show ?thesis by (auto simp: halted_def look_defs at_day_rollover split: option.split)
next
  case (ev_params dd n)
  with assms(2) show ?thesis by (auto simp: halted_def update_risk_params_def at_day_def Let_def)
next
  case (ev_switch target now)
  with assms(4) show ?thesis by simp
qed

text \<open>
  The manager keeps the day of its last check, and the kill switch does not look at the clock: pressed on a new day before the
  first check of that day, it is undone by that check.
\<close>

lemma kill_undone_by_rollover:
  "rm_today rm \<noteq> now \<Longrightarrow> simulated_now rm = None \<Longrightarrow> \<not> rm_disabled (maybe_rollover (force_disable rm) now)"
  by (simp add: maybe_rollover_def force_disable_def now_date_def Let_def)

section \<open>The switch of the environment\<close>

text \<open>After a switch the dashboard has a manager of its own, for ever.\<close>

lemma own_event: "event_kind lv reg e op r \<Longrightarrow> en_dash_risk e \<noteq> None \<Longrightarrow> en_dash_risk (snd r) \<noteq> None"
proof (induction rule: event_kind.induct)
  case (ev_switch target now)
  then show ?case
    by (auto simp: api_switch_def switch_environment_def switch_failed_def switched_def Let_def split: option.split sum.split prod.split)
qed (auto simp: same_books_def signal_step_def close_step_def dash_disable_def look_defs update_risk_params_def Let_def)

text \<open>A switch that fails leaves the engine without its web socket, in the old mode.\<close>

lemma failed_switch_stops_ws:
  assumes "switch_environment lv e target now = (False, e1)" and "mode_of target = Inr mode"
  shows "\<not> en_ws e1 \<and> en_settings e1 = en_settings e \<and> ex_open_trades (en_exec e1) = ex_open_trades (en_exec e)"
  using assms by (auto simp: switch_environment_def switch_failed_def Let_def split: if_splits prod.splits sum.splits)

section \<open>One-hour bars\<close>

lemma strats_event: "event_kind lv reg e op r \<Longrightarrow> same_strats e (snd r)"
proof (induction rule: event_kind.induct)
  case (ev_signal e1 op d env m sg spread)
  then show ?case by (simp add: signal_step_def same_strats_def Let_def)
next
  case (ev_switch target now)
  then show ?case
    by (auto simp: api_switch_def switch_environment_def switch_failed_def switched_def Let_def intro!: same_strats_eq
        split: option.split sum.split prod.split)
qed (auto simp: close_step_def dash_disable_def look_defs update_risk_params_def Let_def intro!: same_strats_eq split: option.split)

lemma reach_strats: "engine_reach lv reg allowed e0 outs e \<Longrightarrow> same_strats e0 e"
  by (erule reach_invariant [where I = "\<lambda>outs e. same_strats e0 e"])
    (auto intro: same_strats_eq same_strats_trans strats_event)

lemma live_strategies_timeframe:
  "live_strategies reg s xs = Inr m \<Longrightarrow> map_of xs symb = Some tf \<Longrightarrow> \<exists>st. m symb = Some st \<and> st_timeframe st = tf"
proof (induction xs arbitrary: m)
  case (Cons x xs)
  obtain a b where x: "x = (a, b)" by fastforce
  with Cons.prems(1) obtain st m' where st: "new_strategy reg a b (new_session_filter (s_london_open s) (s_london_close s) (s_ny_open s) (s_ny_close s))
         (target_profit_pct_min s) (target_profit_pct_max s) = Inr st" and m': "live_strategies reg s xs = Inr m'" "m = m'(a \<mapsto> st)"
    by (auto simp: bind_res_eq_Inr)
  from st have "st_timeframe st = b" by (auto simp: new_strategy_def bind_res_eq_Inr)
  with m' x Cons.prems(2) Cons.IH [OF m'(1)] show ?case by (auto split: if_splits)
qed simp

lemma poller_seconds_of:
  assumes "poller_seconds s = Inr secs" and "map_of (symbol_timeframe_map s) symb = Some tf"
  shows "\<exists>t. timeframe_of tf = Inr t \<and> secs symb = Some (to_seconds t)"
proof -
  have "map_res (\<lambda>(symb, tf). bind_res (timeframe_of tf) (\<lambda>t. Inr (symb, to_seconds t))) xs = Inr ys \<Longrightarrow>
      map_of xs symb = Some tf \<Longrightarrow> \<exists>t. timeframe_of tf = Inr t \<and> map_of ys symb = Some (to_seconds t)" for xs ys
    by (induction xs arbitrary: ys) (auto simp: bind_res_eq_Inr split: if_splits)
  with assms show ?thesis by (auto simp: poller_seconds_def bind_res_eq_Inr)
qed

lemma other_timeframe_ignored:
  assumes "c_timeframe c \<noteq> st_timeframe st" and "en_strategies e (c_symbol c) = Some st"
  shows "fst (fst (run_candle lv reg e c w env)) = [] \<and> en_strategies (snd (run_candle lv reg e c w env)) = en_strategies e"
proof (cases "quote_candle reg e c")
  case (Inl x)
  then show ?thesis by (simp add: run_candle_def)
next
  case (Inr e1)
  have "smc_next st c = (Inr None, st)" using assms(1) on_candle_skipped [of st c] by (simp add: smc_next_def skipped_def)
  with Inr assms(2) quote_candle_same [OF Inr] show ?thesis by (simp add: run_candle_def fun_upd_idem)
qed

section \<open>Properties\<close>

text \<open>A live broker that refuses to connect, and a start on the paper broker.\<close>

definition demo_live :: "unit live_ops" where
  "demo_live = \<lparr>lv_new = (\<lambda>s. ()), lv_connect = (\<lambda>l. (Inr (), l)), lv_close = (\<lambda>l. (Inr (), l)), lv_balance = (\<lambda>l. (Inr 100000, l)),
     lv_quote = (\<lambda>l symb. (Inl RuntimeError, l)), lv_place = (\<lambda>l ord env. (Inl RuntimeError, l))\<rparr>"

definition demo_engine_settings :: "trading_mode \<Rightarrow> string \<Rightarrow> settings" where
  "demo_engine_settings mode tf = default_settings\<lparr>app_mode := mode, symbols := [''BTCUSD:'' @ tf]\<rparr>"

lemma demo_timeframe_map:
  "symbol_timeframe_map (demo_engine_settings mode ''M1'') = [(''BTCUSD'', ''M1'')]"
  "symbol_timeframe_map (demo_engine_settings mode ''H1'') = [(''BTCUSD'', ''H1'')]"
  by (simp_all add: symbol_timeframe_map_def demo_engine_settings_def default_settings_def split_colon_def py_strip_def py_space_def)

lemma demo_app_mode [simp]: "app_mode (demo_engine_settings mode tf) = mode"
  by (simp add: demo_engine_settings_def)

lemma demo_start:
  assumes "tf = ''M1'' \<or> tf = ''H1''"
  shows "\<exists>e0. start_engine demo_live default_registry (demo_engine_settings mode tf) True [] 19000 = Inr e0
     \<and> rm_today (ex_risk (en_exec e0)) = 19000"
  using assms
  by (auto simp: start_engine_def new_broker_def demo_live_def demo_timeframe_map new_strategy_def get_instrument_btcusd
      poller_seconds_def timeframe_of_def all_timeframes_def new_executor_def new_risk_manager_def Let_def)

text \<open>
  C4. The books of the engine: after any start and any events - candles, messages, dashboard calls, switches - the journal is the
  initial one with every trade the executor handed over saved in order, the statistics are those of the closed ones among them
  since the last switch, and the end of their equity curve is the balance of the risk manager.
\<close>

theorem engine_books:
  assumes "start_engine lv reg s b j now = Inr e0" and "engine_reach lv reg allowed e0 outs e"
  shows "en_journal e = foldl (save b) j (persisted outs)
    \<and> (\<exists>start n. en_stats e = ag_of start (drop n (filter is_closed (persisted outs))))
    \<and> last (ag_equity (en_stats e)) = current_balance (ex_risk (en_exec e))"
proof -
  have "books b j outs e"
    by (rule reach_invariant [OF assms(2)]) (auto intro: start_books [OF assms(1)] books_event)
  then show ?thesis by (auto simp: books_def)
qed

lemma engine_books_witness:
  "\<exists>e0 e outs. start_engine demo_live default_registry (demo_engine_settings semi_auto ''M1'') True [] 19000 = Inr e0
     \<and> engine_reach demo_live default_registry (\<lambda>op. True) e0 outs e
     \<and> e = snd (engine_run demo_live default_registry e0 [EKill, ESwitch ''paper'' 19000])
     \<and> last (ag_equity (en_stats e)) = current_balance (ex_risk (en_exec e))"
proof -
  obtain e0 where e0: "start_engine demo_live default_registry (demo_engine_settings semi_auto ''M1'') True [] 19000 = Inr e0"
    using demo_start [of "''M1''" semi_auto] by blast
  let ?r = "engine_run demo_live default_registry e0 [EKill, ESwitch ''paper'' 19000]"
  have r: "engine_reach demo_live default_registry (\<lambda>op. True) e0 (fst ?r) (snd ?r)"
    by (rule run_reach) simp
  with e0 engine_books [OF e0 r] show ?thesis by blast
qed

text \<open>
  C24. In paper mode no trade is ever closed: after any events but a switch, no close was sent, the statistics are those of the
  start, the balance is the configured one, and every trade that was opened is still open.
\<close>

theorem engine_paper_never_closes:
  assumes "start_engine lv reg s b j now = Inr e0" and "app_mode s = paper" and "engine_reach lv reg not_switch e0 outs e"
  shows "(\<forall>t. NotifyTradeClose t \<notin> set outs)
    \<and> en_stats e = new_aggregator (account_balance s) \<and> current_balance (ex_risk (en_exec e)) = account_balance s
    \<and> dom (ex_open_trades (en_exec e)) = trade_id ` {t. NotifyTradeOpen t \<in> set outs}"
proof -
  have "waiting (account_balance s) outs e"
  proof (rule reach_invariant [OF assms(3)])
    show "waiting (account_balance s) [] e0"
      using assms(1,2) by (elim start_engine_fields) (auto simp: waiting_def new_risk_manager_def)
  qed (rule waiting_event)
  then show ?thesis
    by (auto simp: waiting_def opened_ids_set list_all_iff)
qed

lemma engine_paper_never_closes_witness:
  "\<exists>e0. start_engine demo_live default_registry (demo_engine_settings paper ''M1'') True [] 19000 = Inr e0
     \<and> current_balance (ex_risk (en_exec (snd (engine_run demo_live default_registry e0 [EKill])))) = 100000"
proof -
  obtain e0 where e0: "start_engine demo_live default_registry (demo_engine_settings paper ''M1'') True [] 19000 = Inr e0"
    using demo_start [of "''M1''" paper] by blast
  let ?r = "engine_run demo_live default_registry e0 [EKill]"
  have r: "engine_reach demo_live default_registry not_switch e0 (fst ?r) (snd ?r)"
    by (rule run_reach) simp
  have "account_balance (demo_engine_settings paper ''M1'') = 100000" by (simp add: demo_engine_settings_def default_settings_def)
  with e0 engine_paper_never_closes [OF e0 _ r] show ?thesis by auto
qed



text \<open>
  C26. What a switch forgets: a successful switch to another mode drops every open trade and every pending signal
  without a close, leaves the journal as it is, and from then on, after any events, the dashboard's kill switch
  changes nothing of the executor or of its risk manager.
\<close>

theorem engine_switch_forgets:
  assumes "switch_environment lv e target now = (True, e1)" and "mode_of target = Inr mode" and "mode \<noteq> app_mode (en_settings e)"
    and "engine_reach lv reg allowed e1 outs e2"
  shows "ex_open_trades (en_exec e1) = Map.empty \<and> ex_pending (en_exec e1) = Map.empty \<and> en_journal e1 = en_journal e
    \<and> engine_step lv reg e2 EKill = ([], e2\<lparr>en_dash_risk := map_option force_disable (en_dash_risk e2)\<rparr>)
    \<and> en_exec (snd (engine_step lv reg e2 EKill)) = en_exec e2"
proof -
  obtain e' b where e1: "e1 = switched lv e' mode b now" and e': "en_journal e' = en_journal e"
    using assms(1-3) by (auto simp: switch_environment_def Let_def split: prod.splits sum.splits)
  have "en_dash_risk e2 \<noteq> None"
  proof (rule reach_invariant [OF assms(4), where I = "\<lambda>outs e. en_dash_risk e \<noteq> None"])
    show "en_dash_risk e1 \<noteq> None" by (simp add: e1 switched_def Let_def case_prod_beta)
  qed (rule own_event)
  then show ?thesis
    using e' by (auto simp: e1 switched_def new_executor_def dash_disable_def Let_def case_prod_beta)
qed

lemma engine_switch_forgets_witness:
  "\<exists>e0 e1. start_engine demo_live default_registry (demo_engine_settings full_auto ''M1'') True [] 19000 = Inr e0
     \<and> switch_environment demo_live e0 ''paper'' 19001 = (True, e1)
     \<and> en_exec (snd (engine_step demo_live default_registry e1 EKill)) = en_exec e1"
proof -
  obtain e0 where e0: "start_engine demo_live default_registry (demo_engine_settings full_auto ''M1'') True [] 19000 = Inr e0"
    using demo_start [of "''M1''" full_auto] by blast
  then have m: "app_mode (en_settings e0) = full_auto" by (elim start_engine_fields) simp
  have p: "mode_of ''paper'' = Inr paper" by (simp add: mode_of_def)
  obtain e1 where e1: "switch_environment demo_live e0 ''paper'' 19001 = (True, e1)"
    using m p by (simp add: switch_environment_def new_broker_def Let_def)
  from engine_switch_forgets [OF e1 p _ reach_start] m e0 e1 show ?thesis by auto
qed

text \<open>
  C39. Strategies on one-hour bars never see a Finnhub candle: for a symbol configured with H1, in every state the engine
  reaches, a bar the Finnhub poller hands on (which it labels M60) gives no signal and no effect of the
  executor, and leaves every strategy as it is.
\<close>

theorem finnhub_h1_silent:
  assumes "start_engine lv reg s b j now = Inr e0" and "engine_reach lv reg allowed e0 outs e"
    and "map_of (symbol_timeframe_map s) symb = Some ''H1''" and "poller_seconds s = Inr secs" and "fp_candle_seconds p = secs"
    and "fetch_and_emit service callback p x now_ts symb = ((ds, r), p1, x1)" and "ascending service" and "d \<in> set ds"
  shows "fst (engine_step lv reg e (EPoller d env)) = [] \<and> en_strategies (snd (engine_step lv reg e (EPoller d env))) = en_strategies e"
proof -
  have "timeframe_of ''H1'' = Inr H1" by (simp add: timeframe_of_def all_timeframes_def)
  then have "get_or secs symb 60 = 3600" using poller_seconds_of [OF assms(4,3)] by (auto simp: get_or_def)
  moreover have "cd_symbol d = symb \<and> cd_timeframe d = seconds_to_resolution (get_or (fp_candle_seconds p) symb 60)"
    using fetch_step [OF assms(6,7), THEN conjunct2, THEN conjunct1, unfolded list_all_iff, rule_format, OF assms(8)] by blast
  ultimately have d: "cd_symbol d = symb" "cd_timeframe d = ''M60''"
    using assms(5) by (simp_all add: seconds_to_resolution_def) (simp add: get_or_def)
  have "live_strategies reg s (symbol_timeframe_map s) = Inr (en_strategies e0)"
    using assms(1) by (rule start_engine_fields)
  from live_strategies_timeframe [OF this assms(3)] obtain st0 where "en_strategies e0 symb = Some st0" "st_timeframe st0 = ''H1''" by blast
  moreover have "rel_option same_config (en_strategies e symb) (en_strategies e0 symb)"
    using reach_strats [OF assms(2)] unfolding same_strats_def by blast
  ultimately obtain st where st: "en_strategies e symb = Some st" "st_timeframe st = ''H1''"
    by (auto simp: same_config_def option_rel_Some2)
  have "c_symbol c = symb \<and> c_timeframe c = ''M60''"
    if "mk_candle symb ''M60'' ts o1 h l cl v = Inr c" for c ts o1 h l cl v
    using that by (auto simp: mk_candle_def split: if_splits)
  with d st other_timeframe_ignored [of _ st e] show ?thesis
    by (auto simp: on_poller_candle_def Let_def split: sum.split)
qed

lemma finnhub_h1_silent_witness:
  "\<exists>e0 secs d. start_engine demo_live default_registry (demo_engine_settings full_auto ''H1'') True [] 19000 = Inr e0
     \<and> fst (fst (fetch_and_emit (bars_service [(3600, 100)]) log_candle (new_fh_poller [''BTCUSD''] secs) () 7200 ''BTCUSD'')) = [d]
     \<and> cd_close d = 100 \<and> fst (engine_step demo_live default_registry e0 (EPoller d demo_exec_env)) = []"
proof -
  let ?s = "demo_engine_settings full_auto ''H1''"
  obtain e0 where e0: "start_engine demo_live default_registry ?s True [] 19000 = Inr e0"
    using demo_start [of "''H1''" full_auto] by blast
  have m: "map_of (symbol_timeframe_map ?s) ''BTCUSD'' = Some ''H1''" by (simp add: demo_timeframe_map)
  have secs: "poller_seconds ?s = Inr [''BTCUSD'' \<mapsto> 3600]"
    by (simp add: poller_seconds_def demo_timeframe_map timeframe_of_def all_timeframes_def)
  let ?p = "new_fh_poller [''BTCUSD''] [''BTCUSD'' \<mapsto> 3600]"
  have "\<exists>d p1. fetch_and_emit (bars_service [(3600, 100)]) log_candle ?p () 7200 ''BTCUSD'' = (([d], Inr ()), p1, ()) \<and> cd_close d = 100"
    by (simp add: fetch_and_emit_def get_candles_def bars_service_def fh_candle_def nth_res_def mk_candle_def
      high_consistent_def new_fh_poller_def get_or_def log_candle_def candle_ts_def dt_timestamp_def utc_def to_utc_def
      dict_of_candle_def upt_rec Let_def)
  then obtain d p1 where f: "fetch_and_emit (bars_service [(3600, 100)]) log_candle ?p () 7200 ''BTCUSD'' = (([d], Inr ()), p1, ())"
    and c: "cd_close d = 100" by blast
  have "ascending (bars_service [(3600, 100)])" by (simp add: ascending_def bars_service_def)
  moreover have "fp_candle_seconds ?p = [''BTCUSD'' \<mapsto> 3600]" by (simp add: new_fh_poller_def)
  ultimately have "fst (engine_step demo_live default_registry e0 (EPoller d demo_exec_env)) = []"
    using finnhub_h1_silent [OF e0 reach_start m secs _ f, of d demo_exec_env] by simp
  with e0 f c show ?thesis
    by (intro exI [of _ e0] exI [of _ "[''BTCUSD'' \<mapsto> 3600]"] exI [of _ d]) simp
qed

end
