(* ===== verification/Exec_Replay.thy ===== *)
theory Exec_Replay
  imports Execution
begin

text \<open>
  The executor of \<open>src/app/execution/executor.py\<close> seen from its broker: of a broker it only sees the answers to its placements, in order.
  \<open>with_broker\<close> exchanges the broker of an executor, and \<open>replay_place\<close> is a broker that gives prepared answers.

  The lemmas show that every operation of the executor on any broker is one on a broker that replays some answers, so that
  what is proved for all brokers carries over to a program that changes its broker between the operations, as the engine does with quotes.
\<close>

section \<open>A broker of answers\<close>

definition with_broker :: "'c \<Rightarrow> 'b executor \<Rightarrow> 'c executor" where
  "with_broker b ex = \<lparr>ex_broker = b, ex_risk = ex_risk ex, ex_mode = ex_mode ex, ex_ttl_sec = ex_ttl_sec ex,
     ex_pending = ex_pending ex, ex_open_trades = ex_open_trades ex\<rparr>"

fun replay_place :: "order res list \<Rightarrow> order \<Rightarrow> call_env \<Rightarrow> order res \<times> order res list" where
  "replay_place [] ord e = (Inl RuntimeError, [])"
| "replay_place (r # rs) ord e = (r, rs)"

lemma with_broker_simps [simp]:
  "ex_broker (with_broker b ex) = b" "ex_risk (with_broker b ex) = ex_risk ex" "ex_mode (with_broker b ex) = ex_mode ex"
  "ex_ttl_sec (with_broker b ex) = ex_ttl_sec ex" "ex_pending (with_broker b ex) = ex_pending ex"
  "ex_open_trades (with_broker b ex) = ex_open_trades ex"
  "with_broker b (ex\<lparr>ex_risk := rm\<rparr>) = (with_broker b ex)\<lparr>ex_risk := rm\<rparr>"
  "with_broker b (ex\<lparr>ex_pending := m\<rparr>) = (with_broker b ex)\<lparr>ex_pending := m\<rparr>"
  "with_broker b (ex\<lparr>ex_open_trades := om\<rparr>) = (with_broker b ex)\<lparr>ex_open_trades := om\<rparr>"
  "with_broker b (ex\<lparr>ex_broker := b'\<rparr>) = with_broker b ex"
  "(with_broker b ex)\<lparr>ex_broker := c\<rparr> = with_broker c ex"
  by (simp_all add: with_broker_def)

lemma with_broker_eq_iff:
  "with_broker b ex = with_broker b ex' \<longleftrightarrow> ex_risk ex = ex_risk ex' \<and> ex_mode ex = ex_mode ex' \<and> ex_ttl_sec ex = ex_ttl_sec ex'
     \<and> ex_pending ex = ex_pending ex' \<and> ex_open_trades ex = ex_open_trades ex'"
  by (simp add: with_broker_def)

section \<open>Operations\<close>

lemma attempts_replay:
  "\<exists>as. \<forall>rest. attempts replay_place (as @ rest) ord es = (fst (attempts place b ord es), rest)"
proof (induction es arbitrary: b)
  case Nil
  show ?case by (rule exI [of _ "[]"]) simp
next
  case (Cons e es)
  obtain r b1 where r: "place b ord e = (r, b1)" by fastforce
  obtain as where as: "\<And>rest. attempts replay_place (as @ rest) ord es = (fst (attempts place b1 ord es), rest)"
    using Cons.IH [of b1] by blast
  define retried where "retried \<longleftrightarrow> es \<noteq> [] \<and> (case r of Inl x \<Rightarrow> True | Inr p \<Rightarrow> o_status p = REJECTED)"
  show ?case
    by (rule exI [of _ "if retried then r # as else [r]"])
      (use r as in \<open>auto simp: retried_def split: sum.splits\<close>)
qed

lemma fire_replay:
  "\<exists>as. \<forall>rest. fire replay_place reg (with_broker (as @ rest) ex) sg d env =
     (fst (fire place reg ex sg d env), with_broker rest (snd (fire place reg ex sg d env)))"
proof (cases "market_order (xe_id env) sg (rd_quantity d)")
  case (Inl x)
  then show ?thesis by (intro exI [of _ "[]"]) (simp add: fire_def)
next
  case (Inr ord)
  obtain r b where rb: "with_retry place (ex_broker ex) ord (xe_calls env) = (r, b)" by fastforce
  obtain as where "\<And>rest. with_retry replay_place (as @ rest) ord (xe_calls env) = (r, rest)"
    using attempts_replay [of ord _ place "ex_broker ex"] rb by (metis fst_conv with_retry_def)
  then show ?thesis
    using Inr rb by (intro exI [of _ as]) (simp add: fire_def Let_def split: sum.split)
qed

text \<open>An operation that places nothing needs no answer.\<close>

lemma broker_free:
  "close_trade reg (with_broker c ex) tid reason x env =
     (fst (close_trade reg ex tid reason x env), with_broker c (snd (close_trade reg ex tid reason x env)))"
  "stage_semi_auto (with_broker c ex) sg d env = (fst (stage_semi_auto ex sg d env), with_broker c (snd (stage_semi_auto ex sg d env)))"
  by (simp_all add: close_trade_def stage_semi_auto_def Let_def split: option.split sum.split)

lemma handle_replay:
  "\<exists>as. \<forall>rest. handle_signal replay_place reg (with_broker (as @ rest) ex) sg spread env =
     (fst (handle_signal place reg ex sg spread env), with_broker rest (snd (handle_signal place reg ex sg spread env)))"
proof -
  obtain r rm where ev: "evaluate_risk reg (ex_risk ex) (dt_date (xe_t0 env)) sg spread = (r, rm)" by fastforce
  have free: ?thesis if "\<And>c. handle_signal replay_place reg (with_broker c ex) sg spread env =
     (fst (handle_signal place reg ex sg spread env), with_broker c (snd (handle_signal place reg ex sg spread env)))"
    using that by (intro exI [of _ "[]"]) simp
  show ?thesis
  proof (cases "\<exists>d. r = Inr d \<and> rd_accepted d \<and> ex_mode ex \<noteq> semi_auto")
    case True
    then obtain d where d: "r = Inr d" "rd_accepted d" "ex_mode ex \<noteq> semi_auto" by blast
    obtain as where "\<And>rest. fire replay_place reg (with_broker (as @ rest) (ex\<lparr>ex_risk := rm\<rparr>)) sg d env =
        (fst (fire place reg (ex\<lparr>ex_risk := rm\<rparr>) sg d env), with_broker rest (snd (fire place reg (ex\<lparr>ex_risk := rm\<rparr>) sg d env)))"
      using fire_replay by blast
    with ev d show ?thesis by (intro exI [of _ as]) (simp add: handle_signal_def)
  next
    case False
    show ?thesis
      by (rule free, cases r)
        (use ev False broker_free(2) [of _ "ex\<lparr>ex_risk := rm\<rparr>" sg _ env] in \<open>auto simp: handle_signal_def Let_def\<close>)
  qed
qed

lemma confirm_replay:
  "\<exists>as. \<forall>rest. confirm_pending replay_place reg (with_broker (as @ rest) ex) pid env =
     (fst (confirm_pending place reg ex pid env), with_broker rest (snd (confirm_pending place reg ex pid env)))"
proof -
  let ?ex = "ex\<lparr>ex_pending := (ex_pending ex)(pid := None)\<rparr>"
  show ?thesis
  proof (cases "\<exists>p. ex_pending ex pid = Some p \<and> dt_gt (xe_t0 env) (pd_expires_at p) = Inr False")
    case True
    then obtain p where p: "ex_pending ex pid = Some p" "dt_gt (xe_t0 env) (pd_expires_at p) = Inr False" by blast
    obtain as where "\<And>rest. fire replay_place reg (with_broker (as @ rest) ?ex) (pd_signal p) (pd_decision p) env =
        (fst (fire place reg ?ex (pd_signal p) (pd_decision p) env), with_broker rest (snd (fire place reg ?ex (pd_signal p) (pd_decision p) env)))"
      using fire_replay by blast
    with p show ?thesis by (intro exI [of _ as]) (simp add: confirm_pending_def)
  next
    case False
    then show ?thesis
      by (intro exI [of _ "[]"]) (auto simp: confirm_pending_def Let_def split: option.split sum.split bool.split)
  qed
qed

theorem exec_step_replay:
  "\<exists>as. \<forall>rest. exec_step replay_place reg (with_broker (as @ rest) ex) op =
     (fst (exec_step place reg ex op), with_broker rest (snd (exec_step place reg ex op)))"
proof (cases op)
  case (XSignal sg spread env)
  obtain as where "\<And>rest. handle_signal replay_place reg (with_broker (as @ rest) ex) sg spread env =
      (fst (handle_signal place reg ex sg spread env), with_broker rest (snd (handle_signal place reg ex sg spread env)))"
    using handle_replay by blast
  then show ?thesis by (intro exI [of _ as]) (simp add: XSignal Let_def)
next
  case (XConfirm pid env)
  obtain as where "\<And>rest. confirm_pending replay_place reg (with_broker (as @ rest) ex) pid env =
      (fst (confirm_pending place reg ex pid env), with_broker rest (snd (confirm_pending place reg ex pid env)))"
    using confirm_replay by blast
  then show ?thesis by (intro exI [of _ as]) (simp add: XConfirm Let_def)
qed (auto simp: broker_free cancel_pending_def Let_def intro!: exI [of _ "[]"])

text \<open>A run that is one step longer, with the broker exchanged in between.\<close>

lemma exec_run_snoc:
  "exec_run place reg ex (ops @ [op]) =
     (let r = exec_run place reg ex ops; s = exec_step place reg (snd r) op in (fst r @ fst s, snd s))"
  by (induction ops arbitrary: ex) (simp_all add: Let_def)

lemma exec_run_extend:
  assumes "\<And>rest. exec_run replay_place reg (with_broker (as @ rest) ex0) ops = (outs, with_broker rest ex)"
    and "\<And>rest :: order res list. with_broker rest ex = with_broker rest ex1"
  shows "\<exists>as'. \<forall>rest. exec_run replay_place reg (with_broker (as' @ rest) ex0) (ops @ [op]) =
    (outs @ fst (exec_step place reg ex1 op), with_broker rest (snd (exec_step place reg ex1 op)))"
proof -
  obtain bs where bs: "\<And>rest. exec_step replay_place reg (with_broker (bs @ rest) ex1) op =
      (fst (exec_step place reg ex1 op), with_broker rest (snd (exec_step place reg ex1 op)))"
    using exec_step_replay by blast
  show ?thesis
    using assms bs by (intro exI [of _ "as @ bs"]) (simp add: exec_run_snoc Let_def del: exec_run.simps)
qed

end
