(* ===== verification/Trading_Run.thy ===== *)
theory Trading_Run
  imports Engine
begin

text \<open>
  A run of the engine that trades: on six one-minute bars of \<open>BTCUSD\<close> the third is a swing low, the last sweeps it and closes
  back above, and the paper engine goes long.  The theory computes the run bar by bar, with the real floats, and
  serves as the instance of the properties of whole runs.
\<close>

section \<open>The bars and the market structure\<close>

definition btc_bar :: "pyfloat \<Rightarrow> pyfloat \<Rightarrow> pyfloat \<Rightarrow> pyfloat \<Rightarrow> int \<Rightarrow> candle" where
  "btc_bar opn high low close n =
     \<lparr>c_symbol = ''BTCUSD'', c_timeframe = ''M1'', c_timestamp = utc (1641600000000000 + n * 60000000), c_open = opn,
      c_high = high, c_low = low, c_close = close, c_volume = 1\<rparr>"

lemma btc_bar_simps [simp]:
  "c_symbol (btc_bar opn high low close n) = ''BTCUSD''" "c_timeframe (btc_bar opn high low close n) = ''M1''"
  "c_timestamp (btc_bar opn high low close n) = utc (1641600000000000 + n * 60000000)" "c_open (btc_bar opn high low close n) = opn"
  "c_high (btc_bar opn high low close n) = high" "c_low (btc_bar opn high low close n) = low"
  "c_close (btc_bar opn high low close n) = close"
  by (simp_all add: btc_bar_def)

definition btc_bars :: "candle list" where
  "btc_bars = [btc_bar 106 108 105 107 0, btc_bar 106 108 104 107 1, btc_bar 105 107 100 106 2,
     btc_bar 106 108 104 107 3, btc_bar 106 108 105 107 4]"

definition btc_low :: swing_point where
  "btc_low = \<lparr>sw_type = LOW, sw_price = 100, sw_timestamp = utc (1641600000000000 + 120000000), sw_index = 2, sw_prominence = 4\<rparr>"

definition btc_ms :: "nat \<Rightarrow> ms" where
  "btc_ms n = (new_ms 2 (1 / 2))\<lparr>ms_candles := take n btc_bars, ms_swings := (if n = 5 then [btc_low] else [])\<rparr>"

lemmas update_defs = ms_update_def new_ms_def dq_append_def detect_swings_def
      ms_latest_swing_def latest_swing_def sweep_events_def break_event_def
      detect_fvg_def mitigate_obs_def fill_fvgs_def

lemma btc_update_early: "n \<in> {0,1,2,3} \<Longrightarrow> ms_update (btc_ms n) (btc_bars ! n) = ([], btc_ms (Suc n))"
  by (elim insertE emptyE; hypsubst_thin; simp add: btc_ms_def btc_bars_def update_defs)

text \<open>Five bars with a lowest one in the middle.\<close>

lemma detect_low:
  assumes "ms_candles m = [a, b, p, d, e]" and "swing_lookback m = 2" and "c_high p < c_high a"
    and "c_low p < c_low a" "c_low p < c_low b" "c_low p < c_low d" "c_low p < c_low e"
    and "\<not> dt_eq (c_timestamp a) (c_timestamp p)" "\<not> dt_eq (c_timestamp b) (c_timestamp p)" "\<not> dt_eq (c_timestamp d) (c_timestamp p)"
      "\<not> dt_eq (c_timestamp e) (c_timestamp p)" "dt_eq (c_timestamp p) (c_timestamp p)"
    and "passes_prominence m (fsub (Min {c_low a, c_low b, c_low d, c_low e}) (c_low p))"
  shows "detect_swings m = ms_add_swing m \<lparr>sw_type = LOW, sw_price = c_low p, sw_timestamp = c_timestamp p, sw_index = Suc (Suc 0),
     sw_prominence = fsub (Min {c_low a, c_low b, c_low d, c_low e}) (c_low p)\<rparr>"
proof -
  have "Max (c_high ` set [a, b, p, d, e]) \<ge> c_high a" by (rule Max_ge) simp_all
  then have "c_high p \<noteq> Max (c_high ` set [a, b, p, d, e])" using assms(3) by linarith
  moreover have "Min (c_low ` set [a, b, p, d, e]) = c_low p" by (rule Min_eqI) (use assms(4-7) in auto)
  ultimately show ?thesis using assms(1,2,8-13) by (simp add: detect_swings_def Let_def del: Max_insert Min_insert)
qed

lemma btc_update_low: "ms_update (btc_ms 4) (btc_bars ! 4) = ([], btc_ms 5)"
proof -
  have c: "ms_candles ((btc_ms 4)\<lparr>ms_candles := btc_bars\<rparr>) = btc_bars" "dq_append 512 (ms_candles (btc_ms 4)) (btc_bars ! 4) = btc_bars"
    by (simp_all add: btc_bars_def btc_ms_def dq_append_def)
  have l: "ms_latest_swing (btc_ms 5) HIGH = None" "ms_latest_swing (btc_ms 5) LOW = Some btc_low"
    by (simp_all add: btc_ms_def ms_latest_swing_def latest_swing_def btc_low_def)
  have d: "detect_swings ((btc_ms 4)\<lparr>ms_candles := btc_bars\<rparr>) = btc_ms 5"
    by (subst detect_low [of _ "btc_bars ! 0" "btc_bars ! 1" "btc_bars ! 2" "btc_bars ! 3" "btc_bars ! 4"])
      (simp_all add: btc_bars_def btc_ms_def new_ms_def passes_prominence_def ms_add_swing_def
        dt_eq_def utc_def btc_low_def dq_append_def add_swing_def compute_atr_def atr_of_def true_range_def take_last_def consec_def
        fsum_def c_range_def fl_eval)
  have "sweep_events (sweep_wick_ratio (btc_ms 5)) (btc_bars ! 4) None (Some btc_low) = []"
    "break_event (ms_last_bos (btc_ms 5)) (btc_bars ! 4) None (Some btc_low) = None"
    by (simp_all add: sweep_events_def is_sweep_low_def break_event_def btc_bars_def btc_low_def)
  moreover have "detect_fvg (btc_ms 5) = btc_ms 5" "mitigate_obs (btc_ms 5) c = btc_ms 5" "fill_fvgs (btc_ms 5) c = btc_ms 5" for c
    by (simp_all add: detect_fvg_def mitigate_obs_def fill_fvgs_def btc_ms_def new_ms_def btc_bars_def Let_def)
  ultimately show ?thesis
   by (simp add: ms_update_def c d l Let_def)
qed

definition btc_last :: candle where
  "btc_last = btc_bar 106 110 98 108 5"

definition btc_sweep :: structure_event where
  "btc_sweep = \<lparr>ev_kind = SWEEP_LOW, ev_candle = btc_last, ev_swing = btc_low\<rparr>"

lemma btc_update_sweep: "ms_update (btc_ms 5) btc_last = ([btc_sweep], (btc_ms 5)\<lparr>ms_candles := btc_bars @ [btc_last]\<rparr>)"
proof -
  let ?m = "(btc_ms 5)\<lparr>ms_candles := btc_bars @ [btc_last]\<rparr>"
  have c: "dq_append 512 (ms_candles (btc_ms 5)) btc_last = btc_bars @ [btc_last]"
    by (simp_all add: btc_bars_def btc_ms_def dq_append_def)
  have l: "ms_latest_swing ?m HIGH = None" "ms_latest_swing ?m LOW = Some btc_low"
    by (simp_all add: btc_ms_def ms_latest_swing_def latest_swing_def btc_low_def)
  have d: "detect_swings ?m = ?m"
    by (simp add: detect_swings_def btc_bars_def btc_last_def btc_ms_def new_ms_def)
  have "sweep_events (sweep_wick_ratio ?m) btc_last None (Some btc_low) = [btc_sweep]"
    "break_event (ms_last_bos ?m) btc_last None (Some btc_low) = None"
    by (simp_all add: sweep_events_def is_sweep_low_def break_event_def btc_last_def btc_low_def btc_sweep_def c_range_def
      btc_ms_def new_ms_def fl_eval)
  moreover have "detect_fvg ?m = ?m" "mitigate_obs ?m c = ?m" "fill_fvgs ?m c = ?m" for c
    by (simp_all add: detect_fvg_def mitigate_obs_def fill_fvgs_def btc_ms_def new_ms_def btc_bars_def btc_last_def Let_def)
  ultimately show ?thesis
    by (simp only: ms_update_def c d l Let_def) simp
qed

section \<open>The strategy\<close>

definition btc_strategy :: "nat \<Rightarrow> strategy" where
  "btc_strategy n = \<lparr>st_symbol = ''BTCUSD'', st_timeframe = ''M1'', st_sessions = new_session_filter 7 11 12 16,
     st_tp_min = rnd (1 / 1000), st_tp_max = rnd (1 / 5), st_min_rr = rnd (6 / 5), st_min_confluence = 60,
     st_series = (new_series ''BTCUSD'' ''M1'' 512)\<lparr>sr_buffer := take n btc_bars\<rparr>, st_ms = btc_ms n,
     st_instrument = \<lparr>i_symbol = ''BTCUSD'', pip_size = 1, contract_size = 1, quote_per_pip_per_lot = 1, is_metal = False\<rparr>,
     st_last_signal_ts = None\<rparr>"

lemma btc_strategy_simps [simp]:
  "st_symbol (btc_strategy n) = ''BTCUSD''" "st_timeframe (btc_strategy n) = ''M1''" "st_sessions (btc_strategy n) = new_session_filter 7 11 12 16"
  "st_tp_min (btc_strategy n) = rnd (1 / 1000)" "st_tp_max (btc_strategy n) = rnd (1 / 5)" "st_min_rr (btc_strategy n) = rnd (6 / 5)"
  "st_min_confluence (btc_strategy n) = 60" "st_series (btc_strategy n) = (new_series ''BTCUSD'' ''M1'' 512)\<lparr>sr_buffer := take n btc_bars\<rparr>"
  "st_ms (btc_strategy n) = btc_ms n" "pip_size (st_instrument (btc_strategy n)) = 1" "st_last_signal_ts (btc_strategy n) = None"
  by (simp_all add: btc_strategy_def)

lemma btc_ms_simps [simp]: "ms_htf_bias (btc_ms n) = NEUTRAL" "ms_order_blocks (btc_ms n) = []" "ms_fvgs (btc_ms n) = []"
   "ms_last_bos (btc_ms n) = None"
  by (simp_all add: btc_ms_def new_ms_def)

lemma btc_skipped: "\<not> skipped (btc_strategy n) (btc_bar opn high low close k)"
  by (simp add: skipped_def is_active_def new_session_filter_def symbols_24h_default_def py_upper_def upper_char_def)

lemma btc_new: "new_strategy default_registry ''BTCUSD'' ''M1'' (new_session_filter 7 11 12 16) (rnd (1 / 1000)) (rnd (1 / 5)) = Inr (btc_strategy 0)"
  by (simp add: new_strategy_def get_instrument_btcusd btc_strategy_def btc_ms_def new_series_def new_ms_def min_confluence_default_def)

lemma btc_series:
  assumes "n \<in> {0, 1, 2, 3, 4, 5}"
  shows "series_append (st_series (btc_strategy n)) ((btc_bars @ [btc_last]) ! n)
    = Inr ((new_series ''BTCUSD'' ''M1'' 512)\<lparr>sr_buffer := take (Suc n) (btc_bars @ [btc_last])\<rparr>)"
  using assms
  by (elim insertE emptyE; hypsubst_thin; simp add: series_append_def new_series_def dq_append_def btc_bars_def btc_last_def
      dt_eq_def utc_def)

lemma btc_quiet:
  assumes "n \<in> {0, 1, 2, 3, 4}"
  shows "smc_next (btc_strategy n) (btc_bars ! n) = (Inr None, btc_strategy (Suc n))"
proof -
  have "n < length btc_bars" using assms by (auto simp: btc_bars_def)
  then have nth: "(btc_bars @ [btc_last]) ! n = btc_bars ! n" and t: "take (Suc n) (btc_bars @ [btc_last]) = take (Suc n) btc_bars"
    by (simp_all add: nth_append)
  have u: "ms_update (btc_ms n) (btc_bars ! n) = ([], btc_ms (Suc n))" using assms btc_update_early [of n] btc_update_low by auto
  have sk: "\<not> skipped (btc_strategy n) (btc_bars ! n)"
    using assms by (auto simp: btc_bars_def btc_skipped)
  have "n \<in> {0, 1, 2, 3, 4, 5}" using assms by auto
  from on_candle_fed [OF sk btc_series [OF this, unfolded nth t]] show ?thesis
    by (simp add: smc_next_def u evaluate_def fed_def Let_def) (simp add: btc_strategy_def)
qed

lemma btc_last_simps [simp]:
  "c_open btc_last = 106" "c_high btc_last = 110" "c_low btc_last = 98" "c_close btc_last = 108" "c_symbol btc_last = ''BTCUSD''"
  "c_timestamp btc_last = utc (1641600000000000 + 300000000)"
  by (simp_all add: btc_last_def)

lemma btc_sweep_simps [simp]: "ev_kind btc_sweep = SWEEP_LOW" "sw_price (ev_swing btc_sweep) = 100"
  by (simp_all add: btc_sweep_def btc_low_def)

lemma btc_rejection: "is_strong_bullish_rejection btc_last default_wick_ratio"
  by (simp add: is_strong_bullish_rejection_def c_range_def is_bullish_def lower_wick_def c_body_def
      default_wick_ratio_def fl_eval)

lemma btc_score:
  "score_long (fed (btc_strategy 5) s btc_last) btc_last [btc_sweep] NEUTRAL =
     \<lparr>cf_score = 70, cf_max_score = 100, cf_factors_hit = 3, cf_factors_total = 5,
     cf_sweep = 40, cf_rejection = 25, cf_bos_htf = 0, cf_order_block = 0, cf_session_spread = 5,
     cf_direction = ''LONG'', cf_htf_bias = ''NEUTRAL'', cf_tags = [''SWEEP_LOW'', ''REJECTION_BULL'', ''SESSION_OK''],
     cf_rejection_reason = []\<rparr>"
  using btc_rejection
  by (simp add: score_long_def btc_update_sweep price_in_order_block_def find_order_blocks_def find_fvg_def
      last_trend_def score_defs count_hits_def)

lemma btc_build:
  "\<exists>sg. build_signal_long (fed (btc_strategy 5) s btc_last) btc_last 100
       (score_long (fed (btc_strategy 5) s btc_last) btc_last [btc_sweep] NEUTRAL) = Inr (Some sg)
     \<and> sg_symbol sg = ''BTCUSD'' \<and> sg_direction sg = LONG \<and> sg_entry sg = 108 \<and> sg_sl sg = 97"
  by (simp add: btc_score build_signal_long_def tp_distance_def inst_price_delta_def signal_long_def mk_signal_def
      rr_ratio_def risk_distance_def reward_distance_def fl_eval)

lemma btc_signal:
  obtains sg st where "smc_next (btc_strategy 5) btc_last = (Inr (Some sg), st)" "sg_symbol sg = ''BTCUSD''" "sg_direction sg = LONG"
     "sg_entry sg = 108" "sg_sl sg = 97"
proof -
  let ?s = "(new_series ''BTCUSD'' ''M1'' 512)\<lparr>sr_buffer := btc_bars @ [btc_last]\<rparr>"
  have se: "series_append (st_series (btc_strategy 5)) btc_last = Inr ?s"
    using btc_series [of 5] by (simp add: btc_bars_def)
  have sk: "\<not> skipped (btc_strategy 5) btc_last" by (simp add: btc_last_def btc_skipped)
  obtain sg where sg: "build_signal_long (fed (btc_strategy 5) ?s btc_last) btc_last 100
      (score_long (fed (btc_strategy 5) ?s btc_last) btc_last [btc_sweep] NEUTRAL) = Inr (Some sg)"
    and f: "sg_symbol sg = ''BTCUSD''" "sg_direction sg = LONG" "sg_entry sg = 108" "sg_sl sg = 97"
    using btc_build by blast
  then have "fst (smc_next (btc_strategy 5) btc_last) = Inr (Some sg)"
    unfolding smc_next_def Let_def on_candle_fed [OF sk se]
    by (simp add: evaluate_def evaluate_long_def btc_update_sweep get_htf_bias_def Let_def btc_score)
  with f show ?thesis using that by (metis prod.collapse)
qed

section \<open>The engine\<close>

definition btc_settings :: settings where
  "btc_settings = default_settings\<lparr>app_mode := paper, symbols := [''BTCUSD:M1''], target_profit_pct_max := rnd (1 / 5)\<rparr>"

lemma btc_settings_simps [simp]:
  "app_mode btc_settings = paper" "account_balance btc_settings = 100000" "max_trades_per_day btc_settings = 5"
  "risk_per_trade_pct btc_settings = rnd (1 / 100)" 
  "max_consecutive_losses btc_settings = 3" "max_total_dd_pct btc_settings = rnd (5 / 100)"
  "max_daily_loss_pct btc_settings = rnd (3 / 100)" "max_spread_pips_fx btc_settings = rnd (3 / 2)"
  "symbol_timeframe_map btc_settings = [(''BTCUSD'', ''M1'')]"
  by (simp_all add: btc_settings_def default_settings_def symbol_timeframe_map_def split_colon_def py_strip_def py_space_def)

abbreviation btc_risk :: risk_manager where
  "btc_risk \<equiv> new_risk_manager btc_settings 100000 100000 100000 19000"

text \<open>The engine while it waits for the bar after the first \<open>n\<close>.\<close>

definition btc_waits :: "nat \<Rightarrow> unit engine \<Rightarrow> bool" where
  "btc_waits n e \<longleftrightarrow> en_strategies e = [''BTCUSD'' \<mapsto> btc_strategy n] \<and> en_own e = None \<and> en_settings e = btc_settings
     \<and> (\<exists>b. en_exec e = new_executor (PaperB b) btc_risk paper 90)"

lemma btc_start:
  obtains e0 where "start_engine demo_live default_registry btc_settings True [] 19000 = Inr e0" "btc_waits 0 e0"
proof -
  have f: "new_session_filter (s_london_open btc_settings) (s_london_close btc_settings) (s_ny_open btc_settings) (s_ny_close btc_settings)
      = new_session_filter 7 11 12 16" "target_profit_pct_min btc_settings = rnd (1 / 1000)" "target_profit_pct_max btc_settings = rnd (1 / 5)"
    by (simp_all add: btc_settings_def default_settings_def)
  have "poller_seconds btc_settings = Inr [''BTCUSD'' \<mapsto> 60]"
    by (simp add: poller_seconds_def timeframe_of_def all_timeframes_def)
  then have "\<exists>e0. start_engine demo_live default_registry btc_settings True [] 19000 = Inr e0 \<and> btc_waits 0 e0"
    by (auto simp: start_engine_def new_broker_def f btc_new btc_waits_def paper_balance_def new_paper_def)
  with that show ?thesis by blast
qed

definition btc_op :: "candle \<Rightarrow> engine_op" where
  "btc_op c = EPoller (dict_of_candle c) demo_exec_env"

lemma btc_candle:
  assumes "c \<in> set (btc_bars @ [btc_last])"
  shows "mk_candle (c_symbol c) (c_timeframe c) (c_timestamp c) (c_open c) (c_high c) (c_low c) (c_close c) (c_volume c) = Inr c"
    "c_symbol c = ''BTCUSD''"
  using assms by (auto simp: btc_bars_def btc_last_def btc_bar_def mk_candle_def high_consistent_def to_utc_def utc_def)

lemma btc_quote:
  assumes "btc_waits n e" and "c \<in> set (btc_bars @ [btc_last])"
  obtains e1 b where "quote_candle default_registry e c = Inr e1" "btc_waits n e1" "ex_broker (en_exec e1) = PaperB b"
    "pb_quotes b ''BTCUSD'' = Some (fsub (c_close c) (3 / 4), fadd (c_close c) (3 / 4))"
proof -
  obtain b where b: "en_exec e = new_executor (PaperB b) btc_risk paper 90"
    using assms(1) by (auto simp: btc_waits_def)
  let ?b = "paper_set_quote b (c_symbol c) (fsub (c_close c) (3 / 4)) (fadd (c_close c) (3 / 4))"
  have h: "fquot (fmul (rnd (3 / 2)) 1) 2 = 3 / 4" by (simp add: fl_eval)
  have "quote_candle default_registry e c = Inr (put_broker e (PaperB ?b))"
    using assms b btc_candle(2) [OF assms(2)]
    by (simp add: quote_candle_def en_broker_def btc_waits_def new_executor_def get_instrument_btcusd h Let_def)
  moreover have "btc_waits n (put_broker e (PaperB ?b))" "ex_broker (en_exec (put_broker e (PaperB ?b))) = PaperB ?b"
    using assms(1) b by (auto simp: btc_waits_def put_broker_def new_executor_def)
  ultimately show ?thesis using that btc_candle(2) [OF assms(2)] by (simp add: paper_set_quote_def)
qed

lemma btc_poll:
  assumes "btc_waits n e" and "c \<in> set (btc_bars @ [btc_last])"
  shows "engine_step demo_live default_registry e (btc_op c)
    = (let r = run_candle demo_live default_registry e c False demo_exec_env in (fst (fst r), snd r))"
  using assms btc_candle [OF assms(2)]
  by (simp add: btc_op_def on_poller_candle_def dict_of_candle_def btc_waits_def)

lemma btc_step:
  assumes "btc_waits n e" and "n \<in> {0, 1, 2, 3, 4}"
  shows "fst (engine_step demo_live default_registry e (btc_op (btc_bars ! n))) = []
    \<and> btc_waits (Suc n) (snd (engine_step demo_live default_registry e (btc_op (btc_bars ! n))))"
proof -
  have "n < length btc_bars" using assms(2) by (auto simp: btc_bars_def)
  then have c: "btc_bars ! n \<in> set (btc_bars @ [btc_last])" by simp
  obtain e1 where "quote_candle default_registry e (btc_bars ! n) = Inr e1" "btc_waits n e1"
    by (rule btc_quote [OF assms(1) c])
  then show ?thesis
    using btc_candle(2) [OF c] btc_quiet [OF assms(2)]
    by (simp add: btc_poll [OF assms(1) c] run_candle_def btc_waits_def Let_def)
qed

lemma btc_accepts:
  assumes "sg_symbol sg = ''BTCUSD''" "sg_direction sg = LONG" "sg_entry sg = 108" "sg_sl sg = 97"
  shows "\<exists>d rm. evaluate_risk default_registry btc_risk 19000 sg None = (Inr d, rm)
    \<and> rd_accepted d \<and> 0 < rd_quantity d"
proof -
  have roll: "maybe_rollover btc_risk 19000 = btc_risk" by (rule rollover_same_day) (simp add: now_date_def new_risk_manager_def)
  have dist: "risk_distance sg = 11" using assms by (simp add: risk_distance_def fl_eval)
  have "size_position default_registry btc_risk sg = Inr (rnd (909 / 10))"
    by (simp add: size_position_def dist assms get_instrument_btcusd inst_pips_def new_risk_manager_def fl_eval)
  then have fits: "signal_fits default_registry btc_risk sg None (rnd (909 / 10))"
    by (simp add: signal_fits_def dist) (simp add: fl_eval)
  have may: "may_trade btc_risk" by (simp add: may_trade_def daily_loss_limit_amount_def new_risk_manager_def Let_def fl_eval)
  show ?thesis
    using evaluate_risk_may_trade [of btc_risk 19000 default_registry sg None] evaluate_size_may_accept [OF fits] fits
    by (simp add: roll may signal_fits_def)
qed

lemma btc_trades:
  assumes "btc_waits 5 e"
  shows "\<exists>t. NotifyTradeOpen t \<in> set (fst (engine_step demo_live default_registry e (btc_op btc_last)))"
proof -
  have c: "btc_last \<in> set (btc_bars @ [btc_last])" by simp
  obtain e1 b where q: "quote_candle default_registry e btc_last = Inr e1" "btc_waits 5 e1" "ex_broker (en_exec e1) = PaperB b"
    "pb_quotes b ''BTCUSD'' = Some (fsub 108 (3 / 4), fadd 108 (3 / 4))"
    by (rule btc_quote [OF assms c]) simp
  obtain sg st where s: "smc_next (btc_strategy 5) btc_last = (Inr (Some sg), st)" "sg_symbol sg = ''BTCUSD''" "sg_direction sg = LONG"
     "sg_entry sg = 108" "sg_sl sg = 97" by (rule btc_signal)
  obtain d rm where d: "evaluate_risk default_registry btc_risk 19000 sg None = (Inr d, rm)"
    "rd_accepted d" "0 < rd_quantity d" using btc_accepts [OF s(2-5)] by blast
  have x: "en_exec e1 = new_executor (PaperB b) btc_risk paper 90"
    using q(2,3) by (auto simp: btc_waits_def new_executor_def)
  have "\<exists>t. NotifyTradeOpen t \<in> set (snd (fst (fire (any_place demo_live) default_registry (en_exec e1\<lparr>ex_risk := rm\<rparr>) sg d demo_exec_env)))"
    by (simp add: x new_executor_def fire_def market_order_def mk_order_def d(3) s with_retry_def paper_place_def paper_get_quote_def q(4)
      get_instrument_btcusd inst_pips_def Let_def)
  then have "\<exists>t. NotifyTradeOpen t \<in> set (snd (fst (handle_signal (any_place demo_live) default_registry (en_exec e1) sg None demo_exec_env)))"
    using d by (simp add: handle_signal_def) (simp add: x new_executor_def)
  moreover have "fst (fst (run_candle demo_live default_registry e btc_last False demo_exec_env))
    = snd (fst (handle_signal (any_place demo_live) default_registry (en_exec e1) sg None demo_exec_env))"
    using q(1,2) s(1) by (simp add: run_candle_def btc_waits_def ex_signal_def Let_def)
  ultimately show ?thesis by (simp add: btc_poll [OF assms c] Let_def)
qed


definition btc_ops :: "engine_op list" where
  "btc_ops = map btc_op (btc_bars @ [btc_last])"

lemma engine_run_append: "engine_run lv reg e (ops @ ops') =
    (let r = engine_run lv reg e ops; s = engine_run lv reg (snd r) ops' in (fst r @ fst s, snd s))"
  by (induction ops arbitrary: e) (simp_all add: Let_def)

lemma btc_quiet_run:
  "btc_waits 0 e \<Longrightarrow> n \<le> 5 \<Longrightarrow> fst (engine_run demo_live default_registry e (map btc_op (take n btc_bars))) = []
     \<and> btc_waits n (snd (engine_run demo_live default_registry e (map btc_op (take n btc_bars))))"
proof (induction n)
  case (Suc n)
  then have n: "n < length btc_bars" "n \<in> {0, 1, 2, 3, 4}" by (auto simp: btc_bars_def)
  with Suc btc_step [OF _ n(2)] show ?case
    by (simp add: take_Suc_conv_app_nth engine_run_append Let_def)
qed simp

lemma btc_run:
  obtains e0 t where "start_engine demo_live default_registry btc_settings True [] 19000 = Inr e0"
    "NotifyTradeOpen t \<in> set (fst (engine_run demo_live default_registry e0 btc_ops))"
proof -
  obtain e0 where e0: "start_engine demo_live default_registry btc_settings True [] 19000 = Inr e0" "btc_waits 0 e0"
    by (rule btc_start)
  have "take 5 btc_bars = btc_bars" by (simp add: btc_bars_def)
  with btc_quiet_run [OF e0(2), of 5] have "btc_waits 5 (snd (engine_run demo_live default_registry e0 (map btc_op btc_bars)))" by simp
  from btc_trades [OF this] obtain t where "NotifyTradeOpen t \<in> set (fst (engine_run demo_live default_registry e0 btc_ops))"
    by (auto simp: btc_ops_def engine_run_append Let_def)
  with e0(1) show ?thesis by (rule that)
qed

end
