(* ===== verification/Engine_Runs.thy ===== *)
theory Engine_Runs
  imports Trading_Run Exec_Replay
begin

text \<open>
  Whole runs of the engine of \<open>src/app/engine/orchestrator.py\<close>, end to end: from the settings and the candles of the
  poller or the web socket, through the strategies, to the trades of the executor.

  The lemmas show: that every trade the engine opens keeps the contract of a signal of the configured
  strategy and that every close is the close of a trade that was opened; and that, without a switch of
  the environment, the engine refines its executor, so that what holds over all runs of the executor, such as the daily cap,
  holds over all runs of the engine.
\<close>

section \<open>The strategies of the settings\<close>

definition configured_filter :: "settings \<Rightarrow> session_filter" where
  "configured_filter s = new_session_filter (s_london_open s) (s_london_close s) (s_ny_open s) (s_ny_close s)"

definition configured :: "settings \<Rightarrow> string \<Rightarrow> strategy \<Rightarrow> bool" where
  "configured s symb st \<longleftrightarrow> st_symbol st = symb \<and> map_of (symbol_timeframe_map s) symb = Some (st_timeframe st)
     \<and> st_sessions st = configured_filter s \<and> st_tp_max st = target_profit_pct_max s
     \<and> st_min_rr st = rnd (6 / 5) \<and> st_min_confluence st = 60 \<and> get_htf_bias (st_ms st) = NEUTRAL"

lemma live_strategies_built:
  "live_strategies reg s xs = Inr m \<Longrightarrow> m symb = Some st \<Longrightarrow> \<exists>tf. map_of xs symb = Some tf
     \<and> new_strategy reg symb tf (configured_filter s) (target_profit_pct_min s) (target_profit_pct_max s) = Inr st"
  by (induction xs arbitrary: m) (auto simp: bind_res_eq_Inr configured_filter_def split: if_splits)

lemma live_strategies_configured:
  assumes "live_strategies reg s (symbol_timeframe_map s) = Inr m" and "m symb = Some st"
  shows "configured s symb st"
proof -
  obtain tf where "map_of (symbol_timeframe_map s) symb = Some tf"
    and "new_strategy reg symb tf (configured_filter s) (target_profit_pct_min s) (target_profit_pct_max s) = Inr st"
    using live_strategies_built [OF assms] by blast
  then show ?thesis
    by (auto simp: configured_def new_strategy_def bind_res_eq_Inr min_confluence_default_def new_ms_def get_htf_bias_def)
qed

lemma configured_same: "configured s symb st \<Longrightarrow> same_config st' st \<Longrightarrow> configured s symb st'"
  by (simp add: configured_def same_config_def)

text \<open>In every state the engine reaches, a strategy is the one of the settings; nothing ever sets its bias.\<close>

lemma reach_configured:
  assumes "start_engine lv reg s b j now = Inr e0" and "engine_reach lv reg allowed e0 outs e" and "en_strategies e symb = Some st"
  shows "configured s symb st"
proof -
  have "rel_option same_config (en_strategies e symb) (en_strategies e0 symb)"
    using reach_strats [OF assms(2)] by (simp add: same_strats_def)
  with assms(3) obtain st0 where st0: "en_strategies e0 symb = Some st0" "same_config st st0"
    by (auto simp: option_rel_Some1)
  have "live_strategies reg s (symbol_timeframe_map s) = Inr (en_strategies e0)"
    using assms(1) by (rule start_engine_fields)
  with st0 show ?thesis by (blast intro: live_strategies_configured configured_same)
qed

section \<open>Sound trades\<close>

text \<open>
  What a trade of the engine promises: it comes from a bar of the configured symbol and timeframe in an
  active session, its levels lie around the close, the target within one and a half times the
  maximal profit, the ratio is at least 1.2 and the size is positive.
\<close>

definition trade_contract :: "settings \<Rightarrow> trade \<Rightarrow> bool" where
  "trade_contract s t \<longleftrightarrow>
     (\<exists>c :: candle. map_of (symbol_timeframe_map s) (t_symbol t) = Some (c_timeframe c) \<and> c_symbol c = t_symbol t
        \<and> is_active (configured_filter s) (c_timestamp c) (c_symbol c)
        \<and> (let cap = fmul (fmul (c_close c) (target_profit_pct_max s)) (3 / 2) in case t_direction t of
             LONG \<Rightarrow> 0 < t_stop_loss t \<and> t_stop_loss t < c_close c \<and> c_close c < t_take_profit t \<and> t_take_profit t \<le> fadd (c_close c) cap
           | SHORT \<Rightarrow> 0 < t_take_profit t \<and> t_take_profit t < c_close c \<and> c_close c < t_stop_loss t \<and> fsub (c_close c) cap \<le> t_take_profit t))
     \<and> (\<exists>rr. t_rr_ratio t = Some rr \<and> rnd (6 / 5) \<le> rr) \<and> 0 < t_quantity t \<and> t_status t = T_OPEN"

lemma signalled_contract:
  assumes "signals e sg" and "\<And>symb st. en_strategies e symb = Some st \<Longrightarrow> configured s symb st" and "trade_for sg d env t"
  shows "trade_contract s t"
proof -
  obtain c st where st: "en_strategies e (c_symbol c) = Some st" and sg: "snd (fst (on_candle st c)) = Inr (Some sg)"
    using assms(1) by (auto simp: signals_def)
  obtain sr where go: "\<not> skipped st c"
    and ev: "snd (fst (evaluate (fed st sr c) c (fst (ms_update (st_ms st) c)))) = Inr (Some sg)"
    by (rule on_candle_Some [OF sg])
  have "c_timeframe c = st_timeframe st" "is_active (st_sessions st) (c_timestamp c) (c_symbol c)"
    using go by (auto simp: skipped_def)
  with assms(2) [OF st] evaluate_contract [OF ev] assms(3) show ?thesis
    by (auto simp: trade_contract_def configured_def signal_contract_def signal_ok_def trade_for_def Let_def
        intro!: exI [of _ c] split: signal_direction.splits)
qed

text \<open>A signal opens a trade under its id, or it leaves the open trades alone.\<close>

lemma handle_opens:
  obtains (opened) t d where "snd (fst (handle_signal place reg ex sg spread env)) = [PersistTrade t, NotifyTradeOpen t]"
      "ex_open_trades (snd (handle_signal place reg ex sg spread env)) = (ex_open_trades ex)(trade_id t \<mapsto> t)" "trade_for sg d env t"
  | (none) "opened_ids (snd (fst (handle_signal place reg ex sg spread env))) = []"
      "ex_open_trades (snd (handle_signal place reg ex sg spread env)) = ex_open_trades ex"
proof -
  obtain r evs ex' where h: "handle_signal place reg ex sg spread env = ((r, evs), ex')" by (metis surj_pair)
  show ?thesis
  proof (cases "\<exists>t. r = Inr (Some t)")
    case True
    then obtain t where "handle_signal place reg ex sg spread env = ((Inr (Some t), evs), ex')" using h by auto
    then show ?thesis
    proof (rule handle_signal_Some)
      fix d rm assume "fire place reg (ex\<lparr>ex_risk := rm\<rparr>) sg d env = ((Inr (Some t), evs), ex')"
      then show ?thesis by (rule fire_Some) (use h in \<open>auto intro!: opened\<close>)
    qed
  next
    case False
    with h have "opened_ids evs = [] \<and> ex_open_trades ex' = ex_open_trades ex"
      by (auto simp: handle_signal_def stage_semi_auto_def fire_def Let_def split: prod.splits sum.splits if_splits)
    with h show ?thesis by (intro none) simp_all
  qed
qed

text \<open>A close of a trade: its times and texts aside, the trade with the profit at the exit price.\<close>

definition closes :: "registry \<Rightarrow> trade \<Rightarrow> trade \<Rightarrow> bool" where
  "closes reg t c \<longleftrightarrow> (\<exists>x pnl. trade_pnl reg t x = Inr pnl \<and> t_exit_price c = Some x \<and> t_pnl c = Some pnl \<and> t_status c = pnl_status pnl)
     \<and> c = t\<lparr>t_exit_time := t_exit_time c, t_exit_price := t_exit_price c, t_pnl := t_pnl c, t_pnl_pct := t_pnl_pct c,
         t_status := t_status c, t_exit_reason := t_exit_reason c\<rparr>"

lemma close_closes:
  obtains (closed_trade) t c where "snd (fst (close_trade reg ex tid reason x env)) = [PersistTrade c, NotifyTradeClose c]"
      "ex_open_trades ex tid = Some t" "closes reg t c"
      "ex_open_trades (snd (close_trade reg ex tid reason x env)) = (ex_open_trades ex)(tid := None)"
  | (nothing) "snd (fst (close_trade reg ex tid reason x env)) = []"
      "ex_open_trades (snd (close_trade reg ex tid reason x env)) = (ex_open_trades ex)(tid := None)"
proof (cases "ex_open_trades ex tid")
  case None
  show ?thesis by (rule nothing) (simp_all add: close_trade_def None Let_def)
next
  case (Some t)
  show ?thesis
  proof (cases "trade_pnl reg t x")
    case (Inl y)
    show ?thesis by (rule nothing) (simp_all add: close_trade_def Some Inl Let_def)
  next
    case (Inr pnl)
    show ?thesis
      by (rule closed_trade [of _ t]) (auto simp: close_trade_def closes_def Some Inr Let_def)
  qed
qed

definition trades_sound :: "settings \<Rightarrow> registry \<Rightarrow> exec_output list \<Rightarrow> 'l engine \<Rightarrow> bool" where
  "trades_sound s reg outs e \<longleftrightarrow> (\<forall>t. NotifyTradeOpen t \<in> set outs \<longrightarrow> trade_contract s t)
     \<and> (\<forall>tid t. ex_open_trades (en_exec e) tid = Some t \<longrightarrow> trade_id t = tid \<and> NotifyTradeOpen t \<in> set outs)
     \<and> (\<forall>c. NotifyTradeClose c \<in> set outs \<longrightarrow> (\<exists>t. NotifyTradeOpen t \<in> set outs \<and> closes reg t c))"

lemma trades_sound_fewer:
  assumes "trades_sound s reg outs e" and "\<And>tid t. ex_open_trades (en_exec e') tid = Some t \<Longrightarrow> ex_open_trades (en_exec e) tid = Some t"
  shows "trades_sound s reg outs e'"
  using assms unfolding trades_sound_def by blast

lemma trades_sound_signal:
  assumes "trades_sound s reg outs e" and "same_books e e1" and "signals e sg"
    and "\<And>symb st. en_strategies e symb = Some st \<Longrightarrow> configured s symb st"
  shows "trades_sound s reg (outs @ fst (signal_step lv reg e1 sg spread env)) (snd (signal_step lv reg e1 sg spread env))"
proof -
  let ?r = "signal_step lv reg e1 sg spread env"
  have e1: "trades_sound s reg outs e1" using assms(1,2) by (simp add: trades_sound_def same_books_def)
  have no_close: "NotifyTradeClose c \<notin> set (fst ?r)" for c
    using signal_opening [of lv reg e1 sg spread env] by (auto simp: list_all_iff)
  show ?thesis
  proof (cases rule: handle_opens [of "any_place lv" reg "en_exec e1" sg spread env])
    case (opened t d)
    then have "trade_contract s t" using signalled_contract [OF assms(3,4)] by blast
    with e1 opened show ?thesis by (auto simp: trades_sound_def signal_step_def Let_def)
  next
    case none
    then have "NotifyTradeOpen t \<notin> set (fst ?r)" for t
      using opened_ids_set [of "fst ?r"] by (auto simp: signal_step_def Let_def)
    with e1 none no_close show ?thesis by (auto simp: trades_sound_def signal_step_def Let_def)
  qed
qed

lemma trades_sound_close:
  assumes "trades_sound s reg outs e"
  shows "trades_sound s reg (outs @ fst (close_step reg e tid reason x env)) (snd (close_step reg e tid reason x env))"
proof (cases rule: close_closes [of reg "en_exec e" tid reason x env])
  case (closed_trade t c)
  with assms show ?thesis by (auto simp: trades_sound_def close_step_def Let_def)
next
  case nothing
  with assms show ?thesis by (auto simp: trades_sound_def close_step_def Let_def split: if_splits)
qed

lemma switch_keeps_fewer:
  "ex_open_trades (en_exec (api_switch lv e target now)) tid = Some t \<Longrightarrow> ex_open_trades (en_exec e) tid = Some t"
  by (auto simp: api_switch_def switch_environment_def switch_failed_def switched_def new_executor_def Let_def
      split: option.splits sum.splits prod.splits if_splits)

lemma trades_sound_event:
  assumes "event_kind lv reg e op r" and "trades_sound s reg outs e"
    and "\<And>symb st. en_strategies e symb = Some st \<Longrightarrow> configured s symb st"
  shows "trades_sound s reg (outs @ fst r) (snd r)"
  using assms(1)
proof (cases rule: event_kind.cases)
  case (ev_signal e1 d env m sg spread)
  with trades_sound_signal [OF assms(2) ev_signal(2,5) assms(3)] show ?thesis by simp
next
  case (ev_close m env tid reason x)
  with trades_sound_close [OF assms(2)] show ?thesis by simp
next
  case (ev_switch target now)
  then show ?thesis using trades_sound_fewer [OF assms(2) switch_keeps_fewer] by simp
qed (use trades_sound_fewer [OF assms(2), of "snd r"] in \<open>auto simp: same_books_def dash_disable_def look_defs update_risk_params_def
    Let_def split: option.splits if_splits\<close>)

lemma reach_trades_sound:
  assumes "start_engine lv reg s b j now = Inr e0" and "engine_reach lv reg allowed e0 outs e"
  shows "trades_sound s reg outs e"
  using assms(2)
proof (induction rule: engine_reach.induct)
  case reach_start
  have "ex_open_trades (en_exec e0) = Map.empty" using assms(1) by (rule start_engine_fields)
  then show ?case by (simp add: trades_sound_def)
next
  case (reach_step outs e op)
  show ?case
    by (rule trades_sound_event [OF event_kinds reach_step.IH]) (rule reach_configured [OF assms(1) reach_step.hyps(1)])
qed

section \<open>The engine and its executor\<close>

text \<open>
  The engine changes the quotes of the broker it shares with the executor between the operations.  Seen through the answers the
  broker gives, an event of the engine is at most one operation of the executor, as long as the dashboard shares the risk
  manager and its parameters stay.
\<close>

fun executor_event :: "engine_op \<Rightarrow> bool" where
  "executor_event (ESwitch target now) = False"
| "executor_event (ERiskParams dd n) = False"
| "executor_event op = True"

fun engine_call :: "exec_op \<Rightarrow> bool" where
  "engine_call (XConfirm pid env) = False"
| "engine_call (XCancel pid) = False"
| "engine_call op = True"

lemma engine_call_aware: "list_all engine_call ops \<Longrightarrow> list_all aware_op ops"
  by (rule list.pred_mono_strong, assumption) (metis aware_op.simps engine_call.elims(2))

lemma executor_event_keeps: "executor_event op \<Longrightarrow> not_switch op"
  by (cases op) simp_all

definition replays :: "registry \<Rightarrow> 'l engine \<Rightarrow> exec_output list \<Rightarrow> 'l engine \<Rightarrow> bool" where
  "replays reg e0 outs e \<longleftrightarrow> (\<exists>answers ops. list_all engine_call ops
     \<and> (\<forall>rest. exec_run replay_place reg (with_broker (answers @ rest) (en_exec e0)) ops = (outs, with_broker rest (en_exec e))))"

lemma replays_same: "replays reg e0 outs e \<Longrightarrow> same_books e e' \<Longrightarrow> replays reg e0 outs e'"
proof -
  assume "same_books e e'"
  then have "with_broker rest (en_exec e') = with_broker rest (en_exec e)" for rest :: "order res list"
    by (simp add: with_broker_eq_iff same_books_def)
  then show "replays reg e0 outs e \<Longrightarrow> replays reg e0 outs e'" by (simp add: replays_def)
qed

lemma replays_step:
  assumes "replays reg e0 outs e" and "engine_call op" and "exec_step place reg (en_exec e) op = (evs, ex')" and "en_exec e' = ex'"
  shows "replays reg e0 (outs @ evs) e'"
proof -
  obtain answers ops where ops: "list_all engine_call ops"
    and run: "\<And>rest. exec_run replay_place reg (with_broker (answers @ rest) (en_exec e0)) ops = (outs, with_broker rest (en_exec e))"
    using assms(1) by (auto simp: replays_def)
  obtain as where "\<And>rest. exec_run replay_place reg (with_broker (as @ rest) (en_exec e0)) (ops @ [op])
      = (outs @ evs, with_broker rest ex')"
    using exec_run_extend [OF run refl, of op place] assms(3) by auto
  with ops assms(2,4) show ?thesis unfolding replays_def by (intro exI [of _ as] exI [of _ "ops @ [op]"]) simp
qed

lemma replays_event:
  assumes "event_kind lv reg e op r" and "shared e" and "executor_event op" and "replays reg e0 outs e"
  shows "replays reg e0 (outs @ fst r) (snd r)"
  using assms(1)
proof (cases rule: event_kind.cases)
  case (ev_quiet e')
  with replays_same [OF assms(4)] show ?thesis by simp
next
  case (ev_signal e1 d env m sg spread)
  show ?thesis
    using replays_step [OF replays_same [OF assms(4) ev_signal(2)], of "XSignal sg spread env" "any_place lv"] ev_signal(1)
    by (simp add: signal_step_def Let_def)
next
  case (ev_close m env tid reason x)
  then show ?thesis
    using replays_step [OF assms(4), of "XClose tid reason x env" "any_place lv"] by (simp add: close_step_def Let_def)
next
  case ev_kill
  with assms(2) show ?thesis
    using replays_step [OF assms(4), of XKill "any_place lv"] by (simp add: dash_disable_def shared_def)
next
  case (ev_status now)
  then show ?thesis
    using replays_step [OF assms(4), of "XSnapshot now" "any_place lv"] by (simp add: look_status_def)
next
  case (ev_risk now)
  with assms(2) show ?thesis
    using replays_step [OF assms(4), of "XSnapshot now" "any_place lv"] by (simp add: look_risk_def look_status_def shared_def)
qed (use assms(3) in simp_all)

lemma reach_replays:
  assumes "start_engine lv reg s b j now = Inr e0" and "engine_reach lv reg executor_event e0 outs e"
  shows "shared e \<and> replays reg e0 outs e"
proof (rule reach_invariant [OF assms(2), where I = "\<lambda>outs e. shared e \<and> replays reg e0 outs e"])
  have "shared e0" using assms(1) by (elim start_engine_fields) (simp add: shared_def new_risk_manager_def)
  then show "shared e0 \<and> replays reg e0 [] e0"
    by (auto simp: replays_def intro!: exI [of _ "[]"])
qed (blast intro: shared_event replays_event executor_event_keeps)

text \<open>So the daily cap of the executor is one of the engine.\<close>

lemma start_exec_inv:
  assumes "start_engine lv reg s b j now = Inr e0" and "0 \<le> max_trades_per_day s"
  shows "exec_inv (max_trades_per_day s) (with_broker br (en_exec e0))"
  using assms by (elim start_engine_fields) (simp add: exec_inv_def capped_def pending_naive_def new_risk_manager_def)

lemma reach_capped:
  assumes "start_engine lv reg s b j now = Inr e0" and "0 \<le> max_trades_per_day s" and "engine_reach lv reg executor_event e0 outs e"
  shows "capped (max_trades_per_day s) (ex_risk (en_exec e))"
proof -
  obtain answers ops where ops: "list_all engine_call ops"
    and run: "exec_run replay_place reg (with_broker (answers @ []) (en_exec e0)) ops = (outs, with_broker [] (en_exec e))"
    using reach_replays [OF assms(1,3)] unfolding replays_def by blast
  show ?thesis
    using exec_inv_run [OF start_exec_inv [OF assms(1,2)] engine_call_aware [OF ops], of replay_place reg "answers @ []"] run
    by (simp add: exec_inv_def)
qed

text \<open>The trades opened on one day, counted from its first event.\<close>

lemma reach_trans:
  "engine_reach lv reg allowed e0 outs e \<Longrightarrow> engine_reach lv reg allowed' e outs' e' \<Longrightarrow> (\<And>op. allowed' op \<Longrightarrow> allowed op) \<Longrightarrow>
     engine_reach lv reg allowed e0 (outs @ outs') e'"
proof (rotate_tac, induction rule: engine_reach.induct)
  case (reach_step outs' e' op)
  then have "engine_reach lv reg allowed e0 (outs @ outs') e'" "allowed op" by simp_all
  from engine_reach.reach_step [OF this] show ?case by simp
qed simp

lemma handle_counts:
  assumes "dt_date (xe_t0 env) = d" and "dt_date (xe_now env) = d" and "simulated_now (ex_risk ex) = None"
    and "handle_signal place reg ex sg spread env = ((res, evs), ex')"
  shows "rm_today (ex_risk ex') = d
    \<and> trades_today (ex_risk ex') = trades_today (maybe_rollover (ex_risk ex) d) + int (length (opened_ids evs))"
proof -
  obtain r rm where r: "evaluate_risk reg (ex_risk ex) d sg spread = (r, rm)" by fastforce
  then have rm: "trades_today rm = trades_today (maybe_rollover (ex_risk ex) d)" "rm_today rm = d" "simulated_now rm = None"
    using evaluate_risk_state [of reg "ex_risk ex" d sg spread] assms(3) by (auto simp: maybe_rollover_def now_date_def Let_def)
  have "rm_today (ex_risk (snd (fire place reg (ex\<lparr>ex_risk := rm\<rparr>) sg dc env))) = d
      \<and> trades_today (ex_risk (snd (fire place reg (ex\<lparr>ex_risk := rm\<rparr>) sg dc env)))
        = trades_today rm + int (length (opened_ids (snd (fst (fire place reg (ex\<lparr>ex_risk := rm\<rparr>) sg dc env)))))" for dc
    using rm assms(2)
    by (auto simp: fire_def register_trade_open_def maybe_rollover_def now_date_def Let_def split: sum.split prod.split)
  moreover have "fst h = (res, evs) \<and> snd h = ex'" if "h = handle_signal place reg ex sg spread env" for h
    using that assms(4) by simp
  ultimately show ?thesis
    using r rm assms(1,4) by (auto simp: handle_signal_def stage_semi_auto_def Let_def split: sum.splits if_splits)
      (metis fst_conv snd_conv)+
qed

definition day_count :: "int \<Rightarrow> exec_output list \<Rightarrow> 'l engine \<Rightarrow> bool" where
  "day_count d outs e \<longleftrightarrow> shared e \<and> (opened_ids outs = []
     \<or> rm_today (ex_risk (en_exec e)) = d \<and> int (length (opened_ids outs)) \<le> trades_today (ex_risk (en_exec e)))"

lemma day_count_keep:
  "day_count d outs e \<Longrightarrow> shared e' \<Longrightarrow> rm_today (ex_risk (en_exec e')) = rm_today (maybe_rollover (ex_risk (en_exec e)) d) \<Longrightarrow>
     trades_today (ex_risk (en_exec e')) = trades_today (maybe_rollover (ex_risk (en_exec e)) d) \<Longrightarrow> day_count d outs e'"
  by (auto simp: day_count_def shared_def maybe_rollover_def now_date_def Let_def)

lemma day_count_event:
  assumes "event_kind lv reg e op r" and "day_count d outs e" and "executor_event op" and "op_day d op"
    and "0 \<le> trades_today (ex_risk (en_exec e))"
  shows "day_count d (outs @ fst r) (snd r)"
proof -
  have sh: "shared e" "simulated_now (ex_risk (en_exec e)) = None" using assms(2) by (simp_all add: day_count_def shared_def)
  have sh': "shared (snd r)" by (rule shared_event [OF assms(1) sh(1) executor_event_keeps [OF assms(3)]])
  show ?thesis
    using assms(1)
  proof (cases rule: event_kind.cases)
    case (ev_signal e1 c env m sg spread)
    then have "dt_date (xe_t0 env) = d" "dt_date (xe_now env) = d" using assms(4) by auto
    moreover have "ex_risk (en_exec e1) = ex_risk (en_exec e)" using ev_signal(2) by (simp add: same_books_def)
    moreover obtain res evs ex' where "handle_signal (any_place lv) reg (en_exec e1) sg spread env = ((res, evs), ex')"
      by (metis surj_pair)
    ultimately show ?thesis
      using handle_counts [of env d "en_exec e1" "any_place lv" reg sg spread res evs ex'] assms(2,5) sh sh' ev_signal(1)
      by (auto simp: day_count_def signal_step_def maybe_rollover_def now_date_def Let_def)
  next
    case (ev_close m env tid reason x)
    then have d: "dt_date (xe_now env) = d" and r: "r = close_step reg e tid reason x env" using assms(4) by auto
    have "day_count d outs (snd r)" if "ex_risk (en_exec (snd r)) = register_trade_close (ex_risk (en_exec e)) d c" for c
      by (rule day_count_keep [OF assms(2) sh']) (simp_all add: that register_trade_close_def Let_def)
    moreover have "day_count d outs (snd r)" if "ex_risk (en_exec (snd r)) = ex_risk (en_exec e)"
      using assms(2) sh' that by (simp add: day_count_def)
    ultimately have "day_count d outs (snd r) \<and> opened_ids (fst r) = []"
      by (cases rule: close_outputs [of reg e tid reason x env]) (simp_all only: r d fst_conv snd_conv opened_ids.simps)
    then show ?thesis by (simp add: day_count_def)
  qed (use assms(2,3,4) sh sh' day_count_keep [OF assms(2) sh'] in \<open>auto simp: look_defs dash_disable_def force_disable_def
      day_count_def shared_def same_books_def\<close>)
qed

lemma reach_day_count:
  assumes "start_engine lv reg s b j now = Inr e0" and "0 \<le> max_trades_per_day s" and "engine_reach lv reg executor_event e0 outs0 e"
    and "engine_reach lv reg (\<lambda>op. executor_event op \<and> op_day d op) e outs e1"
  shows "day_count d outs e1"
  using assms(4)
proof (induction rule: engine_reach.induct)
  case reach_start
  show ?case using reach_replays [OF assms(1,3)] by (simp add: day_count_def)
next
  case (reach_step outs e1 op)
  have "engine_reach lv reg executor_event e0 (outs0 @ outs) e1"
    by (rule reach_trans [OF assms(3) reach_step.hyps(1)]) simp
  then have "0 \<le> trades_today (ex_risk (en_exec e1))" using reach_capped [OF assms(1,2)] by (auto simp: capped_def)
  with day_count_event [OF event_kinds reach_step.IH] reach_step.hyps(2) show ?case by simp
qed

text \<open>A switch begins the count again, so it is the cap of one environment and not of a day.\<close>

lemma switch_resets_count:
  assumes "switch_environment lv e target now = (True, e1)" and "mode_of target = Inr mode" and "mode \<noteq> app_mode (en_settings e)"
  shows "trades_today (ex_risk (en_exec e1)) = 0 \<and> \<not> rm_disabled (ex_risk (en_exec e1))"
  using assms by (auto simp: switch_environment_def switched_def new_executor_def new_risk_manager_def Let_def
      split: prod.splits sum.splits)

section \<open>Properties\<close>

text \<open>
  C3. The engine end to end: after any start and any events - candles, messages, dashboard calls, switches - every trade that was
  opened comes from a bar of its configured symbol and timeframe in an active session, with stop and target around
  the close, the target within one and a half times the maximal profit, a ratio of at least 1.2 and a positive size; every trade
  that is still open was announced and is kept under its id; and every announced close is the close of a trade
  that was opened, with the profit of its instrument at the exit price.
\<close>

theorem engine_trades_sound:
  assumes "start_engine lv reg s b j now = Inr e0" and "engine_reach lv reg allowed e0 outs e"
  shows "(\<forall>t. NotifyTradeOpen t \<in> set outs \<longrightarrow> trade_contract s t)
    \<and> (\<forall>tid t. ex_open_trades (en_exec e) tid = Some t \<longrightarrow> trade_id t = tid \<and> NotifyTradeOpen t \<in> set outs)
    \<and> (\<forall>c. NotifyTradeClose c \<in> set outs \<longrightarrow> (\<exists>t. NotifyTradeOpen t \<in> set outs \<and> closes reg t c))"
  using reach_trades_sound [OF assms] by (simp add: trades_sound_def)

lemma engine_trades_sound_witness:
  "\<exists>e0 t. start_engine demo_live default_registry btc_settings True [] 19000 = Inr e0
     \<and> NotifyTradeOpen t \<in> set (fst (engine_run demo_live default_registry e0 btc_ops)) \<and> trade_contract btc_settings t"
proof -
  obtain e0 t where e0: "start_engine demo_live default_registry btc_settings True [] 19000 = Inr e0"
    and t: "NotifyTradeOpen t \<in> set (fst (engine_run demo_live default_registry e0 btc_ops))" by (rule btc_run)
  have "engine_reach demo_live default_registry (\<lambda>op. True) e0 (fst (engine_run demo_live default_registry e0 btc_ops))
      (snd (engine_run demo_live default_registry e0 btc_ops))"
    by (rule run_reach) (simp add: list_all_iff)
  from engine_trades_sound [OF e0 this] e0 t show ?thesis by blast
qed

text \<open>
  C5. The engine refines its executor: after any events but a switch and new risk parameters, what was sent and the executor's state
  are those of a run of the executor alone, on a broker that gives the same answers, with calls only for signals, closes, the kill
  switch and snapshots, none to confirm or cancel a staged signal.
\<close>

theorem engine_refines_executor:
  assumes "start_engine lv reg s b j now = Inr e0" and "engine_reach lv reg executor_event e0 outs e"
  shows "\<exists>answers ops. list_all engine_call ops
    \<and> exec_run replay_place reg (with_broker answers (en_exec e0)) ops = (outs, with_broker [] (en_exec e))"
proof -
  obtain answers ops where "list_all engine_call ops"
    and "exec_run replay_place reg (with_broker (answers @ []) (en_exec e0)) ops = (outs, with_broker [] (en_exec e))"
    using reach_replays [OF assms] unfolding replays_def by blast
  then show ?thesis by auto
qed

lemma btc_ops_plain: "list_all (\<lambda>op. executor_event op \<and> op_day 19000 op) btc_ops"
  by (simp add: btc_ops_def btc_op_def list_all_iff)

lemma engine_refines_executor_witness:
  "\<exists>e0 answers ops t. start_engine demo_live default_registry btc_settings True [] 19000 = Inr e0
     \<and> NotifyTradeOpen t \<in> set (fst (exec_run replay_place default_registry (with_broker answers (en_exec e0)) ops))"
proof -
  obtain e0 t where e0: "start_engine demo_live default_registry btc_settings True [] 19000 = Inr e0"
    and t: "NotifyTradeOpen t \<in> set (fst (engine_run demo_live default_registry e0 btc_ops))" by (rule btc_run)
  have "engine_reach demo_live default_registry executor_event e0 (fst (engine_run demo_live default_registry e0 btc_ops))
      (snd (engine_run demo_live default_registry e0 btc_ops))"
    by (rule run_reach) (use btc_ops_plain in \<open>simp add: list_all_iff\<close>)
  from engine_refines_executor [OF e0 this] e0 t show ?thesis by (metis fst_conv)
qed



end
