(* ===== verification/Websocket.thy ===== *)
theory Websocket
  imports Prelude Py_Float
begin

text \<open>
  The web socket client (\<open>src/app/websocket/client.py\<close>): the loop that connects, consumes messages and waits before it
  connects again.  What a turn of the loop meets is an argument: whether there is a connection, the messages
  with the clock reading of their arrival (one that is not JSON is \<open>None\<close>), the random part of the pause, and whether \<open>stop\<close> was called.  The
  callback is a function on a state, which can raise.  The library's pings are left out; \<open>stop\<close> against the loop is in \<open>Lifecycle\<close>.

  The lemmas show: every decodable message of every connection is handed to the callback once, in order, whatever the callback
  raises; and how long the pauses are.
\<close>

record ws_client =
  ws_connected :: bool
  ws_reconnects :: int
  ws_last_message_at :: pyfloat
  ws_max_backoff :: pyfloat

definition new_ws :: "pyfloat \<Rightarrow> ws_client" where
  "new_ws max_backoff = \<lparr>ws_connected = False, ws_reconnects = 0, ws_last_message_at = 0, ws_max_backoff = max_backoff\<rparr>"

text \<open>\<open>None\<close> is the infinite age before the first message.\<close>

definition last_message_age :: "ws_client \<Rightarrow> pyfloat \<Rightarrow> pyfloat option" where
  "last_message_age w now = (if ws_last_message_at w = 0 then None else Some (fsub now (ws_last_message_at w)))"

text \<open>Sending needs a connection; what is sent is an output.\<close>

definition ws_send :: "ws_client \<Rightarrow> 'm \<Rightarrow> 'm list res" where
  "ws_send w payload = (if \<not> ws_connected w then Inl RuntimeError else Inr [payload])"

text \<open>\<open>_consume\<close>: an exception of the callback is logged.\<close>

fun consume :: "('e \<Rightarrow> 'm \<Rightarrow> unit res \<times> 'e) \<Rightarrow> ws_client \<Rightarrow> 'e \<Rightarrow> (pyfloat \<times> 'm option) list \<Rightarrow> ws_client \<times> 'e" where
  "consume on_message w e [] = (w, e)"
| "consume on_message w e ((arrival, raw) # raws) =
     (let w1 = w\<lparr>ws_last_message_at := arrival\<rparr> in
      case raw of
        None \<Rightarrow> consume on_message w1 e raws
      | Some m \<Rightarrow> consume on_message w1 (snd (on_message e m)) raws)"

text \<open>What a turn meets: no token or no connection, a cancellation of the task, or a connection with its messages.\<close>

datatype 'm ws_session = NoConnection | Cancelled | Session "(pyfloat \<times> 'm option) list"

record 'm ws_env =
  we_session :: "'m ws_session"
  we_stopped :: bool
  we_random :: pyfloat
  we_stop_in_pause :: bool

definition backoff :: "ws_client \<Rightarrow> nat \<Rightarrow> pyfloat \<Rightarrow> pyfloat" where
  "backoff w attempt random = min (ws_max_backoff w) (fadd (of_nat (2 ^ min attempt 6)) random)"

text \<open>The first part of a turn: the attempts so far, and the state when the connection is over.\<close>

definition ws_connect :: "('e \<Rightarrow> 'm \<Rightarrow> unit res \<times> 'e) \<Rightarrow> nat \<Rightarrow> ws_client \<Rightarrow> 'e \<Rightarrow> 'm ws_session \<Rightarrow> nat \<times> ws_client \<times> 'e" where
  "ws_connect on_message attempt w e s = (case s of
       Session raws \<Rightarrow>
         (case consume on_message (w\<lparr>ws_connected := True, ws_reconnects := int attempt\<rparr>) e raws of
            (w1, e1) \<Rightarrow> (0, w1\<lparr>ws_connected := False\<rparr>, e1))
     | _ \<Rightarrow> (attempt, w\<lparr>ws_connected := False\<rparr>, e))"

text \<open>The loop over the turns, with its pauses; the flag says whether it has ended.\<close>

fun ws_run :: "('e \<Rightarrow> 'm \<Rightarrow> unit res \<times> 'e) \<Rightarrow> nat \<Rightarrow> ws_client \<Rightarrow> 'e \<Rightarrow> 'm ws_env list \<Rightarrow> (pyfloat list \<times> bool) \<times> ws_client \<times> 'e" where
  "ws_run on_message attempt w e [] = (([], False), w, e)"
| "ws_run on_message attempt w e (v # vs) =
     (case ws_connect on_message attempt w e (we_session v) of
        (n, w1, e1) \<Rightarrow>
          if we_session v = Cancelled \<or> we_stopped v then (([], True), w1, e1)
          else let pause = backoff w1 (n + 1) (we_random v)
               in if we_stop_in_pause v then (([pause], True), w1, e1)
                  else case ws_run on_message (n + 1) w1 e1 vs of
                         ((pauses, ended), we) \<Rightarrow> ((pause # pauses, ended), we))"

section \<open>Delivery\<close>

text \<open>The turns the loop goes through, and the messages of their connections.\<close>

fun turns_run :: "'m ws_env list \<Rightarrow> 'm ws_env list" where
  "turns_run [] = []"
| "turns_run (v # vs) = (if we_session v = Cancelled \<or> we_stopped v \<or> we_stop_in_pause v then [v] else v # turns_run vs)"

definition decoded :: "(pyfloat \<times> 'm option) list \<Rightarrow> 'm list" where
  "decoded raws = List.map_filter snd raws"

definition session_messages :: "'m ws_session \<Rightarrow> 'm list" where
  "session_messages s = (case s of Session raws \<Rightarrow> decoded raws | _ \<Rightarrow> [])"

definition handle_all :: "('e \<Rightarrow> 'm \<Rightarrow> unit res \<times> 'e) \<Rightarrow> 'e \<Rightarrow> 'm list \<Rightarrow> 'e" where
  "handle_all on_message e ms = foldl (\<lambda>e m. snd (on_message e m)) e ms"

lemma handle_all_append: "handle_all f e (xs @ ys) = handle_all f (handle_all f e xs) ys"
  by (simp add: handle_all_def)

lemma consume_all: "snd (consume f w e raws) = handle_all f e (decoded raws)"
  by (induction f w e raws rule: consume.induct)
    (simp_all add: handle_all_def decoded_def List.map_filter_simps Let_def split: option.split)

lemma consume_client: "ws_max_backoff (fst (consume f w e raws)) = ws_max_backoff w"
  by (induction f w e raws rule: consume.induct) (simp_all add: Let_def split: option.split)

lemma ws_connect_state:
  assumes "ws_connect f attempt w e s = (n, w1, e1)"
  shows "e1 = handle_all f e (session_messages s) \<and> ws_max_backoff w1 = ws_max_backoff w \<and> \<not> ws_connected w1
    \<and> n = (case s of Session raws \<Rightarrow> 0 | _ \<Rightarrow> attempt)"
proof (cases s)
  case (Session raws)
  obtain w2 e2 where c: "consume f (w\<lparr>ws_connected := True, ws_reconnects := int attempt\<rparr>) e raws = (w2, e2)" by fastforce
  with assms Session have "n = 0" "w1 = w2\<lparr>ws_connected := False\<rparr>" "e1 = e2" by (simp_all add: ws_connect_def)
  with c Session consume_all [of f "w\<lparr>ws_connected := True, ws_reconnects := int attempt\<rparr>" e raws]
    consume_client [of f "w\<lparr>ws_connected := True, ws_reconnects := int attempt\<rparr>" e raws]
  show ?thesis by (simp add: session_messages_def)
qed (use assms in \<open>auto simp: ws_connect_def session_messages_def handle_all_def\<close>)

lemma ws_run_delivery:
  "snd (snd (ws_run f attempt w e vs)) = handle_all f e (concat (map (session_messages \<circ> we_session) (turns_run vs)))"
proof (induction vs arbitrary: attempt w e)
  case (Cons v vs)
  obtain n w1 e1 where c: "ws_connect f attempt w e (we_session v) = (n, w1, e1)" by (metis surj_pair)
  with ws_connect_state [OF c] Cons.IH [of "n + 1" w1 e1] show ?case
    by (auto simp: handle_all_append Let_def case_prod_beta handle_all_def)
qed (simp add: handle_all_def)

section \<open>Pauses\<close>

lemma is_float_pow2: "k \<le> 6 \<Longrightarrow> is_float (of_nat (2 ^ k))"
  using is_float_of_int [of "2 ^ k"] power_increasing [of k 6 "2 :: int"] by simp

lemma backoff_bounds:
  assumes "0 \<le> r" and "r \<le> 1" and "2 \<le> ws_max_backoff w" and "1 \<le> n"
  shows "2 \<le> backoff w n r \<and> backoff w n r \<le> ws_max_backoff w \<and> backoff w n r \<le> of_nat (2 ^ n + 1)"
proof -
  let ?k = "min n 6"
  let ?p = "of_nat (2 ^ ?k) :: pyfloat"
  have p: "2 \<le> ?p" using power_increasing [of 1 ?k "2 :: nat"] assms(4) by (simp del: of_nat_power)
  have f: "rnd ?p = ?p" using is_float_pow2 [of ?k] by (simp add: is_float_def)
  have "?p \<le> fadd ?p r" using rd.mono [of ?p "?p + r"] assms(1) f by (simp add: fadd_def)
  moreover have "fadd ?p r \<le> ?p + 1"
  proof -
    have "is_float (of_int (2 ^ ?k + 1))" by (rule is_float_of_int) (use power_increasing [of ?k 6 "2 :: int"] in simp)
    then have "rnd (?p + 1) = ?p + 1" by (simp add: is_float_def)
    then show ?thesis using rd.mono [of "?p + r" "?p + 1"] assms(2) by (simp add: fadd_def)
  qed
  moreover have "?p \<le> of_nat (2 ^ n)" using power_increasing [of ?k n "2 :: nat"] by (simp only: of_nat_le_iff)
  ultimately have "fadd ?p r \<le> of_nat (2 ^ n) + 1" "2 \<le> fadd ?p r" using p by linarith+
  moreover have "backoff w n r = min (ws_max_backoff w) (fadd ?p r)" by (simp add: backoff_def)
  ultimately show ?thesis using assms(3) by simp
qed

definition ends_run :: "'m ws_env \<Rightarrow> bool" where
  "ends_run v \<longleftrightarrow> we_session v = Cancelled \<or> we_stopped v \<or> we_stop_in_pause v"

lemma ws_run_ended: "snd (fst (ws_run f attempt w e vs)) \<longleftrightarrow> list_ex ends_run vs"
  by (induction vs arbitrary: attempt w e) (auto simp: ends_run_def Let_def case_prod_beta)

lemma ws_run_pauses:
  assumes "list_all (\<lambda>v. 0 \<le> we_random v \<and> we_random v \<le> 1) vs" and "2 \<le> ws_max_backoff w"
  shows "list_all (\<lambda>x. 2 \<le> x \<and> x \<le> ws_max_backoff w) (fst (fst (ws_run f attempt w e vs)))
    \<and> (\<forall>i < length (fst (fst (ws_run f attempt w e vs))). fst (fst (ws_run f attempt w e vs)) ! i \<le> of_nat (2 ^ (attempt + i + 1) + 1))"
  using assms
proof (induction vs arbitrary: attempt w e)
  case (Cons v vs)
  obtain n w1 e1 where c: "ws_connect f attempt w e (we_session v) = (n, w1, e1)" by (metis surj_pair)
  note st = ws_connect_state [OF c]
  have n: "n \<le> attempt" using st by (cases "we_session v") auto
  have b: "2 \<le> backoff w1 (n + 1) (we_random v) \<and> backoff w1 (n + 1) (we_random v) \<le> ws_max_backoff w
      \<and> backoff w1 (n + 1) (we_random v) \<le> of_nat (2 ^ (n + 1) + 1)"
    using backoff_bounds [of "we_random v" w1 "n + 1"] Cons.prems st by simp
  have mono: "(of_nat (2 ^ (n + k) + 1) :: pyfloat) \<le> of_nat (2 ^ (attempt + k) + 1)" for k
    using n power_increasing [of "n + k" "attempt + k" "2 :: nat"] by (simp only: of_nat_le_iff) simp
  obtain pauses ended we where r: "ws_run f (n + 1) w1 e1 vs = ((pauses, ended), we)" by (metis surj_pair)
  have IH: "list_all (\<lambda>x. 2 \<le> x \<and> x \<le> ws_max_backoff w) pauses"
    "\<And>i. i < length pauses \<Longrightarrow> pauses ! i \<le> of_nat (2 ^ (n + (i + 2)) + 1)"
    using Cons.IH [of w1 "n + 1" e1] Cons.prems r st by (simp_all add: ac_simps)
  have first: "backoff w1 (n + 1) (we_random v) \<le> of_nat (2 ^ (attempt + 1) + 1)"
    using b [THEN conjunct2, THEN conjunct2] mono [of 1] by (rule order_trans)
  have later: "(backoff w1 (n + 1) (we_random v) # pauses) ! i \<le> of_nat (2 ^ (attempt + i + 1) + 1)" if "i < Suc (length pauses)" for i
  proof (cases i)
    case 0
    with first show ?thesis by simp
  next
    case (Suc j)
    with that have "pauses ! j \<le> of_nat (2 ^ (n + (j + 2)) + 1)" by (intro IH(2)) simp
    also note mono [of "j + 2"]
    finally show ?thesis using Suc by simp
  qed
  show ?case
    using c r b IH(1) later first by (auto simp: Let_def case_prod_beta)
qed simp

section \<open>Properties\<close>

text \<open>
  No message is lost and no failure of the callback stops the loop: over any turns the callback is applied to exactly
  the decodable messages of every connection up to the turn that ends the loop, in their order, and the loop ends if and only
  if a turn meets a cancellation or a call of stop.
\<close>

theorem ws_delivers_all:
  "snd (snd (ws_run on_message attempt w e vs))
      = handle_all on_message e (concat (map (session_messages \<circ> we_session) (turns_run vs)))
   \<and> (snd (fst (ws_run on_message attempt w e vs)) \<longleftrightarrow> list_ex ends_run vs)"
  by (simp only: ws_run_delivery ws_run_ended)

text \<open>
  The pauses between connections: with a random part between 0 and 1, each is at least two seconds and at most the
  configured maximum, and the i-th of a fresh loop is at most 2 to the power i + 1 and one second.
\<close>

theorem ws_pauses_bounded:
  assumes "list_all (\<lambda>v. 0 \<le> we_random v \<and> we_random v \<le> 1) vs" and "2 \<le> ws_max_backoff w"
  shows "(let pauses = fst (fst (ws_run on_message 0 w e vs)) in
      list_all (\<lambda>x. 2 \<le> x \<and> x \<le> ws_max_backoff w) pauses
      \<and> (\<forall>i < length pauses. pauses ! i \<le> of_nat (2 ^ (i + 1) + 1)))"
  using ws_run_pauses [OF assms, of on_message 0 e] by (simp add: Let_def)

definition demo_turn :: "unit ws_session \<Rightarrow> unit ws_env" where
  "demo_turn s = \<lparr>we_session = s, we_stopped = False, we_random = 0, we_stop_in_pause = False\<rparr>"

lemma ws_pauses_bounded_witness:
  "(let pauses = fst (fst (ws_run (\<lambda>e m. (Inl ValueError, e + 1)) 0 (new_ws 30) (0 :: nat)
        [demo_turn NoConnection, demo_turn (Session [(1, Some ()), (2, None)]), demo_turn NoConnection])) in
      list_all (\<lambda>x. 2 \<le> x \<and> x \<le> ws_max_backoff (new_ws 30)) pauses
      \<and> (\<forall>i < length pauses. pauses ! i \<le> of_nat (2 ^ (i + 1) + 1)))"
  by (rule ws_pauses_bounded) (simp_all add: demo_turn_def new_ws_def)

end
