(* ===== verification/Engine_Feeds.thy ===== *)
theory Engine_Feeds
  imports Engine_Runs Polling Websocket
begin

text \<open>
  The engine of \<open>src/app/engine/orchestrator.py\<close> behind its sources: the pollers of \<open>src/app/market\<close> and the loop of the web
  socket take the engine's methods as callbacks (\<open>on_candle\<close> and \<open>on_message\<close>), so that their loops drive it.

  The lemmas show that these loops are runs of the engine on exactly the candles and messages they hand on, one event for
  each, so that what holds over all runs of the engine holds behind every source, and that a candle
  opens at most one trade.
\<close>

section \<open>The callbacks\<close>

text \<open>The engine with everything the executor has sent, and a counter for the clock.\<close>

type_synonym 'l driven = "nat \<times> exec_output list \<times> 'l engine"

definition feed_candle :: "'l live_ops \<Rightarrow> registry \<Rightarrow> (nat \<Rightarrow> exec_env) \<Rightarrow> 'l driven \<Rightarrow> candle_dict \<Rightarrow> unit res \<times> 'l driven" where
  "feed_candle lv reg envs s d = (case s of (k, outs, e) \<Rightarrow>
     (case on_poller_candle lv reg e d (envs k) of ((evs, r), e1) \<Rightarrow> (r, Suc k, outs @ evs, e1)))"

definition feed_message :: "'l live_ops \<Rightarrow> registry \<Rightarrow> (nat \<Rightarrow> exec_env) \<Rightarrow> 'l driven \<Rightarrow> ws_message \<Rightarrow> unit res \<times> 'l driven" where
  "feed_message lv reg envs s m = (case s of (k, outs, e) \<Rightarrow>
     (case on_ws_message lv reg e m (envs k) of ((evs, r), e1) \<Rightarrow> (r, Suc k, outs @ evs, e1)))"

text \<open>The events of what was handed on.\<close>

definition candle_ops :: "(nat \<Rightarrow> exec_env) \<Rightarrow> nat \<Rightarrow> candle_dict list \<Rightarrow> engine_op list" where
  "candle_ops envs k ds = map (\<lambda>(i, d). EPoller d (envs i)) (enumerate k ds)"

definition message_ops :: "(nat \<Rightarrow> exec_env) \<Rightarrow> nat \<Rightarrow> ws_message list \<Rightarrow> engine_op list" where
  "message_ops envs k ms = map (\<lambda>(i, m). EWs m (envs i)) (enumerate k ms)"

lemma handle_candles:
  "handle_all (feed_candle lv reg envs) (k, outs, e) ds =
     (let r = engine_run lv reg e (candle_ops envs k ds) in (k + length ds, outs @ fst r, snd r))"
  by (induction ds arbitrary: k outs e)
    (simp_all add: handle_all_def feed_candle_def candle_ops_def case_prod_beta Let_def)

lemma step_keeps_ws: "en_ws (snd (engine_step lv reg e (EWs m env))) = en_ws e"
  using event_kinds [of lv reg e "EWs m env"]
  by (cases rule: event_kind.cases) (auto simp: same_books_def signal_step_def close_step_def Let_def)

lemma handle_messages:
  "en_ws e \<Longrightarrow> handle_all (feed_message lv reg envs) (k, outs, e) ms =
     (let r = engine_run lv reg e (message_ops envs k ms) in (k + length ms, outs @ fst r, snd r))"
proof (induction ms arbitrary: k outs e)
  case (Cons m ms)
  then have "en_ws (snd (on_ws_message lv reg e m (envs k)))" using step_keeps_ws [of lv reg e m "envs k"] by (simp add: Let_def)
  with Cons show ?case by (simp add: handle_all_def feed_message_def message_ops_def case_prod_beta Let_def)
qed (simp add: handle_all_def message_ops_def)

section \<open>The loops\<close>

lemma emit_new_handles:
  "emit_new f symb last_seen p e cs = ((ds, r), p1, e1) \<Longrightarrow> e1 = handle_all f e ds"
proof (induction f symb last_seen p e cs arbitrary: ds r p1 e1 rule: emit_new.induct)
  case (2 f symb last_seen p e c cs)
  then show ?case
    by (auto simp: handle_all_def Let_def split: if_splits prod.splits sum.splits)
qed (simp add: handle_all_def)

lemma run_fetches_handles: "snd (snd (run_fetches f p e fs)) = handle_all f e (fst (run_fetches f p e fs))"
proof (induction f p e fs rule: run_fetches.induct)
  case (2 f p e service now_ts symb fs)
  obtain ds r p1 e1 where f: "fetch_and_emit service f p e now_ts symb = ((ds, r), p1, e1)" by (metis surj_pair)
  then have "e1 = handle_all f e ds"
    by (auto simp: fetch_and_emit_def handle_all_def Let_def dest: emit_new_handles split: sum.splits if_splits)
  with "2.IH" [OF f [symmetric] refl refl] f show ?case by (simp add: handle_all_append case_prod_beta)
qed (simp add: handle_all_def)

lemma emit_prices_handles: "\<exists>ds. length ds \<le> length qs \<and> snd (emit_prices f p e clock n qs) = handle_all f e ds"
proof (induction f p e clock n qs rule: emit_prices.induct)
  case (2 f p e clock n symb q qs)
  have more: "\<exists>ds. length ds \<le> Suc (length qs) \<and> handle_all f e1 ds' = handle_all f e ds"
    if "length ds' \<le> length qs" "e1 = e" for ds' e1
    using that by (intro exI [of _ ds']) simp
  show ?case
  proof (cases "q_mid q > 0")
    case True
    obtain x p1 where x: "produce_candle p (fst (clock n)) (snd (clock n)) symb (q_mid q) = (x, p1)" by fastforce
    show ?thesis
    proof (cases x)
      case None
      with "2.IH"(1) [OF True x [symmetric] None] x True show ?thesis by (auto intro: le_SucI)
    next
      case (Some d)
      obtain r e1 where c: "f e d = (r, e1)" by fastforce
      show ?thesis
      proof (cases r)
        case (Inl y)
        with x c True Some show ?thesis by (intro exI [of _ "[d]"]) (simp add: handle_all_def)
      next
        case (Inr u)
        from "2.IH"(2) [OF True x [symmetric] Some c [symmetric] Inr] obtain ds where
          "length ds \<le> length qs" "snd (emit_prices f p1 e1 clock (n + 1) qs) = handle_all f e1 ds" by blast
        with x c True Some Inr show ?thesis by (intro exI [of _ "d # ds"]) (simp add: handle_all_def)
      qed
    qed
  next
    case False
    with "2.IH"(3) [OF False] show ?thesis by (auto intro: le_SucI)
  qed
qed (simp add: handle_all_def)

lemma poll_turn_handles: "\<exists>ds. snd (poll_turn f p e clock replies) = handle_all f e ds"
proof (cases "poll replies")
  case (Inl x)
  then show ?thesis by (intro exI [of _ "[]"]) (simp add: poll_turn_def handle_all_def)
next
  case (Inr prices)
  show ?thesis
  proof (cases "prices = []")
    case True
    with Inr show ?thesis by (intro exI [of _ "[]"]) (simp add: poll_turn_def handle_all_def)
  next
    case False
    with Inr emit_prices_handles [of prices f "p\<lparr>rp_last_quotes := prices\<rparr>" e clock 0] show ?thesis
      by (auto simp: poll_turn_def)
  qed
qed

lemma rest_loop_handles: "\<exists>ds. snd (fst (snd (rest_loop http auth ids f stopped p e vs tw))) = handle_all f e ds"
proof (induction http auth ids f stopped p e vs tw rule: rest_loop.induct)
  case (3 http auth ids f p e clock stop vs tw)
  obtain p1 e1 tw1 where t: "rest_turn http auth ids f p e clock tw = ((p1, e1), tw1)" by (metis surj_pair)
  obtain replies where "fst (rest_turn http auth ids f p e clock tw) = poll_turn f p e clock replies"
    using rest_turn_refines [of http auth ids f p e clock tw] by blast
  with t have "e1 = snd (poll_turn f p e clock replies)" by (metis fst_conv snd_conv)
  then obtain ds where e1: "e1 = handle_all f e ds" using poll_turn_handles [of f p e clock replies] by blast
  from "3.IH" [OF t [symmetric] refl] obtain ds' where
    "snd (fst (snd (rest_loop http auth ids f stop p1 e1 vs tw1))) = handle_all f e1 ds'" by blast
  with t e1 show ?case by (auto simp: handle_all_append intro: exI [of _ "ds @ ds'"])
qed (auto simp: handle_all_def intro: exI [of _ "[]"])

lemma fp_loop_handles: "snd (snd (fp_loop f stopped p e vs)) = handle_all f e (snd (fst (fp_loop f stopped p e vs)))"
  using fp_loop_fetches [of f stopped p e vs] run_fetches_handles by metis

section \<open>One trade for a candle\<close>

lemma step_opens_one: "length (opened_ids (fst (engine_step lv reg e op))) \<le> 1"
  using event_kinds [of lv reg e op]
proof (cases rule: event_kind.cases)
  case (ev_signal e1 d env m sg spread)
  then show ?thesis
    by (cases rule: handle_opens [of "any_place lv" reg "en_exec e1" sg spread env]) (simp_all add: signal_step_def Let_def)
next
  case (ev_close m env tid reason x)
  then show ?thesis by (cases rule: close_outputs [of reg e tid reason x env]) simp_all
qed simp_all

lemma run_opens: "length (opened_ids (fst (engine_run lv reg e ops))) \<le> length ops"
proof (induction ops arbitrary: e)
  case (Cons op ops)
  from Cons [of "snd (engine_step lv reg e op)"] step_opens_one [of lv reg e op] show ?case by (simp add: Let_def)
qed simp

section \<open>Properties\<close>



end
