(* ===== verification/Lifecycle.thy ===== *)
theory Lifecycle
  imports Engine Feed Websocket
begin

text \<open>
  Starting and stopping: the start of the price poller (\<open>src/app/market/rest_poller.py\<close>), the task of the web socket client against \<open>stop\<close> (\<open>src/app/websocket/client.py\<close>), and the end of the
  engine (\<open>run\<close> and \<open>stop\<close> of \<open>src/app/engine/orchestrator.py\<close>, \<open>src/scripts/run_live.py\<close>).  \<open>Websocket\<close> runs whole turns of the client's loop; here the
  loop is cut at its awaits, where a call of \<open>stop\<close> can come in between.  The library, which opens and closes the
  connection, is a step that can happen; a step of the server is marked as such.

  The lemmas show when \<open>stop\<close> ends by the client's own steps and when only the server can end it, what the engine's
  \<open>stop\<close> leaves open, and that the entry point always calls it.
\<close>

section \<open>The task of the client\<close>

text \<open>Where the task is: at the token provider, in \<open>websockets.connect\<close>, in the loop over the messages, in the pause, or at its end.\<close>

datatype ws_phase = AskToken | Connecting | Consuming | Pausing | TaskEnded

text \<open>Who has called \<open>stop\<close>, and how far it is: the close of the connection it found, and the wait for the task.\<close>

datatype ws_stopper = Nobody | ClosingConnection | AwaitingTask | StopReturned

record ws_task =
  wt_phase :: ws_phase
  wt_stop :: bool
  wt_stopper :: ws_stopper

definition ws_started :: ws_task where
  "ws_started = \<lparr>wt_phase = AskToken, wt_stop = False, wt_stopper = Nobody\<rparr>"

text \<open>The end of a turn: the check of the event after the \<open>finally\<close> block.\<close>

definition turn_over :: "ws_task \<Rightarrow> ws_task" where
  "turn_over s = s\<lparr>wt_phase := (if wt_stop s then TaskEnded else Pausing)\<rparr>"

text \<open>\<open>stop\<close> closes the connection it sees: \<open>_ws\<close> is set from the connection to the end of the messages.\<close>

definition call_stop :: "ws_task \<Rightarrow> ws_task" where
  "call_stop s = s\<lparr>wt_stop := True, wt_stopper := (if wt_phase s = Consuming then ClosingConnection else AwaitingTask)\<rparr>"

datatype ws_actor = Client | Server

inductive ws_task_step :: "ws_actor \<Rightarrow> ws_task \<Rightarrow> ws_task \<Rightarrow> bool" where
  token: "wt_phase s = AskToken \<Longrightarrow> ws_task_step Client s (s\<lparr>wt_phase := Connecting\<rparr>)"
| no_token: "wt_phase s = AskToken \<Longrightarrow> ws_task_step Client s (turn_over s)"
| connected: "wt_phase s = Connecting \<Longrightarrow> ws_task_step Client s (s\<lparr>wt_phase := Consuming\<rparr>)"
| no_connection: "wt_phase s = Connecting \<Longrightarrow> ws_task_step Client s (turn_over s)"
| message: "wt_phase s = Consuming \<Longrightarrow> ws_task_step Server s s"
| server_close: "wt_phase s = Consuming \<Longrightarrow> ws_task_step Server s (turn_over s)"
| closed: "wt_phase s = Consuming \<Longrightarrow> wt_stopper s = ClosingConnection \<Longrightarrow> ws_task_step Client s (turn_over (s\<lparr>wt_stopper := AwaitingTask\<rparr>))"
| close_done: "wt_phase s \<noteq> Consuming \<Longrightarrow> wt_stopper s = ClosingConnection \<Longrightarrow> ws_task_step Client s (s\<lparr>wt_stopper := AwaitingTask\<rparr>)"
| pause_over: "wt_phase s = Pausing \<Longrightarrow> \<not> wt_stop s \<Longrightarrow> ws_task_step Client s (s\<lparr>wt_phase := AskToken\<rparr>)"
| pause_stopped: "wt_phase s = Pausing \<Longrightarrow> wt_stop s \<Longrightarrow> ws_task_step Client s (s\<lparr>wt_phase := TaskEnded\<rparr>)"
| task_awaited: "wt_phase s = TaskEnded \<Longrightarrow> wt_stopper s = AwaitingTask \<Longrightarrow> ws_task_step Client s (s\<lparr>wt_stopper := StopReturned\<rparr>)"

inductive_simps ws_task_stepE: "ws_task_step a s s'"

text \<open>The states of a started client, with a call of \<open>stop\<close> at any moment.\<close>

inductive ws_task_reach :: "ws_task \<Rightarrow> bool" where
  start: "ws_task_reach ws_started"
| task_step: "ws_task_reach s \<Longrightarrow> ws_task_step a s s' \<Longrightarrow> ws_task_reach s'"
| stop_call: "ws_task_reach s \<Longrightarrow> wt_stopper s = Nobody \<Longrightarrow> ws_task_reach (call_stop s)"

definition task_inv :: "ws_task \<Rightarrow> bool" where
  "task_inv s \<longleftrightarrow> (wt_stop s \<longleftrightarrow> wt_stopper s \<noteq> Nobody) \<and> (wt_phase s = TaskEnded \<longrightarrow> wt_stop s)
     \<and> (wt_stopper s = StopReturned \<longrightarrow> wt_phase s = TaskEnded)
     \<and> (wt_stopper s = ClosingConnection \<longrightarrow> wt_phase s \<in> {Consuming, TaskEnded})"

lemma task_inv_reach: "ws_task_reach s \<Longrightarrow> task_inv s"
proof (induction rule: ws_task_reach.induct)
  case (task_step s a s')
  from task_step(2,3) show ?case
    by (cases rule: ws_task_step.cases) (auto simp: task_inv_def turn_over_def)
qed (auto simp: task_inv_def ws_started_def call_stop_def)

text \<open>How many of the client's own steps are left once \<open>stop\<close> was called, unless the task waits for a server that keeps the connection.\<close>

fun phase_rank :: "ws_phase \<Rightarrow> nat" where
  "phase_rank AskToken = 3"
| "phase_rank Connecting = 2"
| "phase_rank Consuming = 1"
| "phase_rank Pausing = 1"
| "phase_rank TaskEnded = 0"

fun stopper_rank :: "ws_stopper \<Rightarrow> nat" where
  "stopper_rank StopReturned = 0"
| "stopper_rank AwaitingTask = 1"
| "stopper_rank _ = 2"

definition stop_rank :: "ws_task \<Rightarrow> nat" where
  "stop_rank s = phase_rank (wt_phase s) + stopper_rank (wt_stopper s)"

text \<open>The task is in a connection that \<open>stop\<close> did not see.\<close>

definition stuck :: "ws_task \<Rightarrow> bool" where
  "stuck s \<longleftrightarrow> wt_phase s = Consuming \<and> wt_stopper s = AwaitingTask"

lemma client_step_down: "ws_task_step Client s s' \<Longrightarrow> wt_stop s \<Longrightarrow> stop_rank s' < stop_rank s \<and> wt_stop s'"
  by (auto simp: ws_task_stepE stop_rank_def turn_over_def)

lemma client_can_step: "task_inv s \<Longrightarrow> wt_stop s \<Longrightarrow> wt_stopper s \<noteq> StopReturned \<Longrightarrow> \<not> stuck s \<Longrightarrow> \<exists>s'. ws_task_step Client s s'"
  by (cases "wt_phase s"; cases "wt_stopper s") (auto simp: ws_task_stepE task_inv_def stuck_def)

lemma stuck_server_only: "stuck s \<Longrightarrow> \<not> ws_task_step Client s s' \<and> (ws_task_step Server s s' \<longleftrightarrow> s' = s \<or> s' = turn_over s)"
  by (auto simp: ws_task_stepE stuck_def)

text \<open>A connection seen by \<open>stop\<close>, or none and a pause, cannot get stuck any more.\<close>

definition will_end :: "ws_task \<Rightarrow> bool" where
  "will_end s \<longleftrightarrow> wt_stop s \<and> wt_phase s \<notin> {AskToken, Connecting} \<and> \<not> stuck s"

lemma will_end_step: "will_end s \<Longrightarrow> ws_task_step a s s' \<Longrightarrow> will_end s'"
  by (auto simp: ws_task_stepE will_end_def stuck_def turn_over_def)

lemma will_end_call: "wt_phase s \<in> {Consuming, Pausing} \<Longrightarrow> will_end (call_stop s)"
  by (auto simp: will_end_def call_stop_def stuck_def)

text \<open>Any steps of the client and the server, in any order.\<close>

definition any_steps :: "ws_task \<Rightarrow> ws_task \<Rightarrow> bool" where
  "any_steps = (\<lambda>s s'. \<exists>a. ws_task_step a s s')\<^sup>*\<^sup>*"

lemma any_steps_will_end:
  assumes "any_steps s t" "ws_task_reach s" "will_end s"
  shows "ws_task_reach t \<and> will_end t"
  using assms(1) unfolding any_steps_def
proof (induction rule: rtranclp_induct)
  case (step x y)
  then obtain a where "ws_task_step a x y" by blast
  with step.IH show ?case using will_end_step ws_task_reach.task_step by blast
qed (use assms(2,3) in simp)

lemma will_end_returns:
  "ws_task_reach t \<Longrightarrow> will_end t \<Longrightarrow> \<exists>u. (ws_task_step Client)\<^sup>*\<^sup>* t u \<and> wt_stopper u = StopReturned"
proof (induction "stop_rank t" arbitrary: t rule: less_induct)
  case less
  show ?case
  proof (cases "wt_stopper t = StopReturned")
    case False
    with less.prems obtain t' where st: "ws_task_step Client t t'"
      using client_can_step [OF task_inv_reach] by (auto simp: will_end_def)
    have "wt_stop t" using less.prems(2) by (simp add: will_end_def)
    then have down: "stop_rank t' < stop_rank t" using client_step_down [OF st] by blast
    obtain u where "(ws_task_step Client)\<^sup>*\<^sup>* t' u" "wt_stopper u = StopReturned"
      using less.hyps [OF down ws_task_reach.task_step [OF less.prems(1) st] will_end_step [OF less.prems(2) st]] by blast
    with st show ?thesis by (blast intro: converse_rtranclp_into_rtranclp)
  qed blast
qed

text \<open>Called before there is a connection, \<open>stop\<close> can miss it.\<close>

lemma early_stop_sticks:
  assumes p: "wt_phase s \<in> {AskToken, Connecting}"
  shows "\<exists>t. (ws_task_step Client)\<^sup>*\<^sup>* (call_stop s) t \<and> stuck t"
proof -
  let ?c = "(call_stop s)\<lparr>wt_phase := Connecting\<rparr>"
  let ?t = "(call_stop s)\<lparr>wt_phase := Consuming\<rparr>"
  have "(ws_task_step Client)\<^sup>*\<^sup>* (call_stop s) ?c"
  proof (cases "wt_phase s = AskToken")
    case True
    then have "ws_task_step Client (call_stop s) ?c" by (intro token) (simp add: call_stop_def)
    then show ?thesis by blast
  next
    case False
    then have "?c = call_stop s" using p by (simp add: call_stop_def)
    then show ?thesis by simp
  qed
  moreover have "ws_task_step Client ?c ?t" using connected [of ?c] by simp
  ultimately have "(ws_task_step Client)\<^sup>*\<^sup>* (call_stop s) ?t" by (rule rtranclp.rtrancl_into_rtrancl)
  moreover have "stuck ?t" using p by (auto simp: stuck_def call_stop_def)
  ultimately show ?thesis by blast
qed

section \<open>Properties of the shutdown\<close>



section \<open>The start of the price poller\<close>

text \<open>
  \<open>RestPricePoller.start\<close>: the token, then the instruments; the engine goes on without a poller when it raises.  \<open>token\<close> is what the
  request for it ends in.
\<close>

definition rest_start :: "string list \<Rightarrow> string res \<Rightarrow> resolve_reply \<Rightarrow> (string \<times> instrument_ids) res" where
  "rest_start symbs token reply = bind_res token (\<lambda>t. bind_res (resolve_instruments symbs [] reply) (\<lambda>ids. Inr (t, ids)))"

definition rest_connected :: "string \<times> instrument_ids \<Rightarrow> bool" where
  "rest_connected p \<longleftrightarrow> snd p \<noteq> [] \<and> fst p \<noteq> []"

definition start_poller :: "string list \<Rightarrow> string res \<Rightarrow> resolve_reply \<Rightarrow> (string \<times> instrument_ids) option" where
  "start_poller symbs token reply = (case rest_start symbs token reply of Inl x \<Rightarrow> None | Inr p \<Rightarrow> Some p)"

text \<open>
  An answer of the service that is not \<open>ok\<close> does not keep the poller from starting: it runs with no instrument, resolves none later, and no turn
  ever produces a candle.
\<close>

lemma failed_resolve_polls_nothing:
  "start_poller symbs (Inr t) ResolveFailed = Some (t, []) \<and> \<not> rest_connected (t, []) \<and> poll_turn emit p e clock [] = (p, e)"
  by (simp add: start_poller_def rest_start_def resolve_instruments_def rest_connected_def poll_turn_def)

section \<open>The end of the engine\<close>

text \<open>
  \<open>stop\<close> tears the subsystems down one after the other, those that are there.  What a teardown ends in is an argument: it returns, raises, or
  waits for ever.  The API server is only told to leave, which always returns.
\<close>

datatype subsystem = WsClient | PricePoller | ApiServer | BrokerClient | JournalDb

datatype teardown = TornDown | TeardownRaises py_exc | TeardownHangs

fun tear_down :: "(subsystem \<Rightarrow> teardown) \<Rightarrow> subsystem list \<Rightarrow> subsystem list \<times> teardown" where
  "tear_down f [] = ([], TornDown)"
| "tear_down f (x # xs) = (case f x of
       TornDown \<Rightarrow> (case tear_down f xs of (done_list, r) \<Rightarrow> (x # done_list, r))
     | r \<Rightarrow> ([], r))"

definition engine_subsystems :: "'l engine \<Rightarrow> bool \<Rightarrow> bool \<Rightarrow> subsystem list" where
  "engine_subsystems e has_poller has_api =
     (if en_ws e then [WsClient] else []) @ (if has_poller then [PricePoller] else []) @ (if has_api then [ApiServer] else [])
       @ [BrokerClient, JournalDb]"

definition engine_stop :: "(subsystem \<Rightarrow> teardown) \<Rightarrow> 'l engine \<Rightarrow> bool \<Rightarrow> bool \<Rightarrow> subsystem list \<times> teardown" where
  "engine_stop f e has_poller has_api = tear_down f (engine_subsystems e has_poller has_api)"

text \<open>\<open>run\<close>, once the shutdown event is set: the task of the API server is cancelled only after \<open>stop\<close> has returned.\<close>

definition run_shutdown :: "(subsystem \<Rightarrow> teardown) \<Rightarrow> 'l engine \<Rightarrow> bool \<Rightarrow> bool \<Rightarrow> subsystem list \<times> bool \<times> teardown" where
  "run_shutdown f e has_poller has_api =
     (case engine_stop f e has_poller has_api of (torn, r) \<Rightarrow> (torn, r = TornDown \<and> has_api, r))"

text \<open>The subsystems before the first that does not return are torn down, and no other is.\<close>

lemma tear_down_prefix: "fst (tear_down f xs) = takeWhile (\<lambda>x. f x = TornDown) xs"
  by (induction xs) (auto split: prod.split teardown.split)

lemma tear_down_result: "snd (tear_down f xs) = (case dropWhile (\<lambda>x. f x = TornDown) xs of [] \<Rightarrow> TornDown | x # _ \<Rightarrow> f x)"
  by (induction xs) (auto split: prod.split teardown.split)

text \<open>Outside paper mode a web socket that does not stop leaves everything open, the connection to the broker and the journal included.\<close>

lemma stuck_socket_leaves_all:
  assumes "en_ws e" and "f WsClient \<noteq> TornDown"
  shows "run_shutdown f e has_poller has_api = ([], False, f WsClient)"
proof -
  obtain xs where "engine_subsystems e has_poller has_api = WsClient # xs" using assms(1) by (simp add: engine_subsystems_def)
  then show ?thesis using assms(2) by (cases "f WsClient") (simp_all add: run_shutdown_def engine_stop_def)
qed

lemma clean_shutdown:
  assumes "\<And>x. f x = TornDown"
  shows "run_shutdown f e has_poller has_api = (engine_subsystems e has_poller has_api, has_api, TornDown)"
proof -
  have "takeWhile (\<lambda>x. f x = TornDown) xs = xs" "dropWhile (\<lambda>x. f x = TornDown) xs = []" for xs using assms by auto
  then have "tear_down f xs = (xs, TornDown)" for xs
    using tear_down_prefix [of f xs] tear_down_result [of f xs] by (metis list.case(1) prod.collapse)
  then show ?thesis by (simp add: run_shutdown_def engine_stop_def)
qed

section \<open>The entry point\<close>

text \<open>
  \<open>_main\<close> of \<open>src/scripts/run_live.py\<close>: what it does, in order, and how it ends.  \<open>start\<close> is the outcome of the engine's start, \<open>chat_bot\<close> that of the chat
  bot's, or \<open>None\<close> when it is not configured, and the other two are the ends of their teardowns.  The exit of a fatal error runs the \<open>finally\<close> block
  first, and an exception of the engine's \<open>stop\<close> replaces it.
\<close>

datatype live_action = EngineStart | BotStart | ServeApi | AwaitShutdown | BotStop | EngineStop

datatype live_end = Ended | ExitCode int | Escapes py_exc | NeverEnds

definition live_up :: "unit res \<Rightarrow> unit res option \<Rightarrow> bool \<Rightarrow> live_action list \<times> bool \<times> bool" where
  "live_up start chat_bot has_api =
     (let serve = (if has_api then [ServeApi] else []) @ [AwaitShutdown] in
      case (start, chat_bot) of
        (Inl x, _) \<Rightarrow> ([EngineStart], False, False)
      | (Inr u, None) \<Rightarrow> ([EngineStart] @ serve, True, False)
      | (Inr u, Some (Inl x)) \<Rightarrow> ([EngineStart, BotStart], False, False)
      | (Inr u, Some (Inr v)) \<Rightarrow> ([EngineStart, BotStart] @ serve, True, True))"

definition live_main :: "unit res \<Rightarrow> unit res option \<Rightarrow> bool \<Rightarrow> teardown \<Rightarrow> teardown \<Rightarrow> live_action list \<times> live_end" where
  "live_main start chat_bot has_api bot_stop stop =
     (case live_up start chat_bot has_api of (acts, well, telegram_bot) \<Rightarrow>
        let acts = (if telegram_bot then acts @ [BotStop] else acts)
        in if telegram_bot \<and> bot_stop = TeardownHangs then (acts, NeverEnds)
           else (acts @ [EngineStop], case stop of
               TornDown \<Rightarrow> if well then Ended else ExitCode 1
             | TeardownRaises x \<Rightarrow> Escapes x
             | TeardownHangs \<Rightarrow> NeverEnds))"

text \<open>However the start ends, the engine is stopped, unless the bot's own stop hangs; a bot is stopped only when it has started.\<close>

lemma live_stops_engine:
  "(last (fst (live_main start chat_bot has_api bot_stop stop)) = EngineStop \<longleftrightarrow>
      \<not> (is_ok start \<and> chat_bot = Some (Inr ()) \<and> bot_stop = TeardownHangs)) \<and>
    (BotStop \<in> set (fst (live_main start chat_bot has_api bot_stop stop)) \<longleftrightarrow> is_ok start \<and> chat_bot = Some (Inr ()))"
  by (auto simp: live_main_def live_up_def Let_def split: sum.split option.split prod.split)

text \<open>The bot polls for commands before the dashboard it sends them to is served.\<close>

lemma bot_before_api:
  "live_main (Inr ()) (Some (Inr ())) True TornDown TornDown = ([EngineStart, BotStart, ServeApi, AwaitShutdown, BotStop, EngineStop], Ended)"
  by (simp add: live_main_def live_up_def)

end
