(* ===== verification/Dashboard.thy ===== *)
theory Dashboard
  imports Engine Websocket
begin

text \<open>
  What the dashboard answers (\<open>src/app/api/routes\<close>): \<open>status.py\<close> with the state and the performance, \<open>health.py\<close>, and the
  latest signal of \<open>signals.py\<close>, the account of \<open>settings.py\<close>, the prices of \<open>market.py\<close>, the journal's and the open trades of \<open>trades.py\<close>, and \<open>stats.py\<close>.  A handler that takes a snapshot of a risk manager also rolls its day over, so it returns
  the changed engine; the web socket is an argument (\<open>None\<close> when the engine has none).  Strings for
  humans, the settings of the account at the broker and the encoding in JSON are left out.

  The lemmas show that the performance agrees with the statistics in every state of the engine, and that a bot in paper mode is
  never ready.
\<close>

section \<open>Status\<close>

record status_view =
  sv_mode :: string
  sv_ws_connected :: bool
  sv_ws_reconnects :: int
  sv_balance :: pyfloat
  sv_daily_drawdown_pct :: pyfloat
  sv_trades_today :: int
  sv_open_positions :: nat
  sv_risk_disabled :: bool
  sv_symbols :: "string list"
  sv_max_trades_per_day :: int
  sv_max_daily_loss_pct :: pyfloat

definition get_status :: "'l engine \<Rightarrow> ws_client option \<Rightarrow> int \<Rightarrow> status_view \<times> 'l engine" where
  "get_status e ws now =
     (let s = en_settings e; snap = fst (snapshot (ex_risk (en_exec e)) now)
      in (\<lparr>sv_mode = mode_value (app_mode s),
           sv_ws_connected = (case ws of None \<Rightarrow> False | Some w \<Rightarrow> ws_connected w),
           sv_ws_reconnects = (case ws of None \<Rightarrow> 0 | Some w \<Rightarrow> ws_reconnects w),
           sv_balance = sn_balance snap, sv_daily_drawdown_pct = sn_drawdown_pct snap, sv_trades_today = sn_trades_today snap,
           sv_open_positions = card (dom (ex_open_trades (en_exec e))), sv_risk_disabled = sn_disabled snap,
           sv_symbols = symbols s, sv_max_trades_per_day = max_trades_per_day s, sv_max_daily_loss_pct = max_daily_loss_pct s\<rparr>,
          look_status e now))"

text \<open>The readiness probe; \<open>ws_stale\<close> holds when a message came within the last minute.\<close>

record checks =
  ck_websocket_connected :: bool
  ck_ws_stale :: "bool option"
  ck_risk_enabled :: bool

definition readiness :: "'l engine \<Rightarrow> ws_client option \<Rightarrow> pyfloat \<Rightarrow> int \<Rightarrow> checks \<times> 'l engine" where
  "readiness e ws clock now =
     (let rm = (case en_dash_risk e of None \<Rightarrow> ex_risk (en_exec e) | Some rm \<Rightarrow> rm)
      in (\<lparr>ck_websocket_connected = (case ws of None \<Rightarrow> False | Some w \<Rightarrow> ws_connected w),
           ck_ws_stale = map_option (\<lambda>w. case last_message_age w clock of None \<Rightarrow> False | Some a \<Rightarrow> a < 60) ws,
           ck_risk_enabled = (\<not> sn_disabled (fst (snapshot rm now)))\<rparr>,
          look_risk e now))"

definition all_ok :: "checks \<Rightarrow> bool" where
  "all_ok c \<longleftrightarrow> ck_websocket_connected c \<and> ck_ws_stale c \<noteq> Some False \<and> ck_risk_enabled c"

definition ready_code :: "checks \<Rightarrow> int" where
  "ready_code c = (if all_ok c then 200 else 503)"

section \<open>Performance\<close>

record perf_view =
  pf_total_trades :: nat
  pf_wins :: nat
  pf_losses :: nat
  pf_winrate :: pyfloat
  pf_profit_factor :: pyfloat
  pf_total_pnl :: pyfloat
  pf_gross_profit :: pyfloat
  pf_gross_loss :: pyfloat
  pf_max_drawdown_pct :: pyfloat
  pf_avg_rr :: pyfloat
  pf_equity_curve_length :: nat

definition rr_values :: "trade list \<Rightarrow> pyfloat list" where
  "rr_values ts = filter (\<lambda>r. r > 0) (List.map_filter t_rr_ratio ts)"

definition get_performance :: "aggregator \<Rightarrow> perf_view" where
  "get_performance a =
     (let ts = ag_trades a; total = length ts;
          wins = length (filter (\<lambda>t. pnl_or_0 t > 0) ts); losses = length (filter (\<lambda>t. pnl_or_0 t < 0) ts);
          gross_profit = fsum (map pnl_or_0 (filter (\<lambda>t. pnl_or_0 t > 0) ts));
          gross_loss = \<bar>fsum (map pnl_or_0 (filter (\<lambda>t. pnl_or_0 t < 0) ts))\<bar>;
          rrs = rr_values ts
      in \<lparr>pf_total_trades = total, pf_wins = wins, pf_losses = losses,
          pf_winrate = (if total \<noteq> 0 then fquot (of_nat wins) (of_nat total) else 0),
          pf_profit_factor = (if gross_loss > 0 then fquot gross_profit gross_loss else 0),
          pf_total_pnl = ag_total_pnl a, pf_gross_profit = gross_profit, pf_gross_loss = gross_loss,
          pf_max_drawdown_pct = ag_max_drawdown a,
          pf_avg_rr = (if rrs \<noteq> [] then fquot (fsum rrs) (of_nat (length rrs)) else 0),
          pf_equity_curve_length = length (ag_equity a)\<rparr>)"

section \<open>The latest signal\<close>

record signal_view =
  gv_symbol :: string
  gv_direction :: string
  gv_entry_price :: pyfloat
  gv_stop_loss :: pyfloat
  gv_take_profit :: pyfloat
  gv_confidence :: pyfloat
  gv_reason :: string
  gv_session :: string
  gv_timeframe :: string
  gv_rr_ratio :: pyfloat
  gv_generated_at :: py_datetime
  gv_structure_tags :: "string list"

definition latest_signal :: "'l engine \<Rightarrow> signal_view option" where
  "latest_signal e = map_option (\<lambda>sg. \<lparr>gv_symbol = sg_symbol sg, gv_direction = dir_value (sg_direction sg),
     gv_entry_price = sg_entry sg, gv_stop_loss = sg_sl sg, gv_take_profit = sg_tp sg, gv_confidence = sg_confidence sg,
     gv_reason = sg_reason sg, gv_session = sg_session sg, gv_timeframe = sg_timeframe sg,
     gv_rr_ratio = fround 2 (rr_ratio sg), gv_generated_at = sg_generated_at sg, gv_structure_tags = sg_tags sg\<rparr>) (en_last_signal e)"

section \<open>Settings and prices\<close>

record account_view =
  av_environment :: string
  av_mode :: string
  av_broker :: string
  av_symbols :: "string list"

definition get_account_settings :: "'l engine \<Rightarrow> account_view" where
  "get_account_settings e =
     (let s = en_settings e; mode = mode_value (app_mode s)
      in \<lparr>av_environment = mode, av_mode = mode,
          av_broker = (if mode \<in> {''semi_auto'', ''full_auto''} then ''tradelocker'' else ''paper''),
          av_symbols = symbols s\<rparr>)"

text \<open>The price of a symbol: \<open>poller\<close> is the attribute \<open>_poller\<close> of the engine, with the latest prices by symbol.\<close>

record price_view =
  pr_symbol :: string
  pr_price :: "pyfloat option"
  pr_source :: string

definition market_price :: "(string \<rightharpoonup> quote) option \<Rightarrow> string \<Rightarrow> price_view" where
  "market_price poller symb =
     (let unavailable = \<lparr>pr_symbol = py_upper symb, pr_price = None, pr_source = ''unavailable''\<rparr>
      in case poller of
           None \<Rightarrow> unavailable
         | Some quotes \<Rightarrow>
             (let sym_key = py_upper symb in
              case quotes sym_key of
                None \<Rightarrow> unavailable
              | Some q \<Rightarrow> \<lparr>pr_symbol = sym_key, pr_price = Some (q_mid q), pr_source = ''poller''\<rparr>))"

definition market_prices :: "(string \<rightharpoonup> quote) option \<Rightarrow> (string \<rightharpoonup> quote)" where
  "market_prices poller = (case poller of None \<Rightarrow> Map.empty | Some quotes \<Rightarrow> quotes)"

section \<open>Trades\<close>

text \<open>
  The query of the journal: \<open>order_desc\<close> is the database's descending order by the time of entry, whose choice between
  equal times is its own.  A negative limit is no limit for SQLite.
\<close>

definition list_recent :: "(journal \<Rightarrow> journal) \<Rightarrow> journal \<Rightarrow> int \<Rightarrow> journal" where
  "list_recent order_desc j limit = (if limit < 0 then order_desc j else take (nat limit) (order_desc j))"

text \<open>The answer of \<open>GET /trades\<close>: the rows without their tags, with their number; a limit above 500 is refused.\<close>

record trade_view =
  tv_trade_id :: string
  tv_symbol :: string
  tv_direction :: string
  tv_entry_time :: py_datetime
  tv_entry_price :: pyfloat
  tv_stop_loss :: pyfloat
  tv_take_profit :: pyfloat
  tv_quantity :: pyfloat
  tv_exit_time :: "py_datetime option"
  tv_exit_price :: "pyfloat option"
  tv_pnl :: "pyfloat option"
  tv_pnl_pct :: "pyfloat option"
  tv_status :: string
  tv_session :: string
  tv_entry_reason :: string
  tv_exit_reason :: "string option"
  tv_spread_pips :: "pyfloat option"
  tv_slippage_pips :: "pyfloat option"
  tv_latency_ms :: "pyfloat option"
  tv_rr_ratio :: "pyfloat option"

definition view_of_row :: "trade_row \<Rightarrow> trade_view" where
  "view_of_row r = \<lparr>tv_trade_id = tr_trade_id r, tv_symbol = tr_symbol r, tv_direction = tr_direction r,
     tv_entry_time = tr_entry_time r, tv_entry_price = tr_entry_price r, tv_stop_loss = tr_stop_loss r,
     tv_take_profit = tr_take_profit r, tv_quantity = tr_quantity r, tv_exit_time = tr_exit_time r,
     tv_exit_price = tr_exit_price r, tv_pnl = tr_pnl r, tv_pnl_pct = tr_pnl_pct r, tv_status = tr_status r,
     tv_session = tr_session r, tv_entry_reason = tr_entry_reason r, tv_exit_reason = tr_exit_reason r,
     tv_spread_pips = tr_spread_pips r, tv_slippage_pips = tr_slippage_pips r, tv_latency_ms = tr_latency_ms r,
     tv_rr_ratio = tr_rr_ratio r\<rparr>"

definition list_trades :: "(journal \<Rightarrow> journal) \<Rightarrow> journal \<Rightarrow> int \<Rightarrow> (trade_view list \<times> nat) option" where
  "list_trades order_desc j limit =
     (if limit > 500 then None
      else let trades = map view_of_row (list_recent order_desc j limit) in Some (trades, length trades))"

text \<open>The answer of \<open>GET /trades/open\<close>: the open trades of the executor the application was created with, in the order \<open>ids\<close> of its dictionary.\<close>

definition open_positions :: "string list \<Rightarrow> 'b executor option \<Rightarrow> trade list \<times> nat option" where
  "open_positions ids ex = (case ex of
       None \<Rightarrow> ([], None)
     | Some x \<Rightarrow> let positions = List.map_filter (ex_open_trades x) ids in (positions, Some (length positions)))"

section \<open>Statistics\<close>

text \<open>\<open>stats.py\<close>, with the status of the answer; an exception is answered with 500.\<close>

definition get_stats :: "aggregator option \<Rightarrow> int \<times> stats_summary option" where
  "get_stats agg = (case agg of
       None \<Rightarrow> (503, None)
     | Some a \<Rightarrow> (case ag_summary a of Inl x \<Rightarrow> (500, None) | Inr su \<Rightarrow> (200, Some su)))"

definition equity_curve :: "aggregator option \<Rightarrow> pyfloat list \<times> nat option" where
  "equity_curve agg = (case agg of None \<Rightarrow> ([], None) | Some a \<Rightarrow> (ag_equity a, Some (length (ag_equity a))))"

section \<open>Lemmas\<close>

text \<open>The statistics are gone once a trade was recorded; the curve keeps one point more than there are trades.\<close>

lemma stats_unavailable:
  "fst (get_stats (Some (record_all (new_aggregator start) ts))) = (if not_open ts = [] then 200 else 500)
   \<and> snd (equity_curve (Some (record_all (new_aggregator start) ts))) = Some (length (not_open ts) + 1)"
proof -
  have "fst (get_stats (Some (ag_of start us))) = (if us = [] then 200 else 500)" for us
    using summary_of [of start us] by (cases "ag_summary (ag_of start us)") (simp_all add: get_stats_def split: if_splits)
  moreover have "snd (equity_curve (Some (ag_of start us))) = Some (length us + 1)" for us
    by (simp add: equity_curve_def ag_of_def running_def)
  ultimately show ?thesis unfolding new_aggregator_of record_all_of by simp
qed

text \<open>The engine has no attribute \<open>_poller\<close>: every price is reported as unavailable.\<close>

lemma prices_unavailable: "pr_price (market_price None symb) = None \<and> market_prices None = Map.empty"
  by (simp add: market_price_def market_prices_def Let_def)

text \<open>The limit has no lower bound, and a negative one lists the whole journal.\<close>

lemma trades_no_limit: "limit < 0 \<Longrightarrow> list_trades order_desc j limit = Some (map view_of_row (order_desc j), length (order_desc j))"
  by (simp add: list_trades_def list_recent_def Let_def)

text \<open>With a positive limit, the rows shown are the first of the order, and none when the limit is zero.\<close>

lemma trades_within_limit:
  assumes "0 \<le> limit" and "list_trades order_desc j limit = Some (vs, n)"
  shows "n = length vs \<and> n \<le> nat limit \<and> limit \<le> 500
    \<and> map tv_trade_id vs = take (nat limit) (map tr_trade_id (order_desc j))"
  using assms by (auto simp: list_trades_def list_recent_def view_of_row_def Let_def take_map split: if_splits)

text \<open>The drawdown the status calls daily is measured from the high-water mark of all days.\<close>

lemma status_drawdown_not_daily:
  "sv_daily_drawdown_pct (fst (get_status e ws now)) = (let rm = ex_risk (en_exec e) in
     if high_water_mark rm \<noteq> 0 then fquot (fsub (high_water_mark rm) (current_balance rm)) (high_water_mark rm) else 0)"
  by (simp add: get_status_def snapshot_def Let_def)

text \<open>Without a web socket, as in paper mode, the bot is never ready.\<close>

lemma no_socket_never_ready: "ready_code (fst (readiness e None clock now)) = 503"
  by (simp add: readiness_def ready_code_def all_ok_def Let_def)

lemma length_filters: "length (filter (\<lambda>t. pnl_or_0 t > 0) ts) + length (filter (\<lambda>t. pnl_or_0 t < 0) ts) \<le> length ts"
  by (induction ts) auto

lemma fquot_le_1: "0 \<le> x \<Longrightarrow> x \<le> y \<Longrightarrow> 0 < y \<Longrightarrow> fquot x y \<le> 1"
proof -
  assume "0 \<le> x" "x \<le> y" "0 < y"
  then have "x / y \<le> 1" by simp
  then have "rnd (x / y) \<le> rnd 1" by (rule rd.mono)
  then show ?thesis using is_float_of_int [of 1] by (simp add: fquot_def is_float_def)
qed

lemma performance_of:
  "let v = get_performance (ag_of start ts) in
     pf_total_trades v = length ts \<and> pf_wins v + pf_losses v \<le> length ts \<and> pf_winrate v = ag_winrate (ag_of start ts)
     \<and> 0 \<le> pf_winrate v \<and> pf_winrate v \<le> 1 \<and> 0 \<le> pf_gross_profit v \<and> 0 \<le> pf_profit_factor v \<and> 0 \<le> pf_avg_rr v
     \<and> pf_equity_curve_length v = length ts + 1 \<and> pf_total_pnl v = fsub (foldl fadd start (map pnl_or_0 ts)) start"
proof -
  let ?v = "get_performance (ag_of start ts)"
  let ?w = "length (filter (\<lambda>t. pnl_or_0 t > 0) ts)"
  have rate: "pf_winrate ?v = (if ts = [] then 0 else fquot (of_nat ?w) (of_nat (length ts)))"
    by (simp add: get_performance_def ag_of_def Let_def)
  have le: "(of_nat ?w :: pyfloat) \<le> of_nat (length ts)" by simp
  have w: "0 \<le> pf_winrate ?v \<and> pf_winrate ?v \<le> 1"
    unfolding rate using fquot_le_1 [OF of_nat_0_le_iff le] by (auto intro: fquot_nonneg)
  have gp: "0 \<le> pf_gross_profit ?v"
    by (simp add: get_performance_def ag_of_def Let_def) (rule fsum_nonneg, auto)
  have pf: "0 \<le> pf_profit_factor ?v"
    using gp by (auto simp: get_performance_def Let_def intro!: fquot_nonneg)
  have rr: "0 \<le> pf_avg_rr ?v"
    by (auto simp: get_performance_def Let_def rr_values_def intro!: fquot_nonneg fsum_nonneg)
  have "pf_winrate ?v = ag_winrate (ag_of start ts)" unfolding rate by (simp add: ag_winrate_def ag_of_def)
  moreover have "pf_wins ?v + pf_losses ?v \<le> length ts"
    using length_filters [of ts] by (simp add: get_performance_def ag_of_def Let_def)
  moreover have "pf_total_pnl ?v = fsub (foldl fadd start (map pnl_or_0 ts)) start"
    by (simp add: get_performance_def ag_of_def ag_total_pnl_def Let_def) (simp add: running_def)
  moreover have "pf_total_trades ?v = length ts" "pf_equity_curve_length ?v = length ts + 1"
    by (simp_all add: get_performance_def ag_of_def running_def Let_def)
  ultimately show ?thesis using w gp pf rr by (simp add: Let_def)
qed

section \<open>Properties\<close>



end
