(* ===== verification/Py_Format.thy ===== *)
theory Py_Format
  imports Py_Float Py_String
begin

text \<open>
  Numbers as text: \<open>str\<close> of a float (the shortest decimal that reads back, CPython's \<open>repr\<close>), the format specifications of the
  f-strings (\<open>.2f\<close>, \<open>+.2f\<close>, \<open>,.2f\<close>, \<open>.1%\<close>), and \<open>float\<close> of a string.  Texts are byte strings in UTF-8.

  The lemmas show: seventeen significant digits determine a float, so that \<open>float(str(x))\<close> is \<open>x\<close>, and that a fixed number
  of decimals reads back as the rounded number.
\<close>

section \<open>Reading numbers\<close>

text \<open>\<open>float(s)\<close>: a decimal with an optional exponent, an infinity or a NaN, or no number.\<close>

datatype num_arg = NotNumber | NotFinite | Num pyfloat

definition digits_or_none :: "string \<Rightarrow> nat option" where
  "digits_or_none s = (if s = [] then Some 0 else parse_digits 0 False s)"

definition unsigned_decimal :: "string \<Rightarrow> rat option" where
  "unsigned_decimal s =
     (let ip = takeWhile (\<lambda>c. c \<noteq> CHR ''.'') s; fp = drop 1 (dropWhile (\<lambda>c. c \<noteq> CHR ''.'') s)
      in if ip = [] \<and> fp = [] then None
         else case (digits_or_none ip, digits_or_none fp) of
             (Some a, Some b) \<Rightarrow> Some (of_nat a + of_nat b / 10 ^ length (filter is_digit fp))
           | _ \<Rightarrow> None)"

definition signed :: "(string \<Rightarrow> 'a option) \<Rightarrow> string \<Rightarrow> (bool \<times> 'a) option" where
  "signed f s = (case s of
       c # cs \<Rightarrow> if c = CHR ''-'' then map_option (Pair True) (f cs)
                 else if c = CHR ''+'' then map_option (Pair False) (f cs) else map_option (Pair False) (f s)
     | [] \<Rightarrow> None)"

definition decimal_exponent :: "string \<Rightarrow> int option" where
  "decimal_exponent s = map_option (\<lambda>(neg, n). if neg then - int n else int n) (signed (parse_digits 0 False) s)"

definition decimal :: "string \<Rightarrow> rat option" where
  "decimal s =
     (let m = takeWhile (\<lambda>c. lower_char c \<noteq> CHR ''e'') s; x = dropWhile (\<lambda>c. lower_char c \<noteq> CHR ''e'') s
      in case (unsigned_decimal m, if x = [] then Some 0 else decimal_exponent (drop 1 x)) of
           (Some v, Some k) \<Rightarrow> Some (v * 10 powi k)
         | _ \<Rightarrow> None)"

definition py_float_arg :: "string \<Rightarrow> num_arg" where
  "py_float_arg s =
     (let t = py_strip s in
      case signed (\<lambda>u. if map lower_char u \<in> {''inf'', ''infinity'', ''nan''} then Some () else None) t of
        Some p \<Rightarrow> NotFinite
      | None \<Rightarrow> (case signed decimal t of None \<Rightarrow> NotNumber | Some (neg, v) \<Rightarrow> Num (rnd (if neg then - v else v))))"

section \<open>Fixed decimals\<close>

definition pad_zeros :: "nat \<Rightarrow> string \<Rightarrow> string" where
  "pad_zeros n s = replicate (n - length s) (CHR ''0'') @ s"

text \<open>The digits of an absolute value with \<open>n\<close> decimals, rounded half to even: the integer part, and the rest.\<close>

definition scaled :: "nat \<Rightarrow> pyfloat \<Rightarrow> nat" where
  "scaled n x = nat (rhe (\<bar>x\<bar> * 10 ^ n))"

definition int_part :: "nat \<Rightarrow> pyfloat \<Rightarrow> string" where
  "int_part n x = digits10 (scaled n x div 10 ^ n)"

definition decimals :: "nat \<Rightarrow> pyfloat \<Rightarrow> string" where
  "decimals n x = (if n = 0 then [] else CHR ''.'' # pad_zeros n (digits10 (scaled n x mod 10 ^ n)))"

text \<open>The sign is that of the number, also when all the digits shown are zero.\<close>

definition minus_sign :: "pyfloat \<Rightarrow> string" where
  "minus_sign x = (if x < 0 then ''-'' else [])"

definition fmt_fixed :: "nat \<Rightarrow> pyfloat \<Rightarrow> string" where
  "fmt_fixed n x = minus_sign x @ int_part n x @ decimals n x"

definition plus_sign :: "pyfloat \<Rightarrow> string" where
  "plus_sign x = (if x < 0 then ''-'' else ''+'')"

text \<open>Groups of three digits, from the right.\<close>

fun group_rev :: "string \<Rightarrow> string" where
  "group_rev (a # b # c # d # cs) = a # b # c # CHR '','' # group_rev (d # cs)"
| "group_rev cs = cs"

definition thousands :: "string \<Rightarrow> string" where
  "thousands s = rev (group_rev (rev s))"

definition fmt_commas :: "nat \<Rightarrow> pyfloat \<Rightarrow> string" where
  "fmt_commas n x = minus_sign x @ thousands (int_part n x) @ decimals n x"

definition fmt_plus :: "nat \<Rightarrow> pyfloat \<Rightarrow> string" where
  "fmt_plus n x = plus_sign x @ int_part n x @ decimals n x"

definition fmt_plus_commas :: "nat \<Rightarrow> pyfloat \<Rightarrow> string" where
  "fmt_plus_commas n x = plus_sign x @ thousands (int_part n x) @ decimals n x"

text \<open>The type \<open>%\<close> multiplies the float by one hundred.\<close>

definition fmt_percent :: "nat \<Rightarrow> pyfloat \<Rightarrow> string" where
  "fmt_percent n x = fmt_fixed n (fmul x 100) @ ''%''"

section \<open>The shortest decimal\<close>

text \<open>The decimal exponent: \<open>10 ^ dexp x \<le> \<bar>x\<bar> < 10 ^ (dexp x + 1)\<close>.\<close>

definition dexp :: "rat \<Rightarrow> int" where
  "dexp x = (if 1 \<le> \<bar>x\<bar> then int (length (digits10 (nat \<lfloor>\<bar>x\<bar>\<rfloor>))) - 1
             else - int (length (digits10 (nat (\<lceil>1 / \<bar>x\<bar>\<rceil> - 1)))))"

definition sig_unit :: "nat \<Rightarrow> rat \<Rightarrow> rat" where
  "sig_unit n x = 10 powi (dexp x - int n + 1)"

text \<open>The nearest decimal of \<open>n\<close> significant digits that rounds to the (positive) float, if there is one.\<close>

definition nearest_sig :: "nat \<Rightarrow> pyfloat \<Rightarrow> nat option" where
  "nearest_sig n x =
     (let u = sig_unit n x; z = x / u; lo = \<lfloor>z\<rfloor>
      in case filter (\<lambda>c. rnd (of_int c * u) = x) [lo, lo + 1] of
           [] \<Rightarrow> None
         | [c] \<Rightarrow> Some (nat c)
         | _ \<Rightarrow> Some (nat (rhe z)))"

definition shortest :: "pyfloat \<Rightarrow> nat \<times> nat" where
  "shortest x = (case List.find (\<lambda>n. nearest_sig n x \<noteq> None) [1..<17] of
       None \<Rightarrow> (17, nat (rhe (x / sig_unit 17 x)))
     | Some n \<Rightarrow> (n, the (nearest_sig n x)))"

definition strip_zeros :: "string \<Rightarrow> string" where
  "strip_zeros s = rev (dropWhile (\<lambda>c. c = CHR ''0'') (rev s))"

text \<open>The layout: the digits with the decimal point after the first \<open>pt\<close> of them, or with an exponent.\<close>

definition exponent :: "int \<Rightarrow> string" where
  "exponent k = CHR ''e'' # (if k < 0 then ''-'' else ''+'') @ pad_zeros 2 (digits10 (nat \<bar>k\<bar>))"

definition layout :: "string \<Rightarrow> int \<Rightarrow> string" where
  "layout ds pt =
     (if -4 < pt \<and> pt \<le> 16 then
        (if pt \<le> 0 then ''0.'' @ replicate (nat (- pt)) (CHR ''0'') @ ds
         else if pt < int (length ds) then take (nat pt) ds @ ''.'' @ drop (nat pt) ds
         else ds @ replicate (nat pt - length ds) (CHR ''0'') @ ''.0'')
      else take 1 ds @ (if length ds = 1 then [] else ''.'' @ drop 1 ds) @ exponent (pt - 1))"

definition repr_pos :: "pyfloat \<Rightarrow> string" where
  "repr_pos x = (case shortest x of (n, c) \<Rightarrow>
     layout (strip_zeros (digits10 c)) (int (length (digits10 c)) + (dexp x - int n + 1)))"

definition py_repr :: "pyfloat \<Rightarrow> string" where
  "py_repr x = (if x = 0 then ''0.0'' else if x < 0 then CHR ''-'' # repr_pos (- x) else repr_pos x)"

section \<open>Seventeen digits determine a float\<close>

lemma rhe_close: "\<bar>z - of_int k\<bar> < 1 / 2 \<Longrightarrow> rhe z = k"
proof -
  assume a: "\<bar>z - of_int k\<bar> < 1 / 2"
  have "\<bar>of_int (rhe z) - of_int k :: rat\<bar> < 1" using rhe_near [of z] a by linarith
  then show ?thesis by linarith
qed

lemma rnd_close: "y \<noteq> 0 \<Longrightarrow> x = of_int k * 2 powi quantum y \<Longrightarrow> \<bar>y - x\<bar> < 2 powi quantum y / 2 \<Longrightarrow> rnd y = x"
proof -
  assume y: "y \<noteq> 0" and x: "x = of_int k * 2 powi quantum y" and d: "\<bar>y - x\<bar> < 2 powi quantum y / 2"
  let ?u = "(2 :: rat) powi quantum y"
  have "y / ?u - of_int k = (y - x) / ?u" by (simp add: x diff_divide_distrib)
  then have "\<bar>y / ?u - of_int k\<bar> = \<bar>y - x\<bar> / ?u" by simp
  also have "\<dots> < 1 / 2" using d by (simp add: divide_less_eq)
  finally have "rhe (y / ?u) = k" by (rule rhe_close)
  with y x show ?thesis by (simp add: rnd_def)
qed

lemma float_multiple: "is_float x \<Longrightarrow> \<exists>k. x = of_int k * 2 powi quantum x"
  unfolding is_float_def by (cases "x = 0") (auto simp: rnd_def intro: exI [of _ 0] dest: sym)

lemma multiple_down: "x = of_int k * (2 :: rat) powi q \<Longrightarrow> p \<le> q \<Longrightarrow> \<exists>j. x = of_int j * 2 powi p"
  using powi2_int [of "q - p"] power_int_add [of "2 :: rat" "q - p" p] by (auto intro!: exI [of _ "k * 2 ^ nat (q - p)"])

lemma rnd_near_float:
  assumes "is_float x" and "0 < x" and "\<bar>y - x\<bar> \<le> x / 20000000000000000"
  shows "rnd y = x"
proof -
  obtain k where k: "x = of_int k * 2 powi quantum x" using float_multiple [OF assms(1)] by blast
  have xy: "x - x / 20000000000000000 \<le> y" using abs_ge_minus_self [of "y - x"] assms(3) by linarith
  then have y: "0 < y" using assms(2) by simp
  have bx: "x < 2 powi (bexp x + 1)" using bexp_bounds [of x] assms(2) by simp
  have ex: "2 powi (bexp x + 1) \<le> 9007199254740992 * (2 :: rat) powi quantum x"
    using powi2_le_iff [of "bexp x + 1" "quantum x + 53"] by (simp add: quantum_def power_int_add)
  have lek: "quantum y \<le> quantum x"
  proof (rule ccontr)
    assume "\<not> quantum y \<le> quantum x"
    then have "bexp x < bexp y" by (simp add: quantum_def)
    then have "(2 :: rat) powi (bexp x + 1) \<le> y" using bexp_bounds [of y] y powi2_le_iff [of "bexp x + 1" "bexp y"] by linarith
    moreover have "x + 2 powi quantum x \<le> 2 powi (bexp x + 1)"
    proof -
      have "0 < (of_int k :: rat) * 2 powi quantum x" using assms(2) unfolding k [symmetric] .
      then have "0 < (of_int k :: rat)" by (rule zero_less_mult_pos2) simp
      then have "1 \<le> k" by simp
      then have "1 * (2 :: rat) powi quantum x \<le> of_int k * 2 powi quantum x" by (intro mult_right_mono) simp_all
      then have "(2 :: rat) powi quantum x \<le> x" unfolding k [symmetric] by simp
      then have q: "quantum x < bexp x + 1" using bx powi2_less_iff [of "quantum x" "bexp x + 1"] by linarith
      then obtain j where j: "(2 :: rat) powi (bexp x + 1) = of_int j * 2 powi quantum x"
        using multiple_down [of "2 powi (bexp x + 1)" 1 "bexp x + 1" "quantum x"] by auto
      have "k < j" using bx k j by (metis mult_less_cancel_right_pos of_int_less_iff powi2_pos)
      then have "(of_int k + 1 :: rat) \<le> of_int j" by linarith
      then have "(of_int k + 1) * (2 :: rat) powi quantum x \<le> of_int j * 2 powi quantum x" by (rule mult_right_mono) simp
      then show ?thesis using k j by (simp add: distrib_right)
    qed
    ultimately have "2 powi quantum x \<le> y - x" by linarith
    also have "\<dots> \<le> x / 20000000000000000" using abs_ge_self [of "y - x"] assms(3) by linarith
    also have "\<dots> < 2 powi quantum x" using bx ex powi2_pos [of "quantum x"] by linarith
    finally show False by simp
  qed
  obtain j where j: "x = of_int j * 2 powi quantum y" using multiple_down [OF k lek] by blast
  have "y < 2 powi (bexp y + 1)" using bexp_bounds [of y] y by simp
  also have "\<dots> \<le> 9007199254740992 * (2 :: rat) powi quantum y"
    using powi2_le_iff [of "bexp y + 1" "quantum y + 53"] by (simp add: quantum_def power_int_add)
  finally have by': "y < 9007199254740992 * 2 powi quantum y" .
  have "\<bar>y - x\<bar> \<le> x / 20000000000000000" by (rule assms(3))
  also have "\<dots> < 2 powi quantum y / 2" using xy by' powi2_pos [of "quantum y"] by linarith
  finally show ?thesis using y j rnd_close [of y x j] by simp
qed

section \<open>Decimal exponents\<close>

lemma digits10_length: "0 < n \<Longrightarrow> 10 ^ (length (digits10 n) - 1) \<le> n \<and> n < 10 ^ length (digits10 n)"
proof (induction n rule: digits10.induct)
  case (1 n)
  show ?case
  proof (cases "n < 10")
    case True
    then show ?thesis using "1.prems" by (simp add: digits10.simps [of n])
  next
    case False
    let ?k = "length (digits10 (n div 10))"
    have k: "0 < ?k" by simp
    have IH: "10 ^ (?k - 1) \<le> n div 10" "n div 10 < 10 ^ ?k" using "1.IH" [OF False] False by auto
    have len: "length (digits10 n) = Suc ?k" using False by (simp add: digits10.simps [of n])
    have "10 * 10 ^ (?k - 1) \<le> 10 * (n div 10)" using IH(1) by simp
    then have "10 ^ ?k \<le> n" using k by (cases ?k) (auto intro: order_trans)
    moreover have "n < 10 * 10 ^ ?k" using IH(2) by (simp add: div_less_iff_less_mult mult.commute)
    ultimately show ?thesis unfolding len by simp
  qed
qed

lemma digits10_length_Suc: "0 < n \<Longrightarrow> \<exists>j. length (digits10 n) = Suc j \<and> 10 ^ j \<le> n \<and> n + 1 \<le> 10 ^ Suc j"
  using digits10_length [of n] by (cases "length (digits10 n)") auto

lemma dexp_bounds:
  assumes "0 < x"
  shows "10 powi dexp x \<le> x \<and> x < 10 powi (dexp x + 1)"
proof (cases "1 \<le> x")
  case True
  let ?n = "nat \<lfloor>x\<rfloor>"
  have n: "0 < ?n" using True by linarith
  then obtain j where j: "length (digits10 ?n) = Suc j" and "10 ^ j \<le> ?n" "?n + 1 \<le> 10 ^ Suc j"
    using digits10_length_Suc by blast
  then have a: "(of_nat (10 ^ j) :: rat) \<le> of_nat ?n" "(of_nat (?n + 1) :: rat) \<le> of_nat (10 ^ Suc j)" by (simp_all only: of_nat_le_iff)
  have e: "dexp x = int j" using True j by (simp add: dexp_def)
  have e1: "dexp x + 1 = int (Suc j)" using e by simp
  have "of_nat ?n \<le> x" using True by simp
  moreover have "x < of_nat (?n + 1)" using True floor_less_iff [of x "\<lfloor>x\<rfloor> + 1"] by simp
  ultimately have "of_nat (10 ^ j) \<le> x" "x < of_nat (10 ^ Suc j)" using a by linarith+
  then have "10 ^ j \<le> x" "x < 10 ^ Suc j" by simp_all
  then show ?thesis unfolding e1 unfolding e power_int_of_nat by blast
next
  case False
  let ?m = "nat (\<lceil>1 / x\<rceil> - 1)"
  have inv: "1 < 1 / x" using False assms by (simp add: field_simps)
  then have m: "0 < ?m" by linarith
  then obtain j where j: "length (digits10 ?m) = Suc j" and "10 ^ j \<le> ?m" "?m + 1 \<le> 10 ^ Suc j"
    using digits10_length_Suc by blast
  then have a: "(of_nat (10 ^ j) :: rat) \<le> of_nat ?m" "(of_nat (?m + 1) :: rat) \<le> of_nat (10 ^ Suc j)" by (simp_all only: of_nat_le_iff)
  have e: "dexp x = - int (Suc j)" using False assms j by (simp add: dexp_def)
  have e1: "dexp x + 1 = - int j" using e by simp
  have c: "of_int (\<lceil>1 / x\<rceil> - 1) < 1 / x" "1 / x \<le> of_int \<lceil>1 / x\<rceil>" by linarith+
  have "(of_nat ?m :: rat) = of_int (\<lceil>1 / x\<rceil> - 1)" by (rule of_nat_nat) (use inv in linarith)
  with c have "of_nat ?m < 1 / x" "1 / x \<le> of_nat (?m + 1)" by simp_all
  with a have "of_nat (10 ^ j) < 1 / x" "1 / x \<le> of_nat (10 ^ Suc j)" by linarith+
  then have b: "10 ^ j < 1 / x" "1 / x \<le> 10 ^ Suc j" by simp_all
  have "1 / 10 ^ Suc j \<le> x" using b(2) assms by (simp add: divide_le_eq mult.commute)
  moreover have "x < 1 / 10 ^ j" using b(1) assms by (simp add: less_divide_eq mult.commute)
  moreover have "(10 :: rat) powi (- int k) = 1 / 10 ^ k" for k by (simp add: power_int_minus inverse_eq_divide)
  ultimately show ?thesis unfolding e1 unfolding e by metis
qed

lemma powi10_pos [simp]: "0 < (10 :: rat) powi k"
  by simp

text \<open>The digits found read back as the number.\<close>

lemma nearest_sig_exact: "nearest_sig n x = Some c \<Longrightarrow> 0 \<le> x \<Longrightarrow> rnd (of_nat c * sig_unit n x) = x"
proof -
  assume c: "nearest_sig n x = Some c" and x: "0 \<le> x"
  let ?u = "sig_unit n x" let ?lo = "\<lfloor>x / ?u\<rfloor>"
  have lo: "0 \<le> ?lo" using x by (simp add: sig_unit_def)
  have r: "rhe (x / ?u) \<in> {?lo, ?lo + 1}" by (simp add: rhe_def Let_def)
  show ?thesis
    using c lo r by (auto simp: nearest_sig_def Let_def split: if_splits)
qed

lemma seventeen_digits:
  assumes "is_float x" and "0 < x"
  shows "rnd (of_nat (nat (rhe (x / sig_unit 17 x))) * sig_unit 17 x) = x"
proof -
  let ?u = "sig_unit 17 x" let ?c = "rhe (x / ?u)"
  have u: "0 < ?u" by (simp add: sig_unit_def)
  have "0 \<le> ?c" using rhe_ge [of 0 "x / ?u"] u assms(2) by simp
  then have nat: "(of_nat (nat ?c) :: rat) = of_int ?c" by simp
  have "of_int ?c * ?u - x = (of_int ?c - x / ?u) * ?u" using u by (simp add: left_diff_distrib)
  then have "\<bar>of_int ?c * ?u - x\<bar> = \<bar>of_int ?c - x / ?u\<bar> * ?u" using u by (simp add: abs_mult)
  also have "\<dots> \<le> 1 / 2 * ?u" using rhe_near [of "x / ?u"] u by (intro mult_right_mono) simp_all
  also have "\<dots> \<le> x / 20000000000000000"
  proof -
    have "?u * 10 ^ 16 = 10 powi dexp x" by (simp add: sig_unit_def power_int_diff power_int_add)
    then have "?u * 10 ^ 16 \<le> x" using dexp_bounds [OF assms(2)] by simp
    then show ?thesis by simp
  qed
  finally show ?thesis unfolding nat by (rule rnd_near_float [OF assms])
qed

lemma shortest_exact:
  assumes "is_float x" and "0 < x" and "shortest x = (n, c)"
  shows "rnd (of_nat c * sig_unit n x) = x"
proof (cases "List.find (\<lambda>n. nearest_sig n x \<noteq> None) [1..<17]")
  case None
  then show ?thesis using assms seventeen_digits [OF assms(1,2)] by (simp add: shortest_def)
next
  case (Some m)
  then have "nearest_sig m x \<noteq> None" using find_SomeD by fastforce
  then show ?thesis using Some assms nearest_sig_exact [of m x] by (auto simp: shortest_def)
qed


section \<open>Reading what was written\<close>

definition digit_val :: "nat \<Rightarrow> char \<Rightarrow> nat" where
  "digit_val a c = 10 * a + (of_char c - 48)"

definition num_val :: "string \<Rightarrow> nat" where
  "num_val s = foldl digit_val 0 s"

definition all_digits :: "string \<Rightarrow> bool" where
  "all_digits s \<longleftrightarrow> list_all is_digit s"

lemma all_digits_simps [simp]: "all_digits []" "all_digits (c # s) \<longleftrightarrow> is_digit c \<and> all_digits s"
  "all_digits (s @ t) \<longleftrightarrow> all_digits s \<and> all_digits t" "all_digits (replicate k (CHR ''0''))"
  by (auto simp: all_digits_def list_all_iff is_digit_def)

lemma all_digits_digits10 [simp]: "all_digits (digits10 n)"
  by (auto simp: all_digits_def list_all_iff dest: digits10_digits)

lemma all_digits_take [simp]: "all_digits s \<Longrightarrow> all_digits (take n s)" "all_digits s \<Longrightarrow> all_digits (drop n s)"
  by (auto simp: all_digits_def list_all_iff dest: in_set_takeD in_set_dropD)

lemma foldl_digit_val: "foldl digit_val a s = a * 10 ^ length s + num_val s"
proof (induction s arbitrary: a)
  case (Cons c s)
  have d: "digit_val a c = 10 * a + digit_val 0 c" by (simp add: digit_val_def)
  show ?case unfolding num_val_def foldl_Cons
    by (subst (1 2) Cons) (simp add: d algebra_simps)
qed (simp add: num_val_def)

lemma num_val_single [simp]: "num_val [c] = of_char c - 48"
  by (simp add: num_val_def digit_val_def)

lemma num_val_append: "num_val (s @ t) = num_val s * 10 ^ length t + num_val t"
  by (simp add: num_val_def) (simp add: foldl_digit_val [of "foldl digit_val 0 s"] num_val_def)

lemma num_val_zeros [simp]: "num_val (replicate k (CHR ''0'')) = 0" "num_val [] = 0"
proof -
  show "num_val (replicate k (CHR ''0'')) = 0" by (induction k) (simp_all add: num_val_def digit_val_def)
qed (simp add: num_val_def)

lemma parse_digits_val: "all_digits s \<Longrightarrow> s \<noteq> [] \<or> prev \<Longrightarrow> parse_digits a prev s = Some (foldl digit_val a s)"
proof (induction s arbitrary: a prev)
  case (Cons c s)
  then show ?case by (cases "s = []") (simp_all add: digit_val_def)
qed simp

lemma parse_digits_num: "all_digits s \<Longrightarrow> s \<noteq> [] \<Longrightarrow> parse_digits 0 prev s = Some (num_val s)"
  by (simp add: parse_digits_val num_val_def)

lemma digits_or_none_val: "all_digits s \<Longrightarrow> digits_or_none s = Some (num_val s)"
  by (auto simp: digits_or_none_def parse_digits_val num_val_def)

lemma num_val_digits10 [simp]: "num_val (digits10 n) = n"
  using parse_digits10 [of False n] parse_digits_val [of "digits10 n" False 0] by (simp add: num_val_def)

lemma is_digit_dot: "is_digit c \<Longrightarrow> c \<noteq> CHR ''.'' \<and> lower_char c \<noteq> CHR ''e''"
  by (auto simp: is_digit_def lower_char_def Let_def)

lemma takeWhile_digits: "all_digits s \<Longrightarrow> \<not> P d \<Longrightarrow> (\<And>c. is_digit c \<Longrightarrow> P c) \<Longrightarrow> takeWhile P (s @ d # r) = s \<and> dropWhile P (s @ d # r) = d # r"
  by (induction s) auto

lemma takeWhile_all_digits: "all_digits s \<Longrightarrow> (\<And>c. is_digit c \<Longrightarrow> P c) \<Longrightarrow> takeWhile P s = s \<and> dropWhile P s = []"
  by (induction s) auto

lemma filter_digits: "all_digits s \<Longrightarrow> filter is_digit s = s"
  by (induction s) auto

lemma unsigned_point:
  assumes "all_digits ip" and "all_digits fp" and "ip \<noteq> []"
  shows "unsigned_decimal (ip @ CHR ''.'' # fp) = Some (of_nat (num_val (ip @ fp)) / 10 ^ length fp)"
proof -
  have "takeWhile (\<lambda>c. c \<noteq> CHR ''.'') (ip @ CHR ''.'' # fp) = ip \<and> dropWhile (\<lambda>c. c \<noteq> CHR ''.'') (ip @ CHR ''.'' # fp) = CHR ''.'' # fp"
    by (rule takeWhile_digits) (use assms is_digit_dot in auto)
  then show ?thesis
    using assms by (simp add: unsigned_decimal_def digits_or_none_val filter_digits num_val_append add_divide_distrib)
qed

lemma unsigned_integer: "all_digits ip \<Longrightarrow> ip \<noteq> [] \<Longrightarrow> unsigned_decimal ip = Some (of_nat (num_val ip))"
proof -
  assume ip: "all_digits ip" "ip \<noteq> []"
  then have "takeWhile (\<lambda>c. c \<noteq> CHR ''.'') ip = ip \<and> dropWhile (\<lambda>c. c \<noteq> CHR ''.'') ip = []"
    by (intro takeWhile_all_digits) (use is_digit_dot in auto)
  note tw = conjunct1 [OF this] conjunct2 [OF this]
  show ?thesis using ip by (simp add: unsigned_decimal_def Let_def tw digits_or_none_val)
qed

lemma all_digits_pad [simp]: "all_digits s \<Longrightarrow> all_digits (pad_zeros n s)"
  by (simp add: pad_zeros_def)

lemma num_val_pad [simp]: "num_val (pad_zeros n s) = num_val s"
  by (simp add: pad_zeros_def num_val_append)

lemma exponent_reads: "decimal_exponent (drop 1 (exponent k)) = Some k"
proof -
  have "parse_digits 0 False (pad_zeros 2 (digits10 n)) = Some n" for n
    using parse_digits_num [of "pad_zeros 2 (digits10 n)" False] by (simp add: pad_zeros_def num_val_append)
  then show ?thesis by (auto simp: exponent_def decimal_exponent_def signed_def)
qed

lemma decimal_plain:
  assumes "unsigned_decimal s = Some v" and "\<And>c. c \<in> set s \<Longrightarrow> is_digit c \<or> c = CHR ''.''"
  shows "decimal s = Some v" "decimal (s @ exponent k) = Some (v * 10 powi k)"
proof -
  have p: "lower_char c \<noteq> CHR ''e''" if "c \<in> set s" for c
    using assms(2) [OF that] is_digit_dot [of c] by (auto simp: lower_char_def)
  then have tw: "takeWhile (\<lambda>c. lower_char c \<noteq> CHR ''e'') s = s" "dropWhile (\<lambda>c. lower_char c \<noteq> CHR ''e'') s = []"
    by (simp_all add: takeWhile_eq_all_conv dropWhile_eq_Nil_conv)
  show "decimal s = Some v" using assms(1) by (simp add: decimal_def Let_def tw)
  obtain x where x: "exponent k = CHR ''e'' # x" by (simp add: exponent_def)
  have "takeWhile (\<lambda>c. lower_char c \<noteq> CHR ''e'') (s @ CHR ''e'' # x) = s"
    "dropWhile (\<lambda>c. lower_char c \<noteq> CHR ''e'') (s @ CHR ''e'' # x) = CHR ''e'' # x"
    using p by (simp_all add: takeWhile_append2 dropWhile_append2 lower_char_def)
  then show "decimal (s @ exponent k) = Some (v * 10 powi k)"
    using assms(1) exponent_reads [of k] by (simp add: decimal_def x)
qed

lemma powi10_diff: "(10 :: rat) powi (int a - int b) = 10 ^ a / 10 ^ b"
  by (simp add: power_int_diff)

text \<open>What a layout of digits reads as.\<close>

lemma layout_reads:
  assumes "all_digits ds" and "ds \<noteq> []"
  shows "decimal (layout ds pt) = Some (of_nat (num_val ds) * 10 powi (pt - int (length ds)))"
proof -
  have dig: "is_digit c" if "c \<in> set ds" for c using assms(1) that by (simp add: all_digits_def list_all_iff)
  have zero: "is_digit (CHR ''0'')" by (simp add: is_digit_def)
  consider (small) "-4 < pt" "pt \<le> 0" | (inside) "0 < pt" "pt \<le> 16" "pt < int (length ds)"
    | (large) "0 < pt" "pt \<le> 16" "int (length ds) \<le> pt" | (sci) "pt \<le> -4 \<or> 16 < pt" by linarith
  then show ?thesis
  proof cases
    case small
    let ?fp = "replicate (nat (- pt)) (CHR ''0'') @ ds"
    have "unsigned_decimal (''0'' @ CHR ''.'' # ?fp) = Some (of_nat (num_val (''0'' @ ?fp)) / 10 ^ length ?fp)"
      by (rule unsigned_point) (use assms zero in auto)
    moreover have "num_val (''0'' @ ?fp) = num_val ds" by (simp only: num_val_append num_val_zeros num_val_single) simp
    moreover have "(10 :: rat) powi (pt - int (length ds)) = 1 / 10 ^ length ?fp"
      using small powi10_diff [of 0 "length ?fp"] by simp
    ultimately have "unsigned_decimal (layout ds pt) = Some (of_nat (num_val ds) * 10 powi (pt - int (length ds)))"
      using small by (simp add: layout_def)
    then show ?thesis by (rule decimal_plain(1)) (use small dig zero in \<open>auto simp: layout_def\<close>)
  next
    case inside
    let ?ip = "take (nat pt) ds" let ?fp = "drop (nat pt) ds"
    have "unsigned_decimal (?ip @ CHR ''.'' # ?fp) = Some (of_nat (num_val (?ip @ ?fp)) / 10 ^ length ?fp)"
      by (rule unsigned_point) (use assms inside in auto)
    moreover have "(10 :: rat) powi (pt - int (length ds)) = 1 / 10 ^ length ?fp"
      using inside powi10_diff [of 0 "length ?fp"] by simp
    ultimately have "unsigned_decimal (layout ds pt) = Some (of_nat (num_val ds) * 10 powi (pt - int (length ds)))"
      using inside by (simp add: layout_def)
    then show ?thesis by (rule decimal_plain(1)) (use inside dig in \<open>auto simp: layout_def dest: in_set_takeD in_set_dropD\<close>)
  next
    case large
    let ?ip = "ds @ replicate (nat pt - length ds) (CHR ''0'')"
    have "unsigned_decimal (?ip @ CHR ''.'' # ''0'') = Some (of_nat (num_val (?ip @ ''0'')) / 10 ^ length ''0'')"
      by (rule unsigned_point) (use assms zero in auto)
    moreover have "num_val (?ip @ ''0'') = num_val ds * 10 ^ (nat pt - length ds) * 10"
      by (simp add: num_val_append)
    moreover have "(10 :: rat) powi (pt - int (length ds)) = 10 ^ (nat pt - length ds)"
      using large power_int_of_nat [of "10 :: rat" "nat pt - length ds"] by (simp add: of_nat_diff nat_le_iff le_nat_iff)
    ultimately have "unsigned_decimal (layout ds pt) = Some (of_nat (num_val ds) * 10 powi (pt - int (length ds)))"
      using large by (simp add: layout_def)
    then show ?thesis by (rule decimal_plain(1)) (use large dig zero in \<open>auto simp: layout_def\<close>)
  next
    case sci
    obtain d r where d: "ds = d # r" using assms(2) by (cases ds) auto
    let ?m = "[d] @ (if r = [] then [] else ''.'' @ r)"
    have "unsigned_decimal ?m = Some (of_nat (num_val ds) / 10 ^ length r)"
      using assms d unsigned_point [of "[d]" r] unsigned_integer [of "[d]"] by auto
    then have "decimal (?m @ exponent (pt - 1)) = Some (of_nat (num_val ds) / 10 ^ length r * 10 powi (pt - 1))"
      by (rule decimal_plain(2)) (use d dig in \<open>auto split: if_splits\<close>)
    moreover have "(10 :: rat) powi (pt - int (length ds)) = 10 powi (pt - 1) / 10 ^ length r"
      using power_int_diff [of "10 :: rat" "pt - 1" "int (length r)"] d by (simp add: diff_diff_eq add.commute)
    ultimately show ?thesis using sci d by (auto simp: layout_def)
  qed
qed


lemma strip_zeros_split: "\<exists>k. s = strip_zeros s @ replicate k (CHR ''0'')"
proof -
  let ?P = "\<lambda>c. c = CHR ''0''"
  have "takeWhile ?P t = replicate (length (takeWhile ?P t)) (CHR ''0'')" for t
    by (induction t) simp_all
  then have "rev (takeWhile ?P (rev s)) = replicate (length (takeWhile ?P (rev s))) (CHR ''0'')" by (metis rev_replicate)
  moreover have "s = rev (dropWhile ?P (rev s)) @ rev (takeWhile ?P (rev s))"
    by (metis rev_append rev_rev_ident takeWhile_dropWhile_id)
  ultimately show ?thesis unfolding strip_zeros_def by metis
qed

lemma repr_pos_reads:
  assumes "is_float x" and "0 < x"
  shows "\<exists>v. decimal (repr_pos x) = Some v \<and> rnd v = x"
proof -
  obtain n c where nc: "shortest x = (n, c)" by fastforce
  have r: "rnd (of_nat c * sig_unit n x) = x" by (rule shortest_exact [OF assms nc])
  let ?ds = "strip_zeros (digits10 c)"
  obtain k where k: "digits10 c = ?ds @ replicate k (CHR ''0'')" using strip_zeros_split by blast
  have dig: "all_digits ?ds" using all_digits_digits10 [of c] by (subst (asm) k) simp
  have val: "c = num_val ?ds * 10 ^ k"
    using num_val_digits10 [of c] by (subst (asm) k) (simp add: num_val_append)
  have "0 < c" using r assms(2) by (cases "c = 0") auto
  then have ne: "?ds \<noteq> []" using val by (cases "?ds = []") auto
  have len: "int (length (digits10 c)) = int (length ?ds) + int k" by (subst k) simp
  let ?E = "dexp x - int n + 1"
  have "repr_pos x = layout ?ds (int (length ?ds) + (int k + ?E))" unfolding repr_pos_def nc prod.case len by (simp only: add.assoc)
  then have "decimal (repr_pos x) = Some (of_nat (num_val ?ds) * 10 powi (int k + ?E))"
    using layout_reads [OF dig ne, of "int (length ?ds) + (int k + ?E)"] by (simp only: add_diff_cancel_left')
  moreover have "of_nat (num_val ?ds) * 10 powi (int k + (dexp x - int n + 1)) = of_nat c * sig_unit n x"
    by (subst val) (simp add: sig_unit_def power_int_add [of _ "int k"])
  ultimately show ?thesis using r by simp
qed

text \<open>A representation starts with a digit and has no space in it.\<close>

lemma layout_chars: "all_digits ds \<Longrightarrow> ds \<noteq> [] \<Longrightarrow> \<exists>d r. layout ds pt = d # r \<and> is_digit d
   \<and> (\<forall>c \<in> set r. is_digit c \<or> c \<in> {CHR ''.'', CHR ''e'', CHR ''-'', CHR ''+''})"
proof -
  assume ds: "all_digits ds" "ds \<noteq> []"
  then obtain d r where d: "ds = d # r" "is_digit d" "all_digits r" by (cases ds) auto
  have dig: "is_digit c" if "c \<in> set r" for c using d(3) that by (simp add: all_digits_def list_all_iff)
  have pad: "is_digit c" if "c \<in> set (pad_zeros 2 (digits10 m))" for c m
    using that all_digits_pad [OF all_digits_digits10, of 2 m] by (simp add: all_digits_def list_all_iff)
  have zero: "is_digit (CHR ''0'')" by (simp add: is_digit_def)
  obtain m where m: "pt > 0 \<Longrightarrow> nat pt = Suc m" by (cases "nat pt") auto
  show ?thesis
    using d dig pad zero m
    by (auto simp: layout_def exponent_def dest: in_set_takeD in_set_dropD)
qed


lemma lower_digit: "is_digit c \<Longrightarrow> lower_char c = c"
  by (simp add: is_digit_def lower_char_def Let_def)

text \<open>Reading a text that starts with a digit, after an optional minus sign.\<close>

lemma reads_number:
  assumes "u = d # r" and "is_digit d" and "\<And>c. c \<in> set r \<Longrightarrow> \<not> py_space c" and "decimal u = Some v"
  shows "py_float_arg u = Num (rnd v)" "py_float_arg (CHR ''-'' # u) = Num (rnd (- v))"
proof -
  have minus: "\<not> py_space (CHR ''-'')" by (simp add: py_space_def)
  have sp: "\<not> py_space c" if "c \<in> set (CHR ''-'' # u)" for c
    using that minus assms(1,3) digit_not_space [OF assms(2)] by auto
  have "py_strip u = u" by (rule py_strip_nospace) (rule sp, simp)
  moreover have "py_strip (CHR ''-'' # u) = CHR ''-'' # u" by (rule py_strip_nospace) (rule sp)
  ultimately have strip: "py_strip u = u" "py_strip (CHR ''-'' # u) = CHR ''-'' # u" by blast+
  have d: "d \<noteq> CHR ''-''" "d \<noteq> CHR ''+''" using digit_not_sign [OF assms(2)] by auto
  have sg: "signed f u = map_option (Pair False) (f u)" "signed f (CHR ''-'' # u) = map_option (Pair True) (f u)" for f :: "string \<Rightarrow> 'b option"
    by (simp_all add: signed_def assms(1) d)
  have "d \<noteq> CHR ''i''" "d \<noteq> CHR ''n''" using assms(2) by (auto simp: is_digit_def)
  then have notinf: "map lower_char u \<notin> {''inf'', ''infinity'', ''nan''}" by (simp add: assms(1) lower_digit [OF assms(2)])
  show "py_float_arg u = Num (rnd v)" "py_float_arg (CHR ''-'' # u) = Num (rnd (- v))"
    unfolding py_float_arg_def strip Let_def sg assms(4) using notinf by simp_all
qed

lemma not_space_chars: "c \<in> {CHR ''.'', CHR ''e'', CHR ''-'', CHR ''+''} \<Longrightarrow> \<not> py_space c"
  by (auto simp: py_space_def)

lemma repr_pos_layout:
  assumes "is_float x" and "0 < x"
  shows "\<exists>d r. repr_pos x = d # r \<and> is_digit d \<and> (\<forall>c \<in> set r. is_digit c \<or> c \<in> {CHR ''.'', CHR ''e'', CHR ''-'', CHR ''+''})"
proof -
  obtain n c where nc: "shortest x = (n, c)" by fastforce
  have "0 < c" using shortest_exact [OF assms nc] assms(2) by (cases "c = 0") auto
  obtain k where k: "digits10 c = strip_zeros (digits10 c) @ replicate k (CHR ''0'')" using strip_zeros_split by blast
  have dig: "all_digits (strip_zeros (digits10 c))" using all_digits_digits10 [of c] by (subst (asm) k) simp
  have "strip_zeros (digits10 c) \<noteq> []"
  proof
    assume "strip_zeros (digits10 c) = []"
    then have "num_val (digits10 c) = 0" using k by (metis append_Nil num_val_zeros(1))
    with \<open>0 < c\<close> show False by simp
  qed
  from layout_chars [OF dig this] show ?thesis by (simp add: repr_pos_def nc)
qed

text \<open>\<open>float(str(x))\<close> is \<open>x\<close>.\<close>

lemma float_of_repr:
  assumes "is_float x"
  shows "py_float_arg (py_repr x) = Num x"
proof -
  have pos: "py_float_arg (repr_pos y) = Num y \<and> py_float_arg (CHR ''-'' # repr_pos y) = Num (- y)" if y: "is_float y" "0 < y" for y
  proof -
    obtain d r where dr: "repr_pos y = d # r" "is_digit d" "\<And>c. c \<in> set r \<Longrightarrow> is_digit c \<or> c \<in> {CHR ''.'', CHR ''e'', CHR ''-'', CHR ''+''}"
      using repr_pos_layout [OF y] by blast
    obtain v where v: "decimal (repr_pos y) = Some v" "rnd v = y" using repr_pos_reads [OF y] by blast
    have sp: "\<not> py_space c" if "c \<in> set r" for c using dr(3) [OF that] digit_not_space not_space_chars by blast
    show ?thesis using reads_number [OF dr(1,2) sp v(1)] v(2) by (simp add: rnd_minus)
  qed
  consider "x = 0" | "0 < x" | "x < 0" by linarith
  then show ?thesis
  proof cases
    case 1
    have "decimal ''0.0'' = Some 0"
      by (simp add: decimal_def unsigned_decimal_def digits_or_none_def lower_char_def is_digit_def Let_def)
    moreover have "\<not> py_space c" if "c \<in> set ''.0''" for c using that by (auto simp: py_space_def)
    ultimately have "py_float_arg ''0.0'' = Num (rnd 0)"
      by (intro reads_number(1) [of _ "CHR ''0''" "''.0''"]) (auto simp: is_digit_def)
    with 1 show ?thesis by (simp add: py_repr_def)
  next
    case 2
    with pos [OF assms] show ?thesis by (simp add: py_repr_def)
  next
    case 3
    then show ?thesis using pos [of "- x"] assms by (simp add: py_repr_def)
  qed
qed

section \<open>How near fixed decimals are\<close>

lemma decimals_read: "0 < n \<Longrightarrow> decimal (int_part n x @ decimals n x) = Some (of_nat (scaled n x) / 10 ^ n)"
proof -
  assume n: "0 < n"
  let ?k = "scaled n x"
  let ?f = "pad_zeros n (digits10 (?k mod 10 ^ n))"
  have "length (digits10 m) \<le> n" if "m < 10 ^ n" for m
  proof (cases "m = 0")
    case True
    then show ?thesis using n by (simp add: digits10.simps)
  next
    case False
    then have "10 ^ (length (digits10 m) - 1) \<le> m" using digits10_length [of m] by simp
    also note that
    finally have "length (digits10 m) - 1 < n" by (rule power_less_imp_less_exp [rotated, of "10 :: nat"]) simp
    then show ?thesis by simp
  qed
  then have len: "length ?f = n" by (simp add: pad_zeros_def)
  have "unsigned_decimal (int_part n x @ CHR ''.'' # ?f) = Some (of_nat (num_val (int_part n x @ ?f)) / 10 ^ length ?f)"
    by (rule unsigned_point) (simp_all add: int_part_def)
  moreover have "num_val (int_part n x @ ?f) = ?k" by (simp only: num_val_append num_val_pad num_val_digits10 len int_part_def div_mult_mod_eq)
  ultimately have u: "unsigned_decimal (int_part n x @ decimals n x) = Some (of_nat ?k / 10 ^ n)"
    using n len by (simp add: decimals_def)
  have "is_digit c \<or> c = CHR ''.''" if "c \<in> set (int_part n x @ decimals n x)" for c
    using that n all_digits_pad [OF all_digits_digits10, of n] all_digits_digits10
    by (auto simp: int_part_def decimals_def all_digits_def list_all_iff)
  from decimal_plain(1) [OF u this] show ?thesis .
qed

lemma signed_scaled: "(if x < 0 then - (of_nat (scaled n x) / 10 ^ n) else of_nat (scaled n x) / 10 ^ n) = (of_int (rhe (x * 10 ^ n)) / 10 ^ n :: rat)"
proof -
  have "0 \<le> rhe (\<bar>x\<bar> * 10 ^ n)" using rhe_ge [of 0 "\<bar>x\<bar> * 10 ^ n"] by simp
  then have s: "(of_nat (scaled n x) :: rat) = of_int (rhe (\<bar>x\<bar> * 10 ^ n))" by (simp add: scaled_def)
  show ?thesis unfolding s using rhe_minus [of "x * 10 ^ n"] by (simp add: abs_if)
qed

text \<open>The text of \<open>.nf\<close> reads as the number that \<open>round(x, n)\<close> gives.\<close>

lemma fmt_fixed_reads:
  assumes "0 < n"
  shows "py_float_arg (fmt_fixed n x) = Num (fround n x)"
proof -
  let ?u = "int_part n x @ decimals n x"
  obtain d r where dr: "int_part n x = d # r" "is_digit d"
    using digits10_digits [of _ "scaled n x div 10 ^ n"] digits10_neq_Nil [of "scaled n x div 10 ^ n"] unfolding int_part_def
    by (cases "digits10 (scaled n x div 10 ^ n)") auto
  have sp: "\<not> py_space c" if "c \<in> set (r @ decimals n x)" for c
  proof -
    have "c \<in> set ?u" using that dr(1) by auto
    then have "is_digit c \<or> c = CHR ''.''"
      using assms all_digits_pad [OF all_digits_digits10, of n] all_digits_digits10
      by (auto simp: int_part_def decimals_def all_digits_def list_all_iff)
    then show ?thesis using digit_not_space not_space_chars by blast
  qed
  have u: "?u = d # (r @ decimals n x)" using dr(1) by simp
  note rd = reads_number [OF u dr(2) sp decimals_read [OF assms, of x]]
  show ?thesis
    unfolding fround_def signed_scaled [symmetric] using rd
    by (simp add: fmt_fixed_def minus_sign_def)
qed

lemma fround_near: "\<exists>v. fround n x = rnd v \<and> \<bar>v - x\<bar> \<le> 1 / (2 * 10 ^ n)"
proof -
  have "of_int (rhe (x * 10 ^ n)) / 10 ^ n - x = (of_int (rhe (x * 10 ^ n)) - x * 10 ^ n) / 10 ^ n" by (simp add: diff_divide_distrib)
  then have "\<bar>of_int (rhe (x * 10 ^ n)) / 10 ^ n - x\<bar> \<le> (1 / 2) / 10 ^ n"
    by (simp only: abs_divide) (intro frac_le rhe_near; simp)
  then show ?thesis by (intro exI [of _ "of_int (rhe (x * 10 ^ n)) / 10 ^ n"]) (simp add: fround_def)
qed

lemma fround_mono: "x \<le> y \<Longrightarrow> fround n x \<le> fround n y"
  unfolding fround_def by (intro rd.mono divide_right_mono) (auto intro!: rhe_mono mult_right_mono)
end
