(* ===== verification/Telegram_Bot.thy ===== *)
theory Telegram_Bot
  imports Engine Py_Format
begin

text \<open>
  The chat bot (\<open>src/app/telegram_bot.py\<close>, started by \<open>src/scripts/run_live.py\<close>): who may give commands, how their arguments are
  read, and which requests they make to the dashboard.  A command's outputs are the requests and the kinds of its replies, in order; the texts of the
  replies are in \<open>Bot_Texts\<close>.  The dashboard's answer is an argument: its status, or \<open>None\<close> for an exception.  The library delivers a
  command with its arguments to the handler.

  The lemmas show that requests come from administrators only and that the dashboard accepts what they send.
\<close>

section \<open>Commands\<close>

datatype bot_cmd = C_help | C_status | C_positions | C_trades | C_performance | C_account | C_switch | C_setrisk

datatype bot_call = GetStatus | GetOpen | GetTrades int | GetPerformance | GetAccount | PutAccount string | PutRisk pyfloat int

datatype bot_text = HelpText | View | Usage | Invalid | OutOfRange | Switching | Success | Failure | ErrorText

datatype bot_out = BSend bot_call | BText bot_text

text \<open>The bot of a configuration: the administrators, or none.\<close>

definition bot_admins :: "settings \<Rightarrow> int list option" where
  "bot_admins s = (if is_telegram_bot_enabled s then Some (get_admin_chat_ids s) else None)"

definition is_authorized :: "int list \<Rightarrow> int option \<Rightarrow> bool" where
  "is_authorized admins chat = (case chat of None \<Rightarrow> False | Some i \<Rightarrow> i \<in> set admins)"

text \<open>A query, and a request that changes something.\<close>

definition bot_get :: "(bot_call \<Rightarrow> int option) \<Rightarrow> bot_call \<Rightarrow> bot_out list" where
  "bot_get answer q = [BSend q, BText (if answer q = None then ErrorText else View)]"

definition bot_put :: "(bot_call \<Rightarrow> int option) \<Rightarrow> bot_call \<Rightarrow> bot_out list" where
  "bot_put answer q = [BSend q, BText (case answer q of None \<Rightarrow> ErrorText | Some code \<Rightarrow> if code = 200 then Success else Failure)]"

definition trades_limit :: "string list \<Rightarrow> int" where
  "trades_limit args = (case args of [] \<Rightarrow> 5 | a # as \<Rightarrow> (case py_int a of Inl x \<Rightarrow> 5 | Inr n \<Rightarrow> min n 20))"

definition cmd_switch :: "(bot_call \<Rightarrow> int option) \<Rightarrow> string list \<Rightarrow> bot_out list" where
  "cmd_switch answer args = (case args of
       [] \<Rightarrow> [BText Usage]
     | a # as \<Rightarrow> let env = map lower_char a in
         if env \<notin> {''paper'', ''demo'', ''live''} then [BText Invalid]
         else BText Switching # bot_put answer (PutAccount env))"

definition cmd_setrisk :: "(bot_call \<Rightarrow> int option) \<Rightarrow> string list \<Rightarrow> bot_out list" where
  "cmd_setrisk answer args = (case args of
       a # b # rest \<Rightarrow>
         (case (py_float_arg a, py_int b) of
            (NotNumber, _) \<Rightarrow> [BText Invalid]
          | (_, Inl x) \<Rightarrow> [BText Invalid]
          | (NotFinite, Inr n) \<Rightarrow> [BText OutOfRange]
          | (Num dd, Inr n) \<Rightarrow>
              if \<not> (rnd (1 / 1000) \<le> dd \<and> dd \<le> rnd (1 / 10)) then [BText OutOfRange]
              else if \<not> (1 \<le> n \<and> n \<le> 50) then [BText OutOfRange]
              else bot_put answer (PutRisk dd n))
     | _ \<Rightarrow> [BText Usage])"

definition bot_command :: "int list \<Rightarrow> (bot_call \<Rightarrow> int option) \<Rightarrow> int option \<Rightarrow> bot_cmd \<Rightarrow> string list \<Rightarrow> bot_out list" where
  "bot_command admins answer chat cmd args =
     (if \<not> is_authorized admins chat then []
      else case cmd of
          C_help \<Rightarrow> [BText HelpText]
        | C_status \<Rightarrow> bot_get answer GetStatus
        | C_positions \<Rightarrow> bot_get answer GetOpen
        | C_trades \<Rightarrow> bot_get answer (GetTrades (trades_limit args))
        | C_performance \<Rightarrow> bot_get answer GetPerformance
        | C_account \<Rightarrow> bot_get answer GetAccount
        | C_switch \<Rightarrow> cmd_switch answer args
        | C_setrisk \<Rightarrow> cmd_setrisk answer args)"

section \<open>What is sent\<close>

text \<open>A negative number of trades passes the limit of twenty, and is what the dashboard is asked for.\<close>

lemma trades_limit_negative: "k \<le> 0 \<Longrightarrow> trades_limit [py_str_int k] = k"
  by (simp add: trades_limit_def py_int_str)

lemma setrisk_sends:
  "BSend q \<in> set (cmd_setrisk answer args) \<Longrightarrow>
     \<exists>dd n. q = PutRisk dd n \<and> rnd (1 / 1000) \<le> dd \<and> dd \<le> rnd (1 / 10) \<and> 1 \<le> n \<and> n \<le> 50"
  by (auto simp: cmd_setrisk_def bot_put_def split: list.splits num_arg.splits sum.splits if_splits)

lemma switch_sends: "BSend q \<in> set (cmd_switch answer args) \<Longrightarrow> \<exists>env. q = PutAccount env \<and> env \<in> {''paper'', ''demo'', ''live''}"
  by (auto simp: cmd_switch_def bot_put_def Let_def split: list.splits if_splits)

text \<open>What the dashboard makes of a request that changes the engine.\<close>

definition accepted :: "'l engine \<Rightarrow> bot_call \<Rightarrow> bool" where
  "accepted e q = (case q of
       PutRisk dd n \<Rightarrow> max_daily_loss_pct (en_settings (update_risk_params e dd n)) = dd
         \<and> max_trades_per_day (rm_settings (ex_risk (en_exec (update_risk_params e dd n)))) = n
     | PutAccount env \<Rightarrow> env_mode env \<noteq> None
     | GetTrades n \<Rightarrow> n \<le> 20
     | _ \<Rightarrow> True)"

lemma risk_accepted:
  "rnd (1 / 1000) \<le> dd \<Longrightarrow> dd \<le> rnd (1 / 10) \<Longrightarrow> 1 \<le> n \<Longrightarrow> n \<le> 50 \<Longrightarrow> accepted e (PutRisk dd n)"
  by (simp add: accepted_def update_risk_params_def with_risk_params_def Let_def)

section \<open>Properties\<close>

text \<open>
  C30. The bot obeys administrators only, and sends nothing the dashboard refuses: a request is made only for a command of a
  configured administrator, and the dashboard takes over the risk parameters of a request exactly as
  sent, knows the environment of a switch, and is asked for at most twenty trades.
\<close>

theorem bot_requests_valid:
  assumes "bot_admins s = Some admins" and "BSend q \<in> set (bot_command admins answer chat cmd args)"
  shows "(\<exists>i. chat = Some i \<and> i \<in> set (get_admin_chat_ids s)) \<and> telegram_bot_token s \<noteq> [] \<and> accepted e q"
proof -
  have adm: "admins = get_admin_chat_ids s" "telegram_bot_token s \<noteq> []"
    using assms(1) by (auto simp: bot_admins_def is_telegram_bot_enabled_def split: if_splits)
  have auth: "is_authorized admins chat" using assms(2) by (auto simp: bot_command_def split: if_splits)
  then have "\<exists>i. chat = Some i \<and> i \<in> set (get_admin_chat_ids s)" using adm(1) by (auto simp: is_authorized_def split: option.splits)
  moreover have "accepted e q"
  proof (cases "cmd = C_switch \<or> cmd = C_setrisk")
    case True
    with assms(2) auth have "BSend q \<in> set (cmd_switch answer args) \<or> BSend q \<in> set (cmd_setrisk answer args)"
      by (auto simp: bot_command_def)
    then show ?thesis
      using switch_sends [of q answer args] setrisk_sends [of q answer args] risk_accepted [of _ _ e]
      by (auto simp: accepted_def env_mode_def)
  next
    case False
    with assms(2) auth show ?thesis
      by (cases cmd) (auto simp: bot_command_def bot_get_def accepted_def trades_limit_def split: list.splits sum.splits)
  qed
  ultimately show ?thesis using adm(2) by blast
qed

definition bot_settings :: settings where
  "bot_settings = default_settings\<lparr>telegram_bot_token := ''t'', admin_chat_ids := [7]\<rparr>"

lemma bot_requests_valid_witness:
  "bot_admins bot_settings = Some [7] \<and> bot_command [7] (\<lambda>q. Some 200) (Some 7) C_setrisk [''0.01'', ''5''] = [BSend (PutRisk (rnd (1 / 100)) 5), BText Success]
   \<and> (\<forall>e :: unit engine. accepted e (PutRisk (rnd (1 / 100)) 5))"
proof -
  have a: "bot_admins bot_settings = Some [7]"
    by (simp add: bot_admins_def is_telegram_bot_enabled_def get_admin_chat_ids_def bot_settings_def)
  have dd: "py_float_arg ''0.01'' = Num (rnd (1 / 100))"
    by (simp add: py_float_arg_def py_strip_def py_space_def signed_def decimal_def unsigned_decimal_def digits_or_none_def
        lower_char_def is_digit_def Let_def)
  have n: "py_int ''5'' = Inr 5"
    by (simp add: py_int_def py_strip_def py_space_def is_digit_def Let_def)
  have "rnd (1 / 1000) \<le> rnd (1 / 100 :: rat)" "rnd (1 / 100 :: rat) \<le> rnd (1 / 10)" by (rule rd.mono, simp)+
  then have c: "bot_command [7] (\<lambda>q. Some 200) (Some 7) C_setrisk [''0.01'', ''5''] = [BSend (PutRisk (rnd (1 / 100)) 5), BText Success]"
    by (simp add: bot_command_def is_authorized_def cmd_setrisk_def dd n bot_put_def)
  have "BSend (PutRisk (rnd (1 / 100)) 5) \<in> set (bot_command [7] (\<lambda>q. Some 200) (Some 7) C_setrisk [''0.01'', ''5''])"
    unfolding c by simp
  from bot_requests_valid [OF a this] a c show ?thesis by blast
qed

end
