(* ===== verification/Api.thy ===== *)
theory Api
  imports Telegram_Bot Dashboard
begin

text \<open>
  The routes of the dashboard (\<open>create_app\<close> of \<open>src/app/api/app.py\<close> with the decorators of \<open>src/app/api/routes\<close>), how a request finds its
  handler, and the liveness probe.  The handlers themselves are in \<open>Dashboard\<close>, \<open>Engine\<close> and \<open>Risk\<close>; the web framework, which
  takes the first route of the table that matches, and the middleware are left out.

  The lemmas show that every request of the chat bot reaches the handler it is meant for, that no route hides another, and that the
  route the module names for pending signals does not exist.
\<close>

section \<open>The table\<close>

datatype http_method = GET | PUT | POST

datatype segment = Literal string | Parameter

datatype handler = H_liveness | H_readiness | H_risk | H_risk_disable | H_trades | H_open_positions | H_stats | H_equity
  | H_status | H_performance | H_account | H_switch | H_update_risk | H_latest_signal | H_price | H_prices

type_synonym route = "http_method \<times> segment list \<times> handler"

definition lits :: "string list \<Rightarrow> segment list" where
  "lits xs = map Literal xs"

definition health_routes :: "route list" where
  "health_routes = [(GET, lits [''health''], H_liveness), (GET, lits [''ready''], H_readiness)]"

definition risk_routes :: "route list" where
  "risk_routes = [(GET, lits [''risk''], H_risk), (POST, lits [''risk'', ''disable''], H_risk_disable)]"

definition trades_routes :: "route list" where
  "trades_routes = [(GET, lits [''trades''], H_trades), (GET, lits [''trades'', ''open''], H_open_positions)]"

definition stats_routes :: "route list" where
  "stats_routes = [(GET, lits [''stats''], H_stats), (GET, lits [''stats'', ''equity''], H_equity)]"

definition status_routes :: "route list" where
  "status_routes = [(GET, lits [''status''], H_status), (GET, lits [''performance''], H_performance)]"

definition settings_routes :: "route list" where
  "settings_routes = [(GET, lits [''settings'', ''account''], H_account), (PUT, lits [''settings'', ''account''], H_switch),
     (PUT, lits [''settings'', ''risk''], H_update_risk)]"

definition signals_routes :: "route list" where
  "signals_routes = [(GET, lits [''signals'', ''latest''], H_latest_signal)]"

definition market_routes :: "route list" where
  "market_routes = [(GET, lits [''market'', ''price''] @ [Parameter], H_price), (GET, lits [''market'', ''prices''], H_prices)]"

definition with_prefix :: "string list \<Rightarrow> route list \<Rightarrow> route list" where
  "with_prefix ps rs = map (\<lambda>(m, segs, h). (m, lits ps @ segs, h)) rs"

definition app_routes :: "route list" where
  "app_routes = health_routes @ concat (map (with_prefix [''api'', ''v1''])
     [risk_routes, trades_routes, stats_routes, status_routes, settings_routes, signals_routes, market_routes])"

section \<open>Requests\<close>

fun fits :: "segment list \<Rightarrow> string list \<Rightarrow> bool" where
  "fits [] [] \<longleftrightarrow> True"
| "fits (Literal s # ss) (x # xs) \<longleftrightarrow> s = x \<and> fits ss xs"
| "fits (Parameter # ss) (x # xs) \<longleftrightarrow> x \<noteq> [] \<and> fits ss xs"
| "fits _ _ \<longleftrightarrow> False"

definition find_handler :: "http_method \<Rightarrow> string \<Rightarrow> handler option" where
  "find_handler m path = (case py_split (CHR ''/'') path of
       first # segs \<Rightarrow> map_option (\<lambda>(_, _, h). h) (List.find (\<lambda>(m', ss, h). first = [] \<and> m' = m \<and> fits ss segs) app_routes)
     | [] \<Rightarrow> None)"

text \<open>The requests of the bot.\<close>

fun call_method :: "bot_call \<Rightarrow> http_method" where
  "call_method (PutAccount env) = PUT"
| "call_method (PutRisk dd n) = PUT"
| "call_method _ = GET"

fun call_path :: "bot_call \<Rightarrow> string" where
  "call_path GetStatus = ''/api/v1/status''"
| "call_path GetOpen = ''/api/v1/trades/open''"
| "call_path (GetTrades n) = ''/api/v1/trades''"
| "call_path GetPerformance = ''/api/v1/performance''"
| "call_path GetAccount = ''/api/v1/settings/account''"
| "call_path (PutAccount env) = ''/api/v1/settings/account''"
| "call_path (PutRisk dd n) = ''/api/v1/settings/risk''"

text \<open>The handler each request is meant for.\<close>

fun call_handler :: "bot_call \<Rightarrow> handler" where
  "call_handler GetStatus = H_status"
| "call_handler GetOpen = H_open_positions"
| "call_handler (GetTrades n) = H_trades"
| "call_handler GetPerformance = H_performance"
| "call_handler GetAccount = H_account"
| "call_handler (PutAccount env) = H_switch"
| "call_handler (PutRisk dd n) = H_update_risk"

definition liveness :: "int \<times> string" where
  "liveness = (200, ''ok'')"

section \<open>Lemmas\<close>

lemma find_known: "find_handler GET ''/api/v1/status'' = Some H_status" "find_handler GET ''/api/v1/trades/open'' = Some H_open_positions"
  "find_handler GET ''/api/v1/trades'' = Some H_trades" "find_handler GET ''/api/v1/performance'' = Some H_performance"
  "find_handler GET ''/api/v1/settings/account'' = Some H_account" "find_handler PUT ''/api/v1/settings/account'' = Some H_switch"
  "find_handler PUT ''/api/v1/settings/risk'' = Some H_update_risk"
  by code_simp+

text \<open>Every request of the bot reaches its handler.\<close>

theorem bot_calls_routed: "find_handler (call_method q) (call_path q) = Some (call_handler q)"
  by (cases q) (simp_all add: find_known)

text \<open>The module's documentation names a route for pending signals; no request to it finds a handler, so that nothing can confirm one.\<close>

lemma no_pending_route: "find_handler m ''/api/v1/pending'' = None"
proof -
  have "find_handler GET ''/api/v1/pending'' = None" "find_handler PUT ''/api/v1/pending'' = None" "find_handler POST ''/api/v1/pending'' = None"
    by code_simp+
  then show ?thesis by (cases m) simp_all
qed

lemma routes_distinct: "distinct (map (\<lambda>(m, ss, h). (m, ss)) app_routes) \<and> distinct (map (\<lambda>(m, ss, h). h) app_routes)"
  by code_simp

end
