(* ===== verification/Markdown.thy ===== *)
theory Markdown
  imports Py_Format
begin

text \<open>
  The form of the messages the bot sends with \<open>parse_mode="MarkdownV2"\<close>.  \<open>well_marked\<close> is the specification they are measured
  against, the service's published rules as far as the code uses them: outside code, each of the characters the code's \<open>_escape\<close>
  lists stands behind a backslash, except that \<open>*\<close> and \<open>_\<close> may open and close a span, properly nested; code
  begins and ends with a backtick, is in no other span, and has only backslashes with a character after them.  A text that is not well marked is
  refused by the service as a whole.  Links, underlines and strike-through do not occur.

  The lemmas let a message be checked piece by piece: a \<open>closed_piece\<close> can be left out.
\<close>

section \<open>The specification\<close>

definition special_char :: "char \<Rightarrow> bool" where
  "special_char c \<longleftrightarrow> c \<in> set ''_*[]()~`>#+-=|{}.!''"

abbreviation backslash :: char where "backslash \<equiv> CHR 0x5C"
abbreviation backtick :: char where "backtick \<equiv> CHR 0x60"
abbreviation newline :: char where "newline \<equiv> CHR 0x0A"

text \<open>The spans that are open, innermost first, and whether the text is in code.\<close>

fun marked :: "string \<Rightarrow> bool \<Rightarrow> string \<Rightarrow> bool" where
  "marked spans code [] \<longleftrightarrow> spans = [] \<and> \<not> code"
| "marked spans code (c # cs) \<longleftrightarrow>
     (if c = backslash then (case cs of [] \<Rightarrow> False | d # ds \<Rightarrow> marked spans code ds)
      else if c = backtick then (if code then marked spans False cs else spans = [] \<and> marked spans True cs)
      else if code then marked spans True cs
      else if c \<in> {CHR ''*'', CHR ''_''} then
        (if spans \<noteq> [] \<and> hd spans = c then marked (tl spans) False cs
         else c \<notin> set spans \<and> marked (c # spans) False cs)
      else \<not> special_char c \<and> marked spans False cs)"

definition well_marked :: "string \<Rightarrow> bool" where
  "well_marked s \<longleftrightarrow> marked [] False s"

section \<open>Pieces\<close>

definition closed_piece :: "string \<Rightarrow> bool" where
  "closed_piece p \<longleftrightarrow> (\<forall>rest. marked [] False (p @ rest) \<longleftrightarrow> marked [] False rest)"

text \<open>A value that is shown in code.\<close>

definition plain :: "string \<Rightarrow> bool" where
  "plain s \<longleftrightarrow> backslash \<notin> set s \<and> backtick \<notin> set s"

definition code_span :: "string \<Rightarrow> string" where
  "code_span s = backtick # s @ [backtick]"

lemma plain_simps [simp]: "plain []" "plain (c # s) \<longleftrightarrow> c \<noteq> backslash \<and> c \<noteq> backtick \<and> plain s" "plain (s @ t) \<longleftrightarrow> plain s \<and> plain t"
  by (auto simp: plain_def)

lemma plain_if: "(b \<Longrightarrow> plain s) \<Longrightarrow> (\<not> b \<Longrightarrow> plain t) \<Longrightarrow> plain (if b then s else t)"
  by simp

lemma marked_code: "plain s \<Longrightarrow> marked [] True (s @ backtick # rest) \<longleftrightarrow> marked [] False rest"
  by (induction s) auto

lemma closed_Nil [intro, simp]: "closed_piece []"
  by (simp add: closed_piece_def)

lemma closed_append [intro]: "closed_piece p \<Longrightarrow> closed_piece q \<Longrightarrow> closed_piece (p @ q)"
  by (simp add: closed_piece_def)

lemma closed_code [intro]: "plain s \<Longrightarrow> closed_piece (code_span s)"
  by (simp add: closed_piece_def code_span_def marked_code)

lemma closed_char: "c \<noteq> backslash \<Longrightarrow> \<not> special_char c \<Longrightarrow> closed_piece p \<Longrightarrow> closed_piece (c # p)"
  by (auto simp: closed_piece_def special_char_def)

lemma closed_escaped: "closed_piece p \<Longrightarrow> closed_piece (backslash # c # p)"
  by (simp add: closed_piece_def)

lemma closed_well_marked: "closed_piece p \<Longrightarrow> well_marked p"
  unfolding closed_piece_def well_marked_def by (drule spec [of _ "[]"]) simp

lemma well_marked_drop: "closed_piece p \<Longrightarrow> well_marked (p @ q) \<longleftrightarrow> well_marked q"
  by (simp add: closed_piece_def well_marked_def)

text \<open>Bold text without a special character.\<close>

lemma marked_span: "list_all (\<lambda>c. c \<noteq> backslash \<and> \<not> special_char c) s \<Longrightarrow>
    marked [CHR ''*''] False (s @ CHR ''*'' # rest) \<longleftrightarrow> marked [] False rest"
  by (induction s) (auto simp: special_char_def)

lemma closed_bold: "list_all (\<lambda>c. c \<noteq> backslash \<and> \<not> special_char c) s \<Longrightarrow> closed_piece (CHR ''*'' # s @ ''*'')"
  by (simp add: closed_piece_def marked_span)

lemma closed_join: "closed_piece d \<Longrightarrow> list_all closed_piece ws \<Longrightarrow> closed_piece (py_join d ws)"
  by (induction d ws rule: py_join.induct) (auto intro!: closed_append)

text \<open>The characters of numbers are not special in code.\<close>

lemma plain_digits: "all_digits s \<Longrightarrow> plain s"
  by (auto simp: plain_def all_digits_def list_all_iff is_digit_def)

lemma plain_digits10 [simp]: "plain (digits10 n)"
  by (rule plain_digits) simp

lemma plain_replicate [simp]: "plain (replicate k (CHR ''0''))"
  by (rule plain_digits) simp

lemma plain_pad [simp]: "plain s \<Longrightarrow> plain (pad_zeros n s)"
  by (simp add: pad_zeros_def)

lemma plain_rev [simp]: "plain (rev s) \<longleftrightarrow> plain s"
  by (simp add: plain_def)

lemma plain_group: "plain s \<Longrightarrow> plain (group_rev s)"
  by (induction s rule: group_rev.induct) auto

lemma plain_thousands [simp]: "plain s \<Longrightarrow> plain (thousands s)"
  by (simp add: thousands_def plain_group)

lemma plain_take: "plain s \<Longrightarrow> plain (take n s)" "plain s \<Longrightarrow> plain (drop n s)"
  by (auto simp: plain_def dest: in_set_takeD in_set_dropD)

lemma plain_strip: "plain s \<Longrightarrow> plain (strip_zeros s)"
  using strip_zeros_split [of s] by (metis plain_simps(3))

lemma plain_layout: "plain ds \<Longrightarrow> plain (layout ds pt)"
  by (auto simp: layout_def exponent_def plain_take)

lemma plain_numbers [simp]: "plain (py_str_int k)" "plain (py_repr x)" "plain (fmt_fixed n x)" "plain (fmt_commas n x)"
  "plain (fmt_plus n x)" "plain (fmt_plus_commas n x)" "plain (fmt_percent n x)"
proof -
  have "plain (repr_pos y)" for y
    unfolding repr_pos_def by (cases "shortest y") (simp add: plain_layout plain_strip)
  then show "plain (py_repr x)" by (simp add: py_repr_def)
qed (simp_all add: py_str_int_def fmt_fixed_def fmt_commas_def fmt_plus_def fmt_plus_commas_def fmt_percent_def
      minus_sign_def plus_sign_def int_part_def decimals_def)

text \<open>Rules that leave out the pieces of a line from the left.\<close>

lemma closed_skip_char: "c \<noteq> backslash \<Longrightarrow> \<not> special_char c \<Longrightarrow> closed_piece (c # p) \<longleftrightarrow> closed_piece p"
  by (auto simp: closed_piece_def special_char_def)

lemma closed_skip_escaped: "closed_piece (backslash # c # p) \<longleftrightarrow> closed_piece p"
  by (simp add: closed_piece_def)

lemma closed_skip: "closed_piece q \<Longrightarrow> closed_piece (q @ p) \<longleftrightarrow> closed_piece p"
  by (simp add: closed_piece_def)

lemma closed_skip_code: "plain s \<Longrightarrow> closed_piece (code_span s @ p) \<longleftrightarrow> closed_piece p"
  "plain s \<Longrightarrow> closed_piece (code_span s)"
  by (simp_all add: closed_code closed_skip)

lemmas closed_line = closed_skip_char closed_skip_escaped closed_skip_code closed_skip special_char_def

section \<open>Pictures\<close>

text \<open>The pictures of the messages, as the UTF-8 bytes of their code points.\<close>

definition pic_green :: string where "pic_green = [CHR 0xF0, CHR 0x9F, CHR 0x9F, CHR 0xA2]"
definition pic_red :: string where "pic_red = [CHR 0xF0, CHR 0x9F, CHR 0x94, CHR 0xB4]"
definition pic_yellow :: string where "pic_yellow = [CHR 0xF0, CHR 0x9F, CHR 0x9F, CHR 0xA1]"
definition pic_white :: string where "pic_white = [CHR 0xE2, CHR 0x9A, CHR 0xAA]"
definition pic_check :: string where "pic_check = [CHR 0xE2, CHR 0x9C, CHR 0x85]"
definition pic_cross :: string where "pic_cross = [CHR 0xE2, CHR 0x9D, CHR 0x8C]"
definition pic_warning :: string where "pic_warning = [CHR 0xE2, CHR 0x9A, CHR 0xA0, CHR 0xEF, CHR 0xB8, CHR 0x8F]"
definition pic_timer :: string where "pic_timer = [CHR 0xE2, CHR 0x8F, CHR 0xB1]"
definition pic_siren :: string where "pic_siren = [CHR 0xF0, CHR 0x9F, CHR 0x9A, CHR 0xA8]"
definition pic_antenna :: string where "pic_antenna = [CHR 0xF0, CHR 0x9F, CHR 0x93, CHR 0xA1]"
definition pic_bullet :: string where "pic_bullet = [CHR 0xE2, CHR 0x80, CHR 0xA2]"
definition pic_chart :: string where "pic_chart = [CHR 0xF0, CHR 0x9F, CHR 0x93, CHR 0x8A]"
definition pic_robot :: string where "pic_robot = [CHR 0xF0, CHR 0x9F, CHR 0xA4, CHR 0x96]"
definition pic_dash :: string where "pic_dash = [CHR 0xE2, CHR 0x80, CHR 0x94]"
definition pic_no_entry :: string where "pic_no_entry = [CHR 0xE2, CHR 0x9B, CHR 0x94]"
definition pic_mailbox :: string where "pic_mailbox = [CHR 0xF0, CHR 0x9F, CHR 0x93, CHR 0xAD]"
definition pic_rising :: string where "pic_rising = [CHR 0xF0, CHR 0x9F, CHR 0x93, CHR 0x88]"
definition pic_clipboard :: string where "pic_clipboard = [CHR 0xF0, CHR 0x9F, CHR 0x93, CHR 0x8B]"
definition pic_gear :: string where "pic_gear = [CHR 0xE2, CHR 0x9A, CHR 0x99, CHR 0xEF, CHR 0xB8, CHR 0x8F]"
definition pic_arrows :: string where "pic_arrows = [CHR 0xF0, CHR 0x9F, CHR 0x94, CHR 0x84]"

lemmas pic_defs = pic_green_def pic_red_def pic_yellow_def pic_white_def pic_check_def pic_cross_def pic_warning_def
  pic_timer_def pic_siren_def pic_antenna_def pic_bullet_def pic_chart_def pic_robot_def pic_dash_def pic_no_entry_def
  pic_mailbox_def pic_rising_def pic_clipboard_def pic_gear_def pic_arrows_def

lemma closed_chars: "list_all (\<lambda>c. c \<noteq> backslash \<and> \<not> special_char c) s \<Longrightarrow> closed_piece s"
  by (induction s) (auto intro: closed_char)

lemma closed_pics [simp]: "closed_piece pic_green" "closed_piece pic_red" "closed_piece pic_yellow" "closed_piece pic_white"
  "closed_piece pic_check" "closed_piece pic_cross" "closed_piece pic_warning" "closed_piece pic_timer" "closed_piece pic_siren"
  "closed_piece pic_antenna" "closed_piece pic_bullet" "closed_piece pic_chart" "closed_piece pic_robot" "closed_piece pic_dash"
  "closed_piece pic_no_entry" "closed_piece pic_mailbox" "closed_piece pic_rising" "closed_piece pic_clipboard"
  "closed_piece pic_gear" "closed_piece pic_arrows"
  by (rule closed_chars, simp add: pic_defs special_char_def)+

end
