(* ===== verification/Notify.thy ===== *)
theory Notify
  imports Execution Strategy Markdown
begin

text \<open>
  The notifications (\<open>src/app/notifications\<close>): the dispatch of an event to the enabled backends, what each
  does with the answer of its service, the texts for Telegram, and the embeds for Discord.  The events are the outputs of the
  executor; the details of a rejection and the text of an exception, which the model leaves out, are arguments.

  The lemmas show that a notification never raises and reaches every enabled backend, that the texts obey the marks of the service, what
  can be read from them, and that escaping can be undone.
\<close>

section \<open>Dispatch\<close>

datatype backend = TelegramBackend | DiscordBackend

definition enabled_backends :: "settings \<Rightarrow> backend list" where
  "enabled_backends s = (if is_telegram_enabled s then [TelegramBackend] else [])
     @ (if is_discord_enabled s then [DiscordBackend] else [])"

text \<open>\<open>notify\<close>: an exception of a backend is logged.\<close>

fun notify :: "('e \<Rightarrow> backend \<Rightarrow> 'v \<Rightarrow> unit res \<times> 'e) \<Rightarrow> 'e \<Rightarrow> backend list \<Rightarrow> 'v \<Rightarrow> 'e" where
  "notify send_to e [] event = e"
| "notify send_to e (b # bs) event = notify send_to (snd (send_to e b event)) bs event"

text \<open>What a backend's HTTP request ends in: an answer, which is at most logged, an error of the HTTP library, or another exception.\<close>

datatype post_reply = Posted int | PostHttpError | PostRaise py_exc

definition backend_send :: "('w \<Rightarrow> 'm \<Rightarrow> post_reply \<times> 'w) \<Rightarrow> ('v \<Rightarrow> 'm res) \<Rightarrow> 'w \<Rightarrow> 'v \<Rightarrow> unit res \<times> 'w" where
  "backend_send post format w event = (case format event of
       Inl x \<Rightarrow> (Inl x, w)
     | Inr m \<Rightarrow> (case post w m of (r, w1) \<Rightarrow> ((case r of PostRaise x \<Rightarrow> Inl x | _ \<Rightarrow> Inr ()), w1)))"

section \<open>Telegram\<close>

fun escape :: "string \<Rightarrow> string" where
  "escape [] = []"
| "escape (c # cs) = (if special_char c then backslash # c # escape cs else c # escape cs)"

definition py_in :: "string \<Rightarrow> string \<Rightarrow> bool" where
  "py_in sub s = list_ex (\<lambda>i. py_startswith (drop i s) sub) [0..<Suc (length s)]"

definition opt_repr :: "pyfloat option \<Rightarrow> string" where
  "opt_repr x = (case x of None \<Rightarrow> ''None'' | Some v \<Rightarrow> py_repr v)"

definition opt_text :: "string option \<Rightarrow> string" where
  "opt_text x = (case x of None \<Rightarrow> ''None'' | Some s \<Rightarrow> s)"

text \<open>The score and the number of factors, from the tags of a trade.\<close>

definition shown_score :: "string list \<Rightarrow> string" where
  "shown_score tags = (case List.find (\<lambda>t. py_startswith t ''CONFLUENCE:'') tags of
       None \<Rightarrow> ''?''
     | Some t \<Rightarrow> (case py_split (CHR '':'') t of a # b # r \<Rightarrow> b | _ \<Rightarrow> []))"

definition shown_factors :: "string list \<Rightarrow> nat" where
  "shown_factors tags =
     (let factor_tags = filter (\<lambda>t. \<not> py_startswith t ''CONFLUENCE:'') tags
      in length (filter (\<lambda>t. t \<noteq> ''SESSION_OK'' \<and> \<not> py_in ''FVG'' t) factor_tags))"

definition fmt_trade_open :: "trade \<Rightarrow> string" where
  "fmt_trade_open t = py_join [newline]
     [(if t_direction t = LONG then pic_green else pic_red) @ '' *TRADE OPENED*'',
      ''Symbol: '' @ code_span (t_symbol t),
      ''Direction: '' @ code_span (dir_value (t_direction t)),
      ''Entry: '' @ code_span (py_repr (t_entry_price t)),
      ''SL: '' @ code_span (py_repr (t_stop_loss t)) @ '' '' @ [backslash] @ ''| TP: '' @ code_span (py_repr (t_take_profit t)),
      ''Lots: '' @ code_span (py_repr (t_quantity t)) @ '' '' @ [backslash] @ ''| RR: '' @ code_span (opt_repr (t_rr_ratio t)),
      ''Confluence: '' @ code_span (shown_score (t_structure_tags t) @ ''/100'') @ '' '' @ pic_bullet @ '' ''
        @ code_span (digits10 (shown_factors (t_structure_tags t)) @ ''/5 factors''),
      ''Session: '' @ code_span (t_session t)]"

definition fmt_trade_close :: "trade \<Rightarrow> string" where
  "fmt_trade_close t =
     (let status = ts_value (t_status t) in py_join [newline]
     [(if py_in ''WIN'' status then pic_check else if py_in ''LOSS'' status then pic_cross else pic_white) @ '' *TRADE CLOSED*'',
      ''Symbol: '' @ code_span (t_symbol t),
      ''PnL: '' @ code_span (case t_pnl t of None \<Rightarrow> ''None'' | Some pnl \<Rightarrow> fmt_fixed 2 pnl),
      ''Status: '' @ code_span status,
      ''Reason: '' @ code_span (opt_text (t_exit_reason t))])"

fun reason_value :: "risk_reason \<Rightarrow> string" where
  "reason_value R_OK = ''OK''"
| "reason_value DAILY_TRADE_LIMIT = ''DAILY_TRADE_LIMIT''"
| "reason_value DAILY_LOSS_LIMIT = ''DAILY_LOSS_LIMIT''"
| "reason_value CONSECUTIVE_LOSSES = ''CONSECUTIVE_LOSSES''"
| "reason_value TOTAL_DRAWDOWN = ''TOTAL_DRAWDOWN''"
| "reason_value SPREAD_TOO_WIDE = ''SPREAD_TOO_WIDE''"
| "reason_value INVALID_SIGNAL = ''INVALID_SIGNAL''"
| "reason_value SIZE_TOO_SMALL = ''SIZE_TOO_SMALL''"
| "reason_value DISABLED = ''DISABLED''"
| "reason_value CONSISTENCY_RULE = ''CONSISTENCY_RULE''"

definition fmt_risk_reject :: "string \<Rightarrow> risk_reason \<Rightarrow> string \<Rightarrow> string" where
  "fmt_risk_reject symb reason detail =
     escape (pic_warning @ '' SIGNAL REJECTED'' @ [newline] @ ''Symbol: '' @ symb @ [newline]
       @ ''Reason: '' @ reason_value reason @ [newline] @ ''Detail: '' @ detail)"

text \<open>The last line is not an f-string, so that it shows the name of the variable.\<close>

definition fmt_semi_auto :: "string \<Rightarrow> signal \<Rightarrow> pyfloat \<Rightarrow> pyfloat \<Rightarrow> string" where
  "fmt_semi_auto pid sg lots ttl = py_join [newline]
     [pic_yellow @ '' *SETUP DETECTED '' @ [backslash] @ ''- CONFIRM?*'',
      ''ID: '' @ code_span pid,
      ''Symbol: '' @ code_span (sg_symbol sg) @ '' '' @ [backslash] @ ''| Dir: '' @ code_span (dir_value (sg_direction sg)),
      ''Entry: '' @ code_span (py_repr (sg_entry sg)),
      ''SL: '' @ code_span (py_repr (sg_sl sg)) @ '' '' @ [backslash] @ ''| TP: '' @ code_span (py_repr (sg_tp sg)),
      ''RR: '' @ code_span (py_repr (rr_ratio sg)) @ '' '' @ [backslash] @ ''| Lots: '' @ code_span (py_repr lots),
      pic_timer @ '' Expires in '' @ code_span (py_repr ttl @ ''s''),
      [],
      ''Reply '' @ code_span ''/confirm {pending_id}'' @ '' to execute'']"

definition fmt_order_failed :: "string \<Rightarrow> string \<Rightarrow> string" where
  "fmt_order_failed symb error =
     escape (pic_siren @ '' ORDER FAILED'' @ [newline] @ ''Symbol: '' @ symb @ [newline] @ ''Error: '' @ error)"

text \<open>An event of another name: its payload as lines.\<close>

definition flat_dict :: "(string \<times> string) list \<Rightarrow> string" where
  "flat_dict d = py_join [newline] (map (\<lambda>(k, v). ''  '' @ k @ '': '' @ v) d)"

definition fmt_other :: "string \<Rightarrow> (string \<times> string) list \<Rightarrow> string" where
  "fmt_other event d = escape (pic_antenna @ '' '' @ event @ [newline] @ flat_dict d)"

text \<open>\<open>_format\<close> of the events the executor sends; a trade that is only persisted is not an event.\<close>

fun telegram_format :: "string \<Rightarrow> string \<Rightarrow> pyfloat \<Rightarrow> exec_output \<Rightarrow> string option" where
  "telegram_format detail error ttl (NotifyTradeOpen t) = Some (fmt_trade_open t)"
| "telegram_format detail error ttl (NotifyTradeClose t) = Some (fmt_trade_close t)"
| "telegram_format detail error ttl (NotifyRiskReject symb reason) = Some (fmt_risk_reject symb reason detail)"
| "telegram_format detail error ttl (NotifyPending pid sg lots) = Some (fmt_semi_auto pid sg lots ttl)"
| "telegram_format detail error ttl (NotifyOrderFailed symb x) = Some (fmt_order_failed symb error)"
| "telegram_format detail error ttl (PersistTrade t) = None"

section \<open>Discord\<close>

datatype payload_value = Text string | Nested

record embed =
  em_title :: string
  em_color :: int
  em_fields :: "(string \<times> string) list"
  em_footer :: string

definition color_of :: "string \<Rightarrow> int" where
  "color_of event = (case map_of [(''trade_open'', 0x00FF00), (''trade_close'', 0xFF6600), (''risk_reject'', 0xFFCC00),
     (''semi_auto_pending'', 0x3399FF), (''order_failed'', 0xFF0000)] event of None \<Rightarrow> 0x808080 | Some c \<Rightarrow> c)"

definition title_of :: "string \<Rightarrow> string" where
  "title_of event = (case map_of [(''trade_open'', pic_green @ '' Trade Opened''), (''trade_close'', pic_chart @ '' Trade Closed''),
     (''risk_reject'', pic_warning @ '' Signal Rejected''), (''semi_auto_pending'', pic_yellow @ '' Setup Detected''),
     (''order_failed'', pic_siren @ '' Order Failed'')] event of None \<Rightarrow> pic_antenna @ '' '' @ event | Some s \<Rightarrow> s)"

text \<open>\<open>str.title\<close> on ASCII: a letter is upper case after a character that is none, and lower case after one.\<close>

definition is_letter :: "char \<Rightarrow> bool" where
  "is_letter c \<longleftrightarrow> (let n = of_char (lower_char c) :: nat in 97 \<le> n \<and> n \<le> 122)"

fun title_from :: "bool \<Rightarrow> string \<Rightarrow> string" where
  "title_from prev [] = []"
| "title_from prev (c # cs) = (if prev then lower_char c else upper_char c) # title_from (is_letter c) cs"

definition field_name :: "string \<Rightarrow> string" where
  "field_name key = title_from False (map (\<lambda>c. if c = CHR ''_'' then CHR '' '' else c) key)"

text \<open>The loop over the payload, with the number of fields so far.\<close>

fun embed_from :: "nat \<Rightarrow> (string \<times> payload_value) list \<Rightarrow> (string \<times> string) list" where
  "embed_from n [] = []"
| "embed_from n ((key, v) # rest) =
     (if key = ''structure_state'' then embed_from n rest
      else (field_name key, case v of Text t \<Rightarrow> code_span t | Nested \<Rightarrow> ''...'')
             # (if n + 1 \<ge> 12 then [] else embed_from (n + 1) rest))"

definition build_embed :: "string \<Rightarrow> (string \<times> payload_value) list \<Rightarrow> embed" where
  "build_embed event p = \<lparr>em_title = title_of event, em_color = color_of event, em_fields = embed_from 0 p,
     em_footer = ''prop-firm-scalp''\<rparr>"

section \<open>Lemmas\<close>

lemma notify_all: "notify send_to e bs event = foldl (\<lambda>e b. snd (send_to e b event)) e bs"
  by (induction send_to e bs event rule: notify.induct) simp_all

text \<open>Every backend gets the event once, whether or not the others raise.\<close>

lemma notify_reaches: "notify (\<lambda>seen b v. (f seen b v, seen @ [(b, v)])) [] bs event = map (\<lambda>b. (b, event)) bs"
proof -
  have "notify (\<lambda>seen b v. (f seen b v, seen @ [(b, v)])) s bs event = s @ map (\<lambda>b. (b, event)) bs" for s
    by (induction bs arbitrary: s) simp_all
  then show ?thesis by simp
qed

fun unescape :: "string \<Rightarrow> string" where
  "unescape [] = []"
| "unescape [c] = [c]"
| "unescape (c # d # cs) = (if c = backslash \<and> special_char d then d # unescape cs else c # unescape (d # cs))"

text \<open>Escaping leaves the backslash bare.\<close>

lemma backslash_not_special: "\<not> special_char backslash"
  by (simp add: special_char_def)

lemma unescape_escape: "backslash \<notin> set s \<Longrightarrow> unescape (escape s) = s"
proof (induction s)
  case (Cons c cs)
  show ?case
  proof (cases "special_char c")
    case False
    then show ?thesis using Cons by (cases "escape cs") auto
  qed (use Cons in simp)
qed simp

lemma embed_from_length: "n < 12 \<Longrightarrow> length (embed_from n p) \<le> 12 - n"
proof (induction n p rule: embed_from.induct)
  case (2 n key v rest)
  then show ?case by (cases "n + 1 \<ge> 12") auto
qed simp

lemma embed_limit: "length (em_fields (build_embed event p)) \<le> 12"
  using embed_from_length [of 0 p] by (simp add: build_embed_def)

section \<open>Marks\<close>

lemma closed_escape: "backslash \<notin> set s \<Longrightarrow> closed_piece (escape s)"
proof (induction s)
  case (Cons c cs)
  then show ?case by (cases "special_char c") (auto intro: closed_char closed_escaped)
qed simp

lemma plain_dir [simp]: "plain (dir_value d)"
  by (cases d) simp_all

lemma plain_status [simp]: "plain (ts_value s)"
  by (cases s) simp_all

lemma plain_opt [simp]: "plain (opt_repr x)" "\<forall>s. x' = Some s \<longrightarrow> plain s \<Longrightarrow> plain (opt_text x')"
  by (auto simp: opt_repr_def opt_text_def split: option.split)

lemma closed_titles: "closed_piece ''*TRADE OPENED*''" "closed_piece ''*TRADE CLOSED*''"
  "closed_piece (''*SETUP DETECTED '' @ backslash # ''- CONFIRM?*'')"
  by (simp_all add: closed_piece_def special_char_def)

lemma plain_split: "plain s \<Longrightarrow> list_all plain (py_split c s)"
  by (induction c s rule: py_split.induct) (auto split: list.splits)

lemma plain_score: "list_all plain tags \<Longrightarrow> plain (shown_score tags)"
proof -
  assume a: "list_all plain tags"
  have "plain (case py_split (CHR '':'') t of a # b # r \<Rightarrow> b | _ \<Rightarrow> [])" if "plain t" for t
    using plain_split [OF that, of "CHR '':''"] by (auto split: list.split)
  with a show ?thesis
    by (auto simp: shown_score_def find_Some_iff list_all_length split: option.split)
qed

text \<open>The values a text shows as they are.\<close>

definition shows_plain :: "exec_output \<Rightarrow> bool" where
  "shows_plain o_ev = (case o_ev of
       NotifyTradeOpen t \<Rightarrow> plain (t_symbol t) \<and> plain (t_session t) \<and> list_all plain (t_structure_tags t)
     | NotifyTradeClose t \<Rightarrow> plain (t_symbol t) \<and> plain (opt_text (t_exit_reason t))
     | NotifyRiskReject symb reason \<Rightarrow> backslash \<notin> set symb
     | NotifyPending pid sg lots \<Rightarrow> plain pid \<and> plain (sg_symbol sg)
     | NotifyOrderFailed symb x \<Rightarrow> backslash \<notin> set symb
     | PersistTrade t \<Rightarrow> True)"

lemma closed_trade_open:
  assumes "plain (t_symbol t)" "plain (t_session t)" "list_all plain (t_structure_tags t)"
  shows "closed_piece (fmt_trade_open t)"
  unfolding fmt_trade_open_def
  by (rule closed_join) (use assms in \<open>simp_all add: closed_line closed_titles plain_score\<close>)

lemma closed_trade_close:
  assumes "plain (t_symbol t)" "plain (opt_text (t_exit_reason t))"
  shows "closed_piece (fmt_trade_close t)"
  unfolding fmt_trade_close_def Let_def
  by (rule closed_join) (use assms in \<open>auto simp: closed_line closed_titles split: option.split\<close>)

lemma closed_semi_auto:
  assumes "plain pid" "plain (sg_symbol sg)"
  shows "closed_piece (fmt_semi_auto pid sg lots ttl)"
  unfolding fmt_semi_auto_def
  by (rule closed_join) (use assms closed_titles in \<open>simp_all add: closed_line\<close>)

section \<open>What a reader gets\<close>

text \<open>The values in code of a text, in order.\<close>

function code_values :: "string \<Rightarrow> string list" where
  "code_values [] = []"
| "code_values (c # cs) = (if c = backtick then takeWhile (\<lambda>d. d \<noteq> backtick) cs # code_values (drop 1 (dropWhile (\<lambda>d. d \<noteq> backtick) cs))
     else code_values cs)"
  by pat_completeness auto
termination
proof (relation "measure length")
  show "(drop 1 (dropWhile (\<lambda>d. d \<noteq> backtick) cs), c # cs) \<in> measure length" for c and cs :: string
    using length_dropWhile_le [of "\<lambda>d. d \<noteq> backtick" cs] by simp
qed simp_all

lemma code_values_char: "c \<noteq> backtick \<Longrightarrow> code_values (c # cs) = code_values cs"
  by simp

lemma code_values_text: "backtick \<notin> set s \<Longrightarrow> code_values (s @ p) = code_values p"
  by (induction s) auto

lemma code_values_code: "plain s \<Longrightarrow> code_values (code_span s @ p) = s # code_values p" "plain s \<Longrightarrow> code_values (code_span s) = [s]"
  by (auto simp: code_span_def plain_def takeWhile_append dropWhile_append list_all_iff)

lemma pics_text: "backtick \<notin> set pic_green" "backtick \<notin> set pic_red" "backtick \<notin> set pic_check" "backtick \<notin> set pic_cross"
  "backtick \<notin> set pic_white" "backtick \<notin> set pic_bullet" "backtick \<notin> set pic_yellow" "backtick \<notin> set pic_timer"
  by (simp_all add: pic_defs)

lemma code_values_if: "code_values ((if b then x else y) @ p) = (if b then code_values (x @ p) else code_values (y @ p))"
  by simp

lemmas code_values_line = code_values_char code_values_text code_values_code code_values_if pics_text

lemma trade_open_values:
  assumes "plain (t_symbol t)" "plain (t_session t)" "list_all plain (t_structure_tags t)"
  shows "code_values (fmt_trade_open t) =
    [t_symbol t, dir_value (t_direction t), py_repr (t_entry_price t), py_repr (t_stop_loss t), py_repr (t_take_profit t),
     py_repr (t_quantity t), opt_repr (t_rr_ratio t), shown_score (t_structure_tags t) @ ''/100'',
     digits10 (shown_factors (t_structure_tags t)) @ ''/5 factors'', t_session t]"
  unfolding fmt_trade_open_def
  using assms plain_score [OF assms(3)] by (simp add: code_values_line del: code_values.simps(2))

lemma trade_close_values:
  assumes "plain (t_symbol t)" "plain (opt_text (t_exit_reason t))"
  shows "code_values (fmt_trade_close t) =
    [t_symbol t, case t_pnl t of None \<Rightarrow> ''None'' | Some pnl \<Rightarrow> fmt_fixed 2 pnl, ts_value (t_status t), opt_text (t_exit_reason t)]"
  unfolding fmt_trade_close_def Let_def
  using assms by (simp add: code_values_line del: code_values.simps(2) split: option.split)

lemma semi_auto_values:
  assumes "plain pid" "plain (sg_symbol sg)"
  shows "code_values (fmt_semi_auto pid sg lots ttl) =
    [pid, sg_symbol sg, dir_value (sg_direction sg), py_repr (sg_entry sg), py_repr (sg_sl sg), py_repr (sg_tp sg), py_repr (rr_ratio sg),
     py_repr lots, py_repr ttl @ ''s'', ''/confirm {pending_id}'']"
  unfolding fmt_semi_auto_def
  using assms by (simp add: code_values_line del: code_values.simps(2))

text \<open>The tags of a record count its factors, but for the session.\<close>

lemma confluence_tag: "py_startswith (''CONFLUENCE:'' @ s) ''CONFLUENCE:''"
    "py_split (CHR '':'') (''CONFLUENCE:'' @ py_str_int k) = [''CONFLUENCE'', py_str_int k]"
proof -
  have "CHR '':'' \<notin> set (py_str_int k)" by (auto simp: py_str_int_def is_digit_def dest!: digits10_digits)
  then show "py_split (CHR '':'') (''CONFLUENCE:'' @ py_str_int k) = [''CONFLUENCE'', py_str_int k]"
    using py_split_append [of "CHR '':''" "''CONFLUENCE''" "py_str_int k"] by (simp add: py_split_single)
qed (simp add: py_startswith_def)

lemma tags_not_score:
  assumes "list_all (\<lambda>t. \<not> py_startswith t ''CONFLUENCE:'') tags" "py_startswith x ''CONFLUENCE:''"
    "py_split (CHR '':'') x = [a, v]"
  shows "shown_score (tags @ [x]) = v \<and> shown_factors (tags @ [x]) = shown_factors tags"
proof -
  have "List.find (\<lambda>t. py_startswith t ''CONFLUENCE:'') (tags @ [x]) = Some x"
    using assms(1,2) by (induction tags) auto
  then show ?thesis using assms(2,3) by (simp add: shown_score_def shown_factors_def)
qed

lemma shown_factors_append: "shown_factors (xs @ ys) = shown_factors xs + shown_factors ys" "shown_factors [] = 0"
  "shown_factors (t # u # ts) = shown_factors [t] + shown_factors (u # ts)"
  by (simp_all add: shown_factors_def)

lemma shown_factors_one: "list_all (\<lambda>t. shown_factors [t] = 1) [''SWEEP_LOW'', ''SWEEP_HIGH'', ''REJECTION_BULL'', ''REJECTION_BEAR'',
    ''BOS_HTF_ALIGNED'', ''BOS_NEUTRAL_HTF'', ''OB_DEMAND'', ''OB_SUPPLY'']"
  "list_all (\<lambda>t. shown_factors [t] = 0) [''SESSION_OK'', ''FVG_BULLISH'', ''FVG_BEARISH'']"
  by code_simp+

lemma shown_factors_opt: "shown_factors (if b then [t] else []) = (if b then shown_factors [t] else 0)"
  "shown_factors (if b then [t] else if b' then [t'] else []) = (if b then shown_factors [t] else if b' then shown_factors [t'] else 0)"
  by (simp_all add: shown_factors_append)

lemma score_shown: "shown_factors (cf_tags (score_long st c es b)) + 1 = cf_factors_hit (score_long st c es b)"
  "shown_factors (cf_tags (score_short st c es b)) + 1 = cf_factors_hit (score_short st c es b)"
  using shown_factors_one
  by (simp_all add: score_long_def score_short_def Let_def score_defs shown_factors_append shown_factors_opt count_hits_def)

text \<open>The score and the factors of the record behind a signal.\<close>

lemma score_not_tag: "list_all (\<lambda>t. \<not> py_startswith t ''CONFLUENCE:'') (cf_tags (score_long st c es b))"
  "list_all (\<lambda>t. \<not> py_startswith t ''CONFLUENCE:'') (cf_tags (score_short st c es b))"
  by (simp_all add: score_long_def score_short_def Let_def py_startswith_def)

lemma score_plain: "list_all plain (cf_tags (score_long st c es b))" "list_all plain (cf_tags (score_short st c es b))"
  by (simp_all add: score_long_def score_short_def Let_def)

definition signal_record :: "strategy \<Rightarrow> candle \<Rightarrow> signal \<Rightarrow> confluence" where
  "signal_record st c sg =
     (let st' = fed st (st_series st) c; es = fst (ms_update (st_ms st) c)
      in (case sg_direction sg of LONG \<Rightarrow> score_long | SHORT \<Rightarrow> score_short) st' c es (get_htf_bias (st_ms st')))"

lemma signal_record_side: "\<exists>st' es b. signal_record st c sg = score_long st' c es b \<or> signal_record st c sg = score_short st' c es b"
  by (cases "sg_direction sg") (auto simp: signal_record_def Let_def)

lemma signal_tags:
  assumes "snd (fst (on_candle st c)) = Inr (Some sg)"
  shows "sg_tags sg = cf_tags (signal_record st c sg) @ [''CONFLUENCE:'' @ py_str_int (cf_score (signal_record st c sg))]"
  using assms
proof (cases rule: on_candle_Some)
  case (1 s)
  from 1(3) show ?thesis
  proof (cases rule: evaluate_Some)
    case (long e)
    then show ?thesis using build_signal_long_Some(2,9) [OF long(5)] by (simp add: signal_record_def Let_def score_fed [of st s])
  next
    case (short e)
    then show ?thesis using build_signal_short_Some(2,9) [OF short(5)] by (simp add: signal_record_def Let_def score_fed [of st s])
  qed
qed
section \<open>The texts\<close>

lemma closed_risk_reject:
  assumes "backslash \<notin> set symb" "backslash \<notin> set detail"
  shows "closed_piece (fmt_risk_reject symb reason detail)"
  unfolding fmt_risk_reject_def
  by (rule closed_escape) (use assms in \<open>cases reason; simp add: pic_warning_def\<close>)

lemma closed_order_failed:
  assumes "backslash \<notin> set symb" "backslash \<notin> set error"
  shows "closed_piece (fmt_order_failed symb error)"
  unfolding fmt_order_failed_def
  by (rule closed_escape) (use assms in \<open>simp add: pic_siren_def\<close>)

lemma telegram_text_marked:
  assumes "shows_plain ev" "backslash \<notin> set detail" "backslash \<notin> set error" "telegram_format detail error ttl ev = Some text"
  shows "well_marked text"
proof -
  have "closed_piece text"
    using assms
    by (cases ev) (auto simp: shows_plain_def intro: closed_trade_open closed_trade_close closed_semi_auto
        closed_risk_reject closed_order_failed)
  then show ?thesis by (rule closed_well_marked)
qed

text \<open>
  The message of a trade opened from a signal of the strategy shows the score of the record behind the signal, and one factor
  less than the record counts: the session, which the record counts, is left out.
\<close>

theorem telegram_factor_missing:
  assumes "snd (fst (on_candle st c)) = Inr (Some sg)" "t_structure_tags t = sg_tags sg" "plain (t_symbol t)" "plain (t_session t)"
  shows "\<exists>n. cf_factors_hit (signal_record st c sg) = Suc n \<and> code_values (fmt_trade_open t) ! 8 = digits10 n @ ''/5 factors'' \<and>
    code_values (fmt_trade_open t) ! 7 = py_str_int (cf_score (signal_record st c sg)) @ ''/100''"
proof -
  let ?r = "signal_record st c sg"
  have tags: "list_all (\<lambda>t. \<not> py_startswith t ''CONFLUENCE:'') (cf_tags ?r)" "shown_factors (cf_tags ?r) + 1 = cf_factors_hit ?r"
    "list_all plain (cf_tags ?r)"
    using signal_record_side [of st c sg] score_not_tag score_shown score_plain by metis+
  note st = signal_tags [OF assms(1)]
  have shown: "shown_score (t_structure_tags t) = py_str_int (cf_score ?r)"
    "shown_factors (t_structure_tags t) = cf_factors_hit ?r - 1"
    using tags_not_score [OF tags(1) confluence_tag] tags(2) unfolding assms(2) st by (metis, metis add_diff_cancel_right')
  have "list_all plain (t_structure_tags t)"
    unfolding assms(2) st using tags(3) by simp
  then show ?thesis
    unfolding trade_open_values [OF assms(3,4) \<open>list_all plain (t_structure_tags t)\<close>] shown using tags(2)
    by (intro exI [of _ "cf_factors_hit ?r - 1"]) simp
qed

text \<open>Of the three factors of the demonstration's signal two are shown.\<close>

lemma demo_record:
  assumes "snd (fst (on_candle demo_strategy demo_bar)) = Inr (Some sg)"
  shows "cf_factors_hit (signal_record demo_strategy demo_bar sg) = 3 \<and> cf_score (signal_record demo_strategy demo_bar sg) = 70"
  using assms
proof (cases rule: on_candle_Some)
  case (1 s)
  from 1(3) have "sg_direction sg = LONG"
  proof (cases rule: evaluate_Some)
    case (long e)
    then show ?thesis using build_signal_long_Some(2) [OF long(5)] by simp
  qed (simp add: demo_update)
  then show ?thesis
    by (simp add: signal_record_def Let_def demo_score demo_update get_htf_bias_def)
qed

theorem telegram_factor_missing_witness:
  "\<exists>sg. snd (fst (on_candle demo_strategy demo_bar)) = Inr (Some sg) \<and>
     code_values (fmt_trade_open (demo_loss\<lparr>t_structure_tags := sg_tags sg\<rparr>)) ! 8 = ''2/5 factors''"
proof -
  obtain sg where sg: "snd (fst (on_candle demo_strategy demo_bar)) = Inr (Some sg)" using demo_signal by blast
  obtain n where "cf_factors_hit (signal_record demo_strategy demo_bar sg) = Suc n"
    "code_values (fmt_trade_open (demo_loss\<lparr>t_structure_tags := sg_tags sg\<rparr>)) ! 8 = digits10 n @ ''/5 factors''"
    using telegram_factor_missing [OF sg, of "demo_loss\<lparr>t_structure_tags := sg_tags sg\<rparr>"] by (auto simp: demo_loss_def)
  moreover have "digits10 2 = ''2''" by code_simp
  ultimately show ?thesis using sg demo_record [OF sg] by auto
qed

text \<open>
  C33. The levels of an opened trade can be read back from its message exactly, and so can those of a signal that waits for
  confirmation: every number is shown with as many digits as determine the float.  The profit or loss of a closed trade reads back
  rounded to cents.
\<close>

theorem telegram_levels_exact:
  assumes "plain (t_symbol t)" "plain (t_session t)" "list_all plain (t_structure_tags t)" "plain (opt_text (t_exit_reason t))"
    and "plain pid" "plain (sg_symbol sg)"
    and "list_all is_float [t_entry_price t, t_stop_loss t, t_take_profit t, t_quantity t]"
    and "list_all is_float [sg_entry sg, sg_sl sg, sg_tp sg, lots]"
  shows "map py_float_arg (take 4 (drop 2 (code_values (fmt_trade_open t)))) =
      map Num [t_entry_price t, t_stop_loss t, t_take_profit t, t_quantity t] \<and>
    map py_float_arg (take 3 (drop 3 (code_values (fmt_semi_auto pid sg lots ttl)))) = map Num [sg_entry sg, sg_sl sg, sg_tp sg] \<and>
    py_float_arg (code_values (fmt_semi_auto pid sg lots ttl) ! 7) = Num lots \<and>
    (\<forall>pnl. t_pnl t = Some pnl \<longrightarrow>
       py_float_arg (code_values (fmt_trade_close t) ! 1) = Num (fround 2 pnl))"
  using fmt_fixed_reads [of 2] assms(7,8)
  by (auto simp: trade_open_values [OF assms(1-3)] trade_close_values [OF assms(1,4)] semi_auto_values [OF assms(5,6)] float_of_repr)

theorem telegram_levels_exact_witness:
  "map py_float_arg (take 4 (drop 2 (code_values (fmt_trade_open demo_loss)))) = map Num [108, 97, 122, 1]"
  using telegram_levels_exact [of demo_loss "''p1''" demo_btc_signal 1 90] is_float_of_int [of 108] is_float_of_int [of 97]
    is_float_of_int [of 122] is_float_of_int [of 1] is_float_of_int [of 100]
  by (simp add: demo_loss_def demo_btc_signal_def opt_text_def)

end
