(* ===== verification/Messages.thy ===== *)
theory Messages
  imports Notify
begin

text \<open>
  The types of the messages: which values reach a text, followed from the strategy through the executor to the notifications.  A
  value is plain when it has no backtick and no backslash; the symbols, sessions and tags of the strategy are plain, the executor only passes
  them on, and so every text it sends obeys the marks of the service.

  The lemmas are those of a type system: each operation preserves the typing of the executor's state, and its outputs are typed.
\<close>

section \<open>The typing\<close>

definition plain_signal :: "signal \<Rightarrow> bool" where
  "plain_signal sg \<longleftrightarrow> plain (sg_symbol sg) \<and> plain (sg_session sg) \<and> list_all plain (sg_tags sg)"

definition plain_trade :: "trade \<Rightarrow> bool" where
  "plain_trade t \<longleftrightarrow> plain (t_symbol t) \<and> plain (t_session t) \<and> list_all plain (t_structure_tags t) \<and> plain (opt_text (t_exit_reason t))"

definition all_values :: "('v \<Rightarrow> bool) \<Rightarrow> ('k \<rightharpoonup> 'v) \<Rightarrow> bool" where
  "all_values P m \<longleftrightarrow> (\<forall>v \<in> ran m. P v)"

definition plain_exec :: "'b executor \<Rightarrow> bool" where
  "plain_exec ex \<longleftrightarrow> all_values plain_trade (ex_open_trades ex) \<and> all_values (plain_signal \<circ> pd_signal) (ex_pending ex)"

fun plain_op :: "exec_op \<Rightarrow> bool" where
  "plain_op (XSignal sg spread env) \<longleftrightarrow> plain_signal sg \<and> plain (xe_id env)"
| "plain_op (XClose tid reason x env) \<longleftrightarrow> plain reason"
| "plain_op op \<longleftrightarrow> True"

fun plain_output :: "exec_output \<Rightarrow> bool" where
  "plain_output (NotifyTradeOpen t) \<longleftrightarrow> plain_trade t"
| "plain_output (NotifyTradeClose t) \<longleftrightarrow> plain_trade t"
| "plain_output (PersistTrade t) \<longleftrightarrow> plain_trade t"
| "plain_output (NotifyRiskReject symb r) \<longleftrightarrow> plain symb"
| "plain_output (NotifyPending pid sg lots) \<longleftrightarrow> plain pid \<and> plain_signal sg"
| "plain_output (NotifyOrderFailed symb x) \<longleftrightarrow> plain symb"

lemma plain_output_shows: "plain_output ev \<Longrightarrow> shows_plain ev"
  by (cases ev) (auto simp: shows_plain_def plain_trade_def plain_signal_def plain_def)

section \<open>Signals\<close>

lemma plain_session [simp]: "plain (session_value s)"
  by (cases s) simp_all

lemma build_session:
  "build_signal_long st c low cf = Inr (Some sg) \<Longrightarrow> sg_session sg = session_value (classify (st_sessions st) (c_timestamp c))"
  "build_signal_short st c low cf = Inr (Some sg) \<Longrightarrow> sg_session sg = session_value (classify (st_sessions st) (c_timestamp c))"
  by (auto simp: build_signal_long_def build_signal_short_def Let_def bind_res_eq_Inr signal_long_def signal_short_def mk_signal_def
      split: if_splits)

lemma signal_plain:
  assumes "snd (fst (on_candle st c)) = Inr (Some sg)" and "plain (st_symbol st)"
  shows "plain_signal sg"
  using assms(1)
proof (cases rule: on_candle_Some)
  case (1 s)
  have tags: "list_all plain (cf_tags (signal_record st c sg))"
    using signal_record_side [of st c sg] score_plain by metis
  have "plain (sg_symbol sg) \<and> plain (sg_session sg)"
    using 1(3)
  proof (cases rule: evaluate_Some)
    case (long e)
    then show ?thesis using build_signal_long_Some(3) [OF long(5)] build_session(1) [OF long(5)] assms(2) by simp
  next
    case (short e)
    then show ?thesis using build_signal_short_Some(3) [OF short(5)] build_session(2) [OF short(5)] assms(2) by simp
  qed
  then show ?thesis
    using tags by (simp add: plain_signal_def signal_tags [OF assms(1)])
qed

section \<open>Preservation\<close>

lemma all_values_simps [simp]: "all_values P Map.empty" "all_values P m \<Longrightarrow> P v \<Longrightarrow> all_values P (m(k \<mapsto> v))"
  "all_values P m \<Longrightarrow> all_values P (m(k := None))"
  by (auto simp: all_values_def ran_def)

lemma all_valuesD: "all_values P m \<Longrightarrow> m k = Some v \<Longrightarrow> P v"
  by (auto simp: all_values_def ran_def)

lemma opened_plain: "plain_signal sg \<Longrightarrow> plain_trade (opened_trade ord placed sg d slip env)"
  by (simp add: plain_signal_def plain_trade_def opened_trade_def opt_text_def)

lemma fire_plain:
  assumes "plain_exec ex" "plain_signal sg"
  shows "plain_exec (snd (fire place reg ex sg d env)) \<and> list_all plain_output (snd (fst (fire place reg ex sg d env)))"
  using assms opened_plain [OF assms(2)]
  by (auto simp: fire_def Let_def plain_signal_def plain_exec_def split: sum.split prod.split)

lemma handle_plain:
  assumes "plain_exec ex" "plain_signal sg" "plain (xe_id env)"
  shows "plain_exec (snd (handle_signal place reg ex sg spread env))
    \<and> list_all plain_output (snd (fst (handle_signal place reg ex sg spread env)))"
proof -
  have keep: "plain_exec (ex\<lparr>ex_risk := rm\<rparr>)" for rm using assms(1) by (simp add: plain_exec_def)
  show ?thesis
    using fire_plain [OF keep assms(2), of place reg] assms keep
    by (auto simp: handle_signal_def stage_semi_auto_def Let_def plain_exec_def plain_signal_def split: sum.split prod.split)
qed

lemma close_plain:
  assumes "plain_exec ex" "plain reason"
  shows "plain_exec (snd (close_trade reg ex tid reason x env)) \<and> list_all plain_output (snd (fst (close_trade reg ex tid reason x env)))"
  using assms
  by (auto simp: close_trade_def Let_def plain_exec_def plain_trade_def opt_text_def dest: all_valuesD split: option.split sum.split)

lemma confirm_plain:
  assumes "plain_exec ex"
  shows "plain_exec (snd (confirm_pending place reg ex pid env)) \<and> list_all plain_output (snd (fst (confirm_pending place reg ex pid env)))"
proof -
  have keep: "plain_exec (ex\<lparr>ex_pending := (ex_pending ex)(pid := None)\<rparr>)" using assms by (simp add: plain_exec_def)
  have "plain_signal (pd_signal p)" if "ex_pending ex pid = Some p" for p
    using assms that by (auto simp: plain_exec_def dest: all_valuesD)
  then show ?thesis
    using fire_plain [OF keep, of _ place reg] keep
    by (auto simp: confirm_pending_def Let_def split: option.split sum.split bool.split)
qed

lemma step_plain:
  assumes "plain_exec ex" "plain_op op"
  shows "plain_exec (snd (exec_step place reg ex op)) \<and> list_all plain_output (fst (exec_step place reg ex op))"
  using assms handle_plain [of ex] close_plain [of ex] confirm_plain [of ex]
  by (cases op) (simp_all add: Let_def cancel_pending_def plain_exec_def)

section \<open>Properties\<close>



end
