(* ===== verification/Bot_Texts.thy ===== *)
theory Bot_Texts
  imports Telegram_Bot Dashboard Markdown
begin

text \<open>
  The texts of the chat bot (\<open>src/app/telegram_bot.py\<close>): what each command replies, from the answer of the dashboard.  \<open>Telegram_Bot\<close>
  says which requests are made and which kinds of texts follow; here each kind gets its text, and whether it is sent
  with marks.  \<open>answers\<close> holds what the dashboard answers to the one request of a command, \<open>Inl\<close> the text of an exception; an
  answer without the fields (an error of the dashboard) counts as one with the defaults of the code's \<open>get\<close>.

  The lemmas show which replies obey the marks of the service: all but the help and a list with a closed trade.
\<close>

section \<open>Replies\<close>

datatype reply = Marked string | Unmarked string

definition help_text :: string where
  "help_text = pic_robot @ '' *PropFirm Scalp Bot*'' @ [newline, newline] @ ''Available commands:'' @ [newline, newline]
     @ ''/status '' @ pic_dash @ '' Bot status (mode, connection, balance, DD)'' @ [newline]
     @ ''/positions '' @ pic_dash @ '' Open positions'' @ [newline]
     @ ''/trades '' @ [backslash] @ ''[n'' @ [backslash] @ ''] '' @ pic_dash @ '' Recent trades (default 5, max 20)'' @ [newline]
     @ ''/performance '' @ pic_dash @ '' Performance summary'' @ [newline]
     @ ''/account '' @ pic_dash @ '' Account configuration'' @ [newline]
     @ ''/switch <env> '' @ pic_dash @ '' Switch environment (paper/demo/live)'' @ [newline]
     @ ''/setrisk <daily'' @ [backslash] @ ''_loss> <max'' @ [backslash] @ ''_trades> '' @ pic_dash @ '' Update risk params'' @ [newline]
     @ ''/help '' @ pic_dash @ '' Show this message'' @ [newline]"

definition status_text :: "status_view \<Rightarrow> string" where
  "status_text v =
     (let ws_emoji = (if sv_ws_connected v then pic_green else pic_red);
          risk_emoji = (if sv_risk_disabled v then pic_no_entry else pic_check)
      in pic_chart @ '' *Bot Status*'' @ [newline, newline]
       @ ''Mode: '' @ code_span (sv_mode v) @ [newline]
       @ ''Broker WS: '' @ ws_emoji @ '' '' @ (if sv_ws_connected v then ''Connected'' else ''Disconnected'') @ [newline]
       @ ''Risk: '' @ risk_emoji @ '' '' @ (if sv_risk_disabled v then ''DISABLED'' else ''Active'') @ [newline]
       @ ''Balance: '' @ code_span (''$'' @ fmt_commas 2 (sv_balance v)) @ [newline]
       @ ''Daily DD: '' @ code_span (fmt_percent 2 (sv_daily_drawdown_pct v)) @ [newline]
       @ ''Trades today: '' @ code_span (py_str_int (sv_trades_today v)) @ [newline])"

definition position_lines :: "trade \<Rightarrow> string" where
  "position_lines t =
     (if t_direction t = LONG then pic_green else pic_red) @ '' '' @ code_span (t_symbol t) @ '' ''
       @ dir_value (t_direction t) @ '' @ '' @ code_span (py_repr (t_entry_price t)) @ [newline]
       @ ''   SL: '' @ code_span (py_repr (t_stop_loss t)) @ '' '' @ [backslash] @ ''| TP: '' @ code_span (py_repr (t_take_profit t)) @ [newline]
       @ ''   Lots: '' @ code_span (py_repr (t_quantity t))"

definition positions_reply :: "trade list \<Rightarrow> reply" where
  "positions_reply positions =
     (if positions = [] then Unmarked (pic_mailbox @ '' No open positions'' @ [backslash] @ ''.'')
      else Marked (py_join [newline] ((pic_rising @ '' *Open Positions*'' @ [newline]) # map position_lines positions)))"

definition trade_line :: "trade_view \<Rightarrow> string" where
  "trade_line v =
     (let pnl = (case tv_pnl v of None \<Rightarrow> 0 | Some p \<Rightarrow> p)
      in (if pnl > 0 then pic_check else if pnl < 0 then pic_cross else pic_white) @ '' '' @ code_span (tv_symbol v) @ '' ''
       @ tv_direction v @ '' PnL: '' @ code_span (''$'' @ fmt_plus 2 pnl) @ '' ''
       @ [backslash] @ ''('' @ tv_status v @ [backslash] @ '')'')"

definition trades_reply :: "trade_view list \<Rightarrow> reply" where
  "trades_reply trades =
     (if trades = [] then Unmarked (pic_mailbox @ '' No trades recorded yet'' @ [backslash] @ ''.'')
      else Marked (py_join [newline]
        ((pic_clipboard @ '' *Last '' @ digits10 (length trades) @ '' Trades*'' @ [newline]) # map trade_line trades)))"

definition performance_text :: "perf_view \<Rightarrow> string" where
  "performance_text v = pic_chart @ '' *Performance Summary*'' @ [newline, newline]
     @ ''Total trades: '' @ code_span (digits10 (pf_total_trades v)) @ [newline]
     @ ''Winrate: '' @ code_span (fmt_percent 1 (pf_winrate v)) @ [newline]
     @ ''Profit Factor: '' @ code_span (fmt_fixed 2 (pf_profit_factor v)) @ [newline]
     @ ''Total PnL: '' @ code_span (''$'' @ fmt_plus_commas 2 (pf_total_pnl v)) @ [newline]
     @ ''Max Drawdown: '' @ code_span (fmt_percent 2 (pf_max_drawdown_pct v)) @ [newline]
     @ ''Avg R:R: '' @ code_span (fmt_fixed 2 (pf_avg_rr v)) @ [newline]"

definition account_text :: "string \<Rightarrow> account_view \<Rightarrow> string" where
  "account_text account_id v = pic_gear @ '' *Account Configuration*'' @ [newline, newline]
     @ ''Environment: '' @ code_span (av_environment v) @ [newline]
     @ ''Mode: '' @ code_span (av_mode v) @ [newline]
     @ ''Broker: '' @ code_span (av_broker v) @ [newline]
     @ ''Account ID: '' @ code_span account_id @ [newline]
     @ ''Symbols: '' @ code_span (py_join '', '' (av_symbols v)) @ [newline]"

text \<open>The answer to a request that changes something.\<close>

record put_answer =
  pa_code :: int
  pa_mode :: string
  pa_reconnected :: bool
  pa_detail :: string
  pa_error :: string

definition put_failure :: "put_answer \<Rightarrow> string" where
  "put_failure p = (if pa_detail p \<noteq> [] then pa_detail p else if pa_error p \<noteq> [] then pa_error p else ''Unknown error'')"

record answers =
  an_status :: "string + status_view"
  an_open :: "string + trade list"
  an_trades :: "string + trade_view list"
  an_performance :: "string + perf_view"
  an_account :: "string + string \<times> account_view"
  an_put :: "string + put_answer"

definition answered :: "string + 'a \<Rightarrow> int option" where
  "answered r = (case r of Inl x \<Rightarrow> None | Inr v \<Rightarrow> Some 200)"

definition answer_code :: "answers \<Rightarrow> bot_call \<Rightarrow> int option" where
  "answer_code an q = (case q of
       GetStatus \<Rightarrow> answered (an_status an) | GetOpen \<Rightarrow> answered (an_open an) | GetTrades n \<Rightarrow> answered (an_trades an)
     | GetPerformance \<Rightarrow> answered (an_performance an) | GetAccount \<Rightarrow> answered (an_account an)
     | _ \<Rightarrow> (case an_put an of Inl x \<Rightarrow> None | Inr p \<Rightarrow> Some (pa_code p)))"

text \<open>\<open>_reply_error\<close>, and the reply to a query.\<close>

definition reply_error :: "string \<Rightarrow> reply" where
  "reply_error message = Unmarked (pic_cross @ '' '' @ message)"

definition reply_view :: "string \<Rightarrow> ('a \<Rightarrow> reply) \<Rightarrow> string + 'a \<Rightarrow> reply" where
  "reply_view what f r = (case r of Inl x \<Rightarrow> reply_error (''Failed to fetch '' @ what @ '': '' @ x) | Inr v \<Rightarrow> f v)"

definition view_reply :: "answers \<Rightarrow> bot_cmd \<Rightarrow> reply" where
  "view_reply an cmd = (case cmd of
       C_status \<Rightarrow> reply_view ''status'' (\<lambda>v. Marked (status_text v)) (an_status an)
     | C_positions \<Rightarrow> reply_view ''positions'' positions_reply (an_open an)
     | C_trades \<Rightarrow> reply_view ''trades'' trades_reply (an_trades an)
     | C_performance \<Rightarrow> reply_view ''performance'' (\<lambda>v. Marked (performance_text v)) (an_performance an)
     | C_account \<Rightarrow> reply_view ''account'' (\<lambda>(i, v). Marked (account_text i v)) (an_account an)
     | _ \<Rightarrow> Marked help_text)"

definition py_bool :: "bool \<Rightarrow> string" where
  "py_bool b = (if b then ''True'' else ''False'')"

definition switch_reply :: "answers \<Rightarrow> string \<Rightarrow> bot_text \<Rightarrow> reply" where
  "switch_reply an environment kind = (case kind of
        Usage \<Rightarrow> Marked (''Usage: '' @ code_span ''/switch <paper|demo|live>'')
      | Invalid \<Rightarrow> Marked (pic_cross @ '' Invalid environment'' @ [backslash] @ ''. Use: '' @ code_span ''paper'' @ '', ''
          @ code_span ''demo'' @ '', or '' @ code_span ''live'')
      | Switching \<Rightarrow> Marked (pic_arrows @ '' Switching to '' @ code_span environment
          @ [backslash] @ ''.'' @ [backslash] @ ''.'' @ [backslash] @ ''.'')
      | _ \<Rightarrow> (case an_put an of
           Inl x \<Rightarrow> reply_error (''Switch failed: '' @ x)
         | Inr p \<Rightarrow> if pa_code p = 200 then
               Marked (pic_check @ '' Switched to '' @ code_span environment @ '' successfully'' @ [backslash] @ ''!'' @ [newline]
                 @ ''Mode: '' @ code_span (pa_mode p) @ [newline]
                 @ ''Broker reconnected: '' @ code_span (py_bool (pa_reconnected p)))
             else Marked (pic_cross @ '' Switch failed: '' @ code_span (put_failure p))))"

text \<open>The two texts for values out of range: the loss is looked at first.\<close>

definition loss_range_text :: string where
  "loss_range_text = pic_cross @ '' daily'' @ [backslash] @ ''_loss must be between 0'' @ [backslash] @ ''.001 '' @ [backslash] @ ''(0'' @ [backslash]
     @ ''.1%'' @ [backslash] @ '') and 0'' @ [backslash] @ ''.10 '' @ [backslash] @ ''(10%'' @ [backslash] @ '')''"

definition trades_range_text :: string where
  "trades_range_text = pic_cross @ '' max'' @ [backslash] @ ''_trades must be between 1 and 50''"

definition loss_in_range :: "num_arg \<Rightarrow> bool" where
  "loss_in_range x = (case x of Num dd \<Rightarrow> rnd (1 / 1000) \<le> dd \<and> dd \<le> rnd (1 / 10) | _ \<Rightarrow> False)"

definition setrisk_success :: "string list \<Rightarrow> string" where
  "setrisk_success args = (case args of
       a # b # rest \<Rightarrow> (case (py_float_arg a, py_int b) of
           (Num dd, Inr n) \<Rightarrow> pic_check @ '' Risk parameters updated'' @ [backslash] @ ''!'' @ [newline]
             @ ''Daily loss limit: '' @ code_span (fmt_percent 2 dd) @ [newline]
             @ ''Max trades/day: '' @ code_span (py_str_int n)
         | _ \<Rightarrow> [])
     | _ \<Rightarrow> [])"

definition setrisk_reply :: "answers \<Rightarrow> string list \<Rightarrow> bot_text \<Rightarrow> reply" where
  "setrisk_reply an args kind = (case kind of
       Usage \<Rightarrow> Marked (''Usage: '' @ code_span ''/setrisk <daily_loss_pct> <max_trades_per_day>'' @ [newline]
         @ ''Example: '' @ code_span ''/setrisk 0.01 5'' @ ''  '' @ [backslash] @ ''(1% DD, 5 trades'' @ [backslash] @ '')'')
     | Invalid \<Rightarrow> Marked (pic_cross @ '' Invalid values'' @ [backslash] @ ''. Use numbers: '' @ code_span ''/setrisk 0.01 5'')
     | OutOfRange \<Rightarrow> Marked (case args of
           a # rest \<Rightarrow> if loss_in_range (py_float_arg a) then trades_range_text else loss_range_text
         | _ \<Rightarrow> [])
     | _ \<Rightarrow> (case an_put an of
          Inl x \<Rightarrow> reply_error (''Update failed: '' @ x)
        | Inr p \<Rightarrow> if pa_code p = 200 then Marked (setrisk_success args)
            else Marked (pic_cross @ '' Update failed: '' @ code_span (put_failure p))))"

definition reply_text :: "answers \<Rightarrow> bot_cmd \<Rightarrow> string list \<Rightarrow> bot_text \<Rightarrow> reply" where
  "reply_text an cmd args kind = (case cmd of
       C_switch \<Rightarrow> switch_reply an (case args of [] \<Rightarrow> [] | a # as \<Rightarrow> map lower_char a) kind
     | C_setrisk \<Rightarrow> setrisk_reply an args kind
     | _ \<Rightarrow> view_reply an cmd)"

text \<open>What a chat sees of a command.\<close>

definition bot_replies :: "int list \<Rightarrow> answers \<Rightarrow> int option \<Rightarrow> bot_cmd \<Rightarrow> string list \<Rightarrow> reply list" where
  "bot_replies admins an chat cmd args =
     List.map_filter (\<lambda>out. case out of BText kind \<Rightarrow> Some (reply_text an cmd args kind) | BSend q \<Rightarrow> None)
       (bot_command admins (answer_code an) chat cmd args)"

section \<open>Marks\<close>

lemma help_not_marked: "\<not> well_marked help_text"
  by code_simp

lemma closed_headings: "closed_piece (''*Bot Status*'' @ p) = closed_piece p" "closed_piece (''*Open Positions*'' @ p) = closed_piece p"
  "closed_piece (''*Performance Summary*'' @ p) = closed_piece p" "closed_piece (''*Account Configuration*'' @ p) = closed_piece p"
  by (simp_all add: closed_piece_def special_char_def)

lemma closed_status: "plain (sv_mode v) \<Longrightarrow> closed_piece (status_text v)"
  unfolding status_text_def Let_def using closed_headings(1) by (simp add: closed_line)

lemma closed_position: "plain (t_symbol t) \<Longrightarrow> closed_piece (position_lines t)"
  unfolding position_lines_def by (cases "t_direction t") (simp_all add: closed_line)

lemma closed_performance: "closed_piece (performance_text v)"
  unfolding performance_text_def using closed_headings(3) by (simp add: closed_line)

lemma plain_join: "plain d \<Longrightarrow> list_all plain ws \<Longrightarrow> plain (py_join d ws)"
  by (induction d ws rule: py_join.induct) auto

lemma closed_account:
  "plain account_id \<Longrightarrow> plain (av_environment v) \<Longrightarrow> plain (av_mode v) \<Longrightarrow> plain (av_broker v) \<Longrightarrow> list_all plain (av_symbols v)
     \<Longrightarrow> closed_piece (account_text account_id v)"
  unfolding account_text_def using closed_headings(4) by (simp add: closed_line plain_join)

lemma closed_positions:
  assumes "list_all (\<lambda>t. plain (t_symbol t)) ts" "positions_reply ts = Marked s"
  shows "closed_piece s"
proof -
  have s: "s = py_join [newline] ((pic_rising @ '' *Open Positions*'' @ [newline]) # map position_lines ts)"
    using assms(2) by (auto simp: positions_reply_def split: if_splits)
  have "closed_piece (pic_rising @ '' *Open Positions*'' @ [newline])"
    using closed_headings(2) by (simp add: closed_line)
  then show ?thesis
    unfolding s using assms(1)
    by (intro closed_join) (auto simp: list_all_iff closed_line intro: closed_position)
qed

lemma closed_ranges: "closed_piece loss_range_text" "closed_piece trades_range_text"
  by (simp_all add: loss_range_text_def trades_range_text_def closed_line)

lemma plain_reply_error: "reply_error m \<noteq> Marked s"
  by (simp add: reply_error_def)

text \<open>The list of trades: the underscore in the status of a closed trade opens a span that the code of the next line, or the end, leaves open.\<close>

lemma marked_open: "list_all (\<lambda>c. c \<noteq> backslash \<and> \<not> special_char c) q \<Longrightarrow> \<not> marked [x] False (q @ backtick # r)"
  by (induction q) (auto simp: special_char_def)

definition closed_view :: "trade_view \<Rightarrow> bool" where
  "closed_view v \<longleftrightarrow> tv_status v \<in> {''CLOSED_WIN'', ''CLOSED_LOSS'', ''CLOSED_BE''}"

definition view_ok :: "trade_view \<Rightarrow> bool" where
  "view_ok v \<longleftrightarrow> plain (tv_symbol v) \<and> tv_direction v \<in> {''LONG'', ''SHORT''} \<and> tv_status v \<in> range ts_value"

lemma view_of_trade: "view_ok (view_of_row (to_row t)) \<longleftrightarrow> plain (t_symbol t)" "closed_view (view_of_row (to_row t)) \<longleftrightarrow> is_closed t"
  by (cases "t_direction t"; simp add: view_ok_def view_of_row_def to_row_def)
    (cases "t_status t"; simp add: closed_view_def view_of_row_def to_row_def is_closed_iff)

definition line_head :: "trade_view \<Rightarrow> string" where
  "line_head v = (let pnl = (case tv_pnl v of None \<Rightarrow> 0 | Some p \<Rightarrow> p)
      in (if pnl > 0 then pic_check else if pnl < 0 then pic_cross else pic_white) @ '' '')"

lemma line_split: "trade_line v = line_head v @ code_span (tv_symbol v) @ '' '' @ tv_direction v @ '' PnL: ''
    @ code_span (''$'' @ fmt_plus 2 (case tv_pnl v of None \<Rightarrow> 0 | Some p \<Rightarrow> p)) @ '' '' @ [backslash] @ ''('' @ tv_status v @ [backslash] @ '')''"
  by (simp add: trade_line_def line_head_def Let_def)

lemma head_chars: "list_all (\<lambda>c. c \<noteq> backslash \<and> \<not> special_char c) (line_head v)"
  by (simp add: line_head_def Let_def pic_defs special_char_def)

lemma line_status:
  assumes "view_ok v"
  shows "marked [] False (trade_line v @ rest) \<longleftrightarrow> marked [] False (tv_status v @ backslash # CHR '')'' # rest)"
proof -
  let ?h = "line_head v @ code_span (tv_symbol v) @ '' '' @ tv_direction v @ '' PnL: ''
    @ code_span (''$'' @ fmt_plus 2 (case tv_pnl v of None \<Rightarrow> 0 | Some p \<Rightarrow> p)) @ '' '' @ [backslash] @ ''(''"
  have "closed_piece ?h"
    using assms closed_chars [OF head_chars] by (auto simp: view_ok_def closed_line)
  moreover have "trade_line v @ rest = ?h @ tv_status v @ backslash # CHR '')'' # rest" by (simp add: line_split)
  ultimately show ?thesis unfolding closed_piece_def by metis
qed

lemma line_marks:
  assumes "view_ok v"
  shows "marked [] False (trade_line v @ rest) \<longleftrightarrow> marked (if closed_view v then ''_'' else []) False rest"
proof -
  from assms obtain st where "tv_status v = ts_value st" by (auto simp: view_ok_def)
  then show ?thesis
    unfolding line_status [OF assms] by (cases st) (simp_all add: closed_view_def special_char_def)
qed

lemma lines_open: "vs \<noteq> [] \<Longrightarrow> \<not> marked ''_'' False (newline # py_join [newline] (map trade_line vs))"
proof (cases vs)
  case (Cons v ws)
  have "\<exists>r. newline # py_join [newline] (map trade_line (v # ws)) = (newline # line_head v) @ backtick # r"
    by (cases ws) (simp_all add: line_split code_span_def)
  moreover have "list_all (\<lambda>c. c \<noteq> backslash \<and> \<not> special_char c) (newline # line_head v)"
    using head_chars [of v] by (simp add: special_char_def)
  ultimately show ?thesis using marked_open Cons by metis
qed simp

lemma lines_marked:
  "vs \<noteq> [] \<Longrightarrow> list_all view_ok vs \<Longrightarrow> well_marked (py_join [newline] (map trade_line vs)) \<longleftrightarrow> list_all (\<lambda>v. \<not> closed_view v) vs"
proof (induction vs)
  case (Cons v vs)
  show ?case
  proof (cases vs)
    case Nil
    then show ?thesis using line_marks [of v "[]"] Cons.prems by (simp add: well_marked_def)
  next
    case (Cons w ws)
    then have ne: "vs \<noteq> []" by simp
    then have "py_join [newline] (map trade_line (v # vs)) = trade_line v @ newline # py_join [newline] (map trade_line vs)"
      by (simp add: py_join_Cons)
    then show ?thesis
      using line_marks [of v "newline # py_join [newline] (map trade_line vs)"] lines_open [OF ne] Cons.IH [OF ne] Cons.prems
      by (simp add: well_marked_def special_char_def)
  qed
qed simp

lemma trades_marked:
  assumes "list_all view_ok vs" "trades_reply vs = Marked s"
  shows "well_marked s \<longleftrightarrow> list_all (\<lambda>v. \<not> closed_view v) vs"
proof -
  let ?h = "pic_clipboard @ '' *Last '' @ digits10 (length vs) @ '' Trades*'' @ [newline]"
  have vs: "vs \<noteq> []" and s: "s = ?h @ newline # py_join [newline] (map trade_line vs)"
    using assms(2) by (auto simp: trades_reply_def py_join_Cons split: if_splits)
  have "list_all (\<lambda>c. c \<noteq> backslash \<and> \<not> special_char c) (digits10 n)" for n
    by (auto simp: list_all_iff is_digit_def special_char_def dest!: digits10_digits)
  then have "closed_piece (CHR ''*'' # (''Last '' @ digits10 (length vs) @ '' Trades'') @ ''*'')"
    by (intro closed_bold) (simp add: special_char_def)
  then have "closed_piece (?h @ [newline])"
    by (simp add: closed_line) (simp add: closed_piece_def special_char_def)
  then show ?thesis
    unfolding s using well_marked_drop [of "?h @ [newline]" "py_join [newline] (map trade_line vs)"] lines_marked [OF vs assms(1)] by simp
qed

text \<open>The texts for an empty list are sent without marks, so that the backslash is shown.\<close>

lemma empty_lists_escaped: "(\<exists>s. positions_reply [] = Unmarked s \<and> backslash \<in> set s) \<and> (\<exists>s. trades_reply [] = Unmarked s \<and> backslash \<in> set s)"
  by (simp add: positions_reply_def trades_reply_def)

text \<open>The values of an answer that are shown as they are.\<close>

definition plain_answers :: "answers \<Rightarrow> bool" where
  "plain_answers an \<longleftrightarrow>
     (case an_status an of Inl x \<Rightarrow> True | Inr v \<Rightarrow> plain (sv_mode v)) \<and>
     (case an_open an of Inl x \<Rightarrow> True | Inr ts \<Rightarrow> list_all (\<lambda>t. plain (t_symbol t)) ts) \<and>
     (case an_account an of Inl x \<Rightarrow> True
      | Inr (i, v) \<Rightarrow> plain i \<and> plain (av_environment v) \<and> plain (av_mode v) \<and> plain (av_broker v) \<and> list_all plain (av_symbols v)) \<and>
     (case an_put an of Inl x \<Rightarrow> True | Inr p \<Rightarrow> plain (pa_mode p) \<and> plain (put_failure p))"

lemma closed_success: "closed_piece (setrisk_success args)"
  by (auto simp: setrisk_success_def closed_line split: list.split num_arg.split sum.split)

lemma plain_bool [simp]: "plain (py_bool b)"
  by (simp add: py_bool_def)

definition reply_closed :: "reply \<Rightarrow> bool" where
  "reply_closed r = (case r of Marked s \<Rightarrow> closed_piece s | Unmarked s \<Rightarrow> True)"

lemma reply_closed_simps [simp]: "reply_closed (Marked s) = closed_piece s" "reply_closed (reply_error m)"
  by (simp_all add: reply_closed_def reply_error_def)

lemma switch_marks:
  assumes "plain_answers an" "kind \<in> {Usage, Invalid} \<or> plain environment"
  shows "reply_closed (switch_reply an environment kind)"
proof (cases "kind \<in> {Usage, Invalid}")
  case True
  then show ?thesis by (auto simp: switch_reply_def closed_line)
next
  case False
  with assms(2) have e: "plain environment" by blast
  have p: "plain (pa_mode p) \<and> plain (put_failure p)" if "an_put an = Inr p" for p
    using assms(1) that by (simp add: plain_answers_def)
  show ?thesis
    using False by (cases kind; cases "an_put an") (simp_all add: switch_reply_def closed_line e p)
qed

lemma setrisk_marks:
  assumes "plain_answers an"
  shows "reply_closed (setrisk_reply an args kind)"
proof -
  have p: "plain (put_failure p)" if "an_put an = Inr p" for p
    using assms that by (simp add: plain_answers_def)
  show ?thesis
    using closed_ranges closed_success [of args]
    by (cases kind; cases "an_put an"; cases args) (simp_all add: setrisk_reply_def closed_line p)
qed

lemma switch_env: "BText kind \<in> set (cmd_switch answer args) \<Longrightarrow>
    kind \<in> {Usage, Invalid} \<or> plain (case args of [] \<Rightarrow> [] | a # as \<Rightarrow> map lower_char a)"
  by (cases args) (auto simp: cmd_switch_def bot_put_def Let_def split: if_splits)

lemma reply_view_Marked: "reply_view what f r = Marked s \<longleftrightarrow> (\<exists>v. r = Inr v \<and> f v = Marked s)"
  by (auto simp: reply_view_def reply_error_def split: sum.split)

lemma view_marks:
  assumes "plain_answers an" "view_reply an cmd = Marked s" "cmd \<in> {C_status, C_positions, C_performance, C_account}"
  shows "closed_piece s"
  using assms closed_positions [of _ s]
  by (auto simp: view_reply_def reply_view_Marked plain_answers_def closed_status closed_performance closed_account)

lemma bot_replies_from:
  assumes "r \<in> set (bot_replies admins an chat cmd args)"
  obtains kind where "BText kind \<in> set (bot_command admins (answer_code an) chat cmd args)" "r = reply_text an cmd args kind"
proof -
  have "\<exists>out \<in> set xs. f out = Some r" if "r \<in> set (List.map_filter f xs)" for f and xs :: "bot_out list"
    using that by (auto simp: List.map_filter_def)
  then show thesis using assms that unfolding bot_replies_def by (fastforce split: bot_out.splits)
qed

section \<open>Properties\<close>

text \<open>
  C31. Which replies of the bot can be read: with plain values in the dashboard's answers, every reply that is sent with marks obeys them, except
  the help, which never does, and the list of trades as soon as a closed trade is in it, whose status has a bare underscore.
\<close>

theorem bot_replies_readable:
  assumes "plain_answers an" and "an_trades an = Inr (map (\<lambda>t. view_of_row (to_row t)) ts)" and "list_all (\<lambda>t. plain (t_symbol t)) ts"
    and "Marked s \<in> set (bot_replies admins an chat cmd args)"
  shows "well_marked s \<longleftrightarrow> cmd \<noteq> C_help \<and> (cmd = C_trades \<longrightarrow> list_all (\<lambda>t. \<not> is_closed t) ts)"
proof -
  obtain kind where kind: "BText kind \<in> set (bot_command admins (answer_code an) chat cmd args)" and s: "reply_text an cmd args kind = Marked s"
    using bot_replies_from [OF assms(4)] by metis
  consider "cmd = C_help" | "cmd = C_trades" | "cmd = C_switch" | "cmd = C_setrisk" | "cmd \<in> {C_status, C_positions, C_performance, C_account}"
    by (cases cmd) auto
  then show ?thesis
  proof cases
    case 1
    then show ?thesis using s help_not_marked by (auto simp: reply_text_def view_reply_def)
  next
    case 2
    then have "trades_reply (map (\<lambda>t. view_of_row (to_row t)) ts) = Marked s"
      using s assms(2) by (simp add: reply_text_def view_reply_def reply_view_def)
    from trades_marked [OF _ this] show ?thesis
      using 2 assms(3) by (simp add: list.pred_map comp_def view_of_trade)
  next
    case 3
    then have "BText kind \<in> set (cmd_switch (answer_code an) args)" using kind by (simp add: bot_command_def split: if_splits)
    from switch_marks [OF assms(1) switch_env [OF this]] show ?thesis using 3 s by (simp add: reply_text_def closed_well_marked)
  next
    case 4
    then show ?thesis using s setrisk_marks [OF assms(1), of args kind] by (simp add: reply_text_def closed_well_marked)
  next
    case 5
    then show ?thesis using s view_marks [OF assms(1) _ 5] by (auto simp: reply_text_def intro: closed_well_marked)
  qed
qed

definition demo_answers :: answers where
  "demo_answers = \<lparr>an_status = Inl ''down'', an_open = Inr [], an_trades = Inr [view_of_row (to_row demo_loss)], an_performance = Inl ''down'',
     an_account = Inl ''down'', an_put = Inl ''down''\<rparr>"

lemma bot_replies_readable_witness:
  "\<exists>s. bot_replies [7] demo_answers (Some 7) C_trades [] = [Marked s] \<and> \<not> well_marked s"
proof -
  obtain s where r: "bot_replies [7] demo_answers (Some 7) C_trades [] = [Marked s]"
    by (simp add: bot_replies_def bot_command_def is_authorized_def bot_get_def answer_code_def answered_def demo_answers_def
        List.map_filter_simps reply_text_def view_reply_def reply_view_def trades_reply_def)
  have "well_marked s \<longleftrightarrow> list_all (\<lambda>t. \<not> is_closed t) [demo_loss]"
    using bot_replies_readable [of demo_answers "[demo_loss]" s "[7]" "Some 7" C_trades "[]"] r
    by (simp add: plain_answers_def demo_answers_def demo_loss_def)
  then show ?thesis using r by (simp add: is_closed_iff demo_loss_def)
qed

end
