(* ===== verification/Scripts.thy ===== *)
theory Scripts
  imports Strategy Config
begin

text \<open>
  The wrapper for the library \<open>backtesting.py\<close> (\<open>src/scripts/run_bt.py\<close>): the signals of all bars are computed once, in a
  dictionary from the number of a bar to its signal, and the strategy of the library looks them up.  The
  library itself and the parsing of the command line are left out, the loading of the bars is in \<open>Csv_Loading\<close>; an order is the output of a bar.

  The lemmas show that the dictionary holds exactly the signals the strategy gives bar by bar, and that the configured
  spread has no influence on the orders.
\<close>

record precomputed =
  pc_bar_index :: nat
  pc_direction :: signal_direction
  pc_entry_price :: pyfloat
  pc_stop_loss :: pyfloat
  pc_take_profit :: pyfloat
  pc_confidence :: pyfloat

definition precomputed_of :: "nat \<Rightarrow> signal \<Rightarrow> precomputed" where
  "precomputed_of idx sg = \<lparr>pc_bar_index = idx, pc_direction = sg_direction sg, pc_entry_price = sg_entry sg,
     pc_stop_loss = sg_sl sg, pc_take_profit = sg_tp sg, pc_confidence = sg_confidence sg\<rparr>"

fun collect_signals :: "strategy \<Rightarrow> nat \<Rightarrow> candle list \<Rightarrow> precomputed list res" where
  "collect_signals st idx [] = Inr []"
| "collect_signals st idx (c # cs) =
     (let r = on_candle st c in
      bind_res (snd (fst r)) (\<lambda>sg. bind_res (collect_signals (snd r) (idx + 1) cs) (\<lambda>rest.
        Inr (case sg of None \<Rightarrow> rest | Some x \<Rightarrow> precomputed_of idx x # rest))))"

definition precompute_signals :: "registry \<Rightarrow> settings \<Rightarrow> string \<Rightarrow> string \<Rightarrow> candle list \<Rightarrow> precomputed list res" where
  "precompute_signals reg s symb tf candles =
     bind_res (new_strategy reg symb tf (new_session_filter (s_london_open s) (s_london_close s) (s_ny_open s) (s_ny_close s))
       (target_profit_pct_min s) (target_profit_pct_max s)) (\<lambda>st. collect_signals st 0 candles)"

text \<open>\<open>{s.bar_index: s for s in signals}\<close>.\<close>

definition signal_map :: "precomputed list \<Rightarrow> nat \<Rightarrow> precomputed option" where
  "signal_map ps = map_of (rev (map (\<lambda>p. (pc_bar_index p, p)) ps))"

text \<open>\<open>SmcBt.next\<close>: the order of a bar, with its stop and its target.\<close>

datatype bt_order = Buy pyfloat pyfloat | Sell pyfloat pyfloat

definition bt_next :: "registry \<Rightarrow> (nat \<Rightarrow> precomputed option) \<Rightarrow> string \<Rightarrow> pyfloat \<Rightarrow> nat \<Rightarrow> bool \<Rightarrow> bt_order option res" where
  "bt_next reg signals symb spread_pips bars in_position =
     (let idx = bars - 1 in
      case signals idx of
        None \<Rightarrow> Inr None
      | Some p \<Rightarrow>
          if in_position then Inr None
          else bind_res (get_instrument_in reg symb) (\<lambda>i.
            let half_spread = fquot (fmul spread_pips (pip_size i)) 2 in
            if pc_direction p = LONG then
              (let entry = fadd (pc_entry_price p) half_spread in Inr (Some (Buy (pc_stop_loss p) (pc_take_profit p))))
            else
              (let entry = fsub (pc_entry_price p) half_spread in Inr (Some (Sell (pc_stop_loss p) (pc_take_profit p))))))"

section \<open>Lemmas\<close>

text \<open>The entry with the spread is computed and dropped.\<close>

lemma spread_ignored: "bt_next reg signals symb spread bars pos = bt_next reg signals symb spread' bars pos"
  unfolding bt_next_def Let_def by (rule refl)

text \<open>What the strategy answers to each bar.\<close>

definition bar_signals :: "strategy \<Rightarrow> candle list \<Rightarrow> signal option list" where
  "bar_signals st cs = map (\<lambda>r. case snd r of Inr (Some sg) \<Rightarrow> Some sg | _ \<Rightarrow> None) (fst (run_strategy st cs))"

lemma length_run_strategy: "length (fst (run_strategy st cs)) = length cs"
  by (induction cs arbitrary: st) (simp_all add: Let_def)

lemma collect_signals_exact:
  "collect_signals st idx cs = Inr ps \<Longrightarrow>
     ps = List.map_filter (\<lambda>(i, sg). map_option (precomputed_of i) sg) (zip [idx..<idx + length cs] (bar_signals st cs))"
proof (induction cs arbitrary: st idx ps)
  case (Cons c cs)
  obtain log r st1 where c: "on_candle st c = ((log, r), st1)" by (metis surj_pair)
  with Cons.prems obtain sg rest where sg: "r = Inr sg" and rest: "collect_signals st1 (idx + 1) cs = Inr rest"
    and ps: "ps = (case sg of None \<Rightarrow> rest | Some x \<Rightarrow> precomputed_of idx x # rest)"
    by (auto simp: Let_def bind_res_eq_Inr)
  have "bar_signals st (c # cs) = sg # bar_signals st1 cs"
    using c sg by (simp add: bar_signals_def Let_def split: option.split)
  moreover have "[idx..<idx + length (c # cs)] = idx # [idx + 1..<idx + 1 + length cs]" by (simp add: upt_rec)
  ultimately show ?case
    using Cons.IH [OF rest] ps by (simp add: List.map_filter_simps split: option.split)
qed (simp add: bar_signals_def List.map_filter_simps)

lemma indexed_map_filter:
  "j < length xs \<Longrightarrow>
     map_of (rev (map (\<lambda>p. (pc_bar_index p, p)) (List.map_filter (\<lambda>(i, sg). map_option (precomputed_of i) sg) (zip [k..<k + length xs] xs)))) (k + j)
       = map_option (precomputed_of (k + j)) (xs ! j)"
proof (induction xs arbitrary: k j)
  case (Cons x xs)
  let ?f = "\<lambda>k xs. List.map_filter (\<lambda>(i, sg). map_option (precomputed_of i) sg) (zip [k..<k + length xs] xs)"
  let ?m = "\<lambda>ps. map_of (rev (map (\<lambda>p. (pc_bar_index p, p)) ps))"
  define R where "R = ?f (Suc k) xs"
  have none: "?m R k = None"
    unfolding R_def by (auto simp: map_of_eq_None_iff List.map_filter_def precomputed_of_def dest!: set_zip_leftD)
  have up: "[k..<k + length (x # xs)] = k # [Suc k..<Suc k + length xs]" by (simp add: upt_rec)
  have here: "?f k (x # xs) = (case x of None \<Rightarrow> R | Some sg \<Rightarrow> precomputed_of k sg # R)"
    unfolding up R_def by (simp add: List.map_filter_simps split: option.split)
  have cons: "?m (precomputed_of k sg # R) = [k \<mapsto> precomputed_of k sg] ++ ?m R" for sg
    by (simp add: precomputed_of_def)
  show ?case
  proof (cases j)
    case 0
    then show ?thesis using none unfolding here by (cases x) (simp_all only: option.case cons, simp_all add: map_add_def)
  next
    case (Suc i)
    then have "?m R (Suc k + i) = map_option (precomputed_of (Suc k + i)) (xs ! i)"
      unfolding R_def using Cons.IH [of i "Suc k"] Cons.prems by simp
    with Suc show ?thesis unfolding here
      by (cases x) (simp_all only: option.case cons, auto simp: map_add_def split: option.split)
  qed
qed simp

section \<open>Properties\<close>

text \<open>
  C32. The precomputed signals are those of the strategy: when the computation over the bars succeeds, the dictionary holds for
  every bar exactly the signal, if any, that the strategy gives when it is fed the bars one by one, and the
  library's strategy orders on a bar, outside a position, if and only if there is one, with its stop and its target.
\<close>

theorem precompute_exact:
  assumes "new_strategy reg symb tf (new_session_filter (s_london_open s) (s_london_close s) (s_ny_open s) (s_ny_close s))
      (target_profit_pct_min s) (target_profit_pct_max s) = Inr st"
    and "precompute_signals reg s symb tf cs = Inr ps" and "k < length cs"
  shows "signal_map ps k = map_option (precomputed_of k) (bar_signals st cs ! k)
    \<and> bt_next reg (signal_map ps) symb spread (k + 1) False = Inr (map_option (\<lambda>sg. if sg_direction sg = LONG
        then Buy (sg_sl sg) (sg_tp sg) else Sell (sg_sl sg) (sg_tp sg)) (bar_signals st cs ! k))"
proof -
  have "collect_signals st 0 cs = Inr ps" using assms(1,2) by (simp add: precompute_signals_def)
  from collect_signals_exact [OF this] have m: "signal_map ps k = map_option (precomputed_of k) (bar_signals st cs ! k)"
    using indexed_map_filter [of k "bar_signals st cs" 0] assms(3)
    by (simp add: signal_map_def bar_signals_def length_run_strategy)
  obtain i where "get_instrument_in reg symb = Inr i"
    using assms(1) by (auto simp: new_strategy_def bind_res_eq_Inr)
  with m show ?thesis by (auto simp: bt_next_def precomputed_of_def Let_def split: option.split)
qed

lemma precompute_exact_witness:
  "\<exists>st. new_strategy default_registry ''XAUUSD'' ''M1'' (new_session_filter 7 11 12 16) (rnd (1 / 1000)) (rnd (2 / 1000)) = Inr st
     \<and> precompute_signals default_registry default_settings ''XAUUSD'' ''M1'' [demo_bar] = Inr []
     \<and> signal_map [] 0 = map_option (precomputed_of 0) (bar_signals st [demo_bar] ! 0)"
proof -
  have s: "s_london_open default_settings = 7" "s_london_close default_settings = 11" "s_ny_open default_settings = 12"
    "s_ny_close default_settings = 16" "target_profit_pct_min default_settings = rnd (1 / 1000)"
    "target_profit_pct_max default_settings = rnd (2 / 1000)"
    by (simp_all add: default_settings_def)
  obtain i where i: "get_instrument_in default_registry ''XAUUSD'' = Inr i"
    by (simp add: get_instrument_in_def default_registry_def py_upper_def upper_char_def)
  then obtain st where st: "new_strategy default_registry ''XAUUSD'' ''M1'' (new_session_filter 7 11 12 16) (rnd (1 / 1000)) (rnd (2 / 1000)) = Inr st"
    and sy: "st_symbol st = ''XAUUSD''" by (simp add: new_strategy_def)
  have "on_candle st demo_bar = (([], Inr None), st)"
    by (rule on_candle_skipped) (simp add: skipped_def sy demo_bar_def sample_bar_def)
  then have p: "precompute_signals default_registry default_settings ''XAUUSD'' ''M1'' [demo_bar] = Inr []"
    using st by (simp add: precompute_signals_def s)
  from precompute_exact [OF st [folded s] p, of 0] p st show ?thesis by auto
qed

end
