(* ===== verification/Csv_Loading.thy ===== *)
theory Csv_Loading
  imports Backtest
begin

text \<open>
  The loading of bars from CSV files: \<open>load_candles_csv\<close> of \<open>src/app/backtesting/runner.py\<close> with its two paths, \<open>load_candles_from_csv\<close> of
  \<open>src/app/analytics/backtest.py\<close> and \<open>load_ohlcv_for_bt\<close> of \<open>src/scripts/run_bt.py\<close>.  What the libraries do, reading the file,
  parsing cells and sorting, is left out: a row holds its parsed cells, with the time as the text gives it, and the order is an argument.

  The lemmas show when the two paths of the runner give the same candles, and what becomes of the names of the columns.
\<close>

section \<open>Columns\<close>

definition canon_column :: "string \<Rightarrow> string" where
  "canon_column col =
     (let lower = py_strip (map lower_char col) in
      if lower \<in> {''datetime'', ''date'', ''time'', ''ts''} then ''timestamp''
      else if lower \<in> {''o'', ''open''} then ''open''
      else if lower \<in> {''h'', ''high''} then ''high''
      else if lower \<in> {''l'', ''low''} then ''low''
      else if lower \<in> {''c'', ''close''} then ''close''
      else if lower \<in> {''v'', ''vol'', ''volume'', ''tick_volume''} then ''volume''
      else col)"

definition canon_bt_column :: "string \<Rightarrow> string" where
  "canon_bt_column col =
     (let lower = py_strip (map lower_char col) in
      if lower \<in> {''datetime'', ''date'', ''time'', ''ts'', ''timestamp''} then ''timestamp''
      else if lower \<in> {''o'', ''open''} then ''Open''
      else if lower \<in> {''h'', ''high''} then ''High''
      else if lower \<in> {''l'', ''low''} then ''Low''
      else if lower \<in> {''c'', ''close''} then ''Close''
      else if lower \<in> {''v'', ''vol'', ''volume'', ''tick_volume''} then ''Volume''
      else col)"

definition bt_columns :: "string list \<Rightarrow> unit res" where
  "bt_columns cols =
     (let names = map canon_bt_column cols in
      if ''timestamp'' \<notin> set names then Inl KeyError
      else if list_all (\<lambda>c. c \<in> set names) [''Open'', ''High'', ''Low'', ''Close''] then Inr () else Inl ValueError)"

definition runner_columns :: "string list \<Rightarrow> unit res" where
  "runner_columns fieldnames =
     (if list_all (\<lambda>c. c \<in> set fieldnames) [''timestamp'', ''open'', ''high'', ''low'', ''close''] then Inr () else Inl ValueError)"

section \<open>Rows\<close>

record csv_row =
  cr_timestamp :: py_datetime
  cr_open :: pyfloat
  cr_high :: pyfloat
  cr_low :: pyfloat
  cr_close :: pyfloat
  cr_volume :: "pyfloat option"

definition cell_volume :: "csv_row \<Rightarrow> pyfloat" where
  "cell_volume r = (case cr_volume r of None \<Rightarrow> 0 | Some v \<Rightarrow> v)"

definition row_candle :: "string \<Rightarrow> string \<Rightarrow> py_datetime \<Rightarrow> csv_row \<Rightarrow> candle res" where
  "row_candle symb tf ts r = mk_candle symb tf ts (cr_open r) (cr_high r) (cr_low r) (cr_close r) (cell_volume r)"

fun row_candles :: "(py_datetime \<Rightarrow> py_datetime) \<Rightarrow> string \<Rightarrow> string \<Rightarrow> csv_row list \<Rightarrow> candle list res" where
  "row_candles time symb tf [] = Inr []"
| "row_candles time symb tf (r # rs) =
     bind_res (row_candle symb tf (time (cr_timestamp r)) r) (\<lambda>c. bind_res (row_candles time symb tf rs) (\<lambda>cs. Inr (c # cs)))"

text \<open>
  The runner: with Polars, times are converted to UTC and then made naive; without, the zone of the text is dropped as it is.
\<close>

definition polars_time :: "py_datetime \<Rightarrow> py_datetime" where
  "polars_time ts = (to_utc ts)\<lparr>dt_off := None\<rparr>"

definition fallback_time :: "py_datetime \<Rightarrow> py_datetime" where
  "fallback_time ts = ts\<lparr>dt_off := None\<rparr>"

definition load_candles_csv :: "bool \<Rightarrow> string list \<Rightarrow> string \<Rightarrow> string \<Rightarrow> csv_row list \<Rightarrow> candle list res" where
  "load_candles_csv have_polars fieldnames symb tf rows =
     (if have_polars then row_candles polars_time symb tf rows
      else bind_res (runner_columns fieldnames) (\<lambda>_. row_candles fallback_time symb tf rows))"

text \<open>\<open>run_bt.py\<close>: \<open>rows\<close> in the order of their times.\<close>

definition load_ohlcv_for_bt :: "string list \<Rightarrow> string \<Rightarrow> string \<Rightarrow> csv_row list \<Rightarrow> candle list res" where
  "load_ohlcv_for_bt cols symb tf rows = bind_res (bt_columns cols) (\<lambda>_. row_candles to_utc symb tf rows)"

text \<open>\<open>backtest.py\<close>: the columns symbol and timeframe are added; the rows in the order of their times.\<close>

definition load_candles_from_csv :: "string \<Rightarrow> string \<Rightarrow> csv_row list \<Rightarrow> raw_bar list" where
  "load_candles_from_csv symb tf rows = map (\<lambda>r. \<lparr>rb_symbol = symb, rb_timeframe = tf, rb_timestamp = cr_timestamp r, rb_open = cr_open r,
     rb_high = cr_high r, rb_low = cr_low r, rb_close = cr_close r, rb_volume = cell_volume r\<rparr>) rows"

section \<open>Lemmas\<close>

text \<open>A header that is already canonical stays, in either case; the loader of the engine leaves a capital \<open>Timestamp\<close> alone, that of \<open>run_bt.py\<close> does not.\<close>

lemma canon_fixed: "map canon_column [''timestamp'', ''open'', ''high'', ''low'', ''close'', ''volume''] = [''timestamp'', ''open'', ''high'', ''low'', ''close'', ''volume'']"
  "map canon_bt_column [''timestamp'', ''Open'', ''High'', ''Low'', ''Close'', ''Volume''] = [''timestamp'', ''Open'', ''High'', ''Low'', ''Close'', ''Volume'']"
  by code_simp+

lemma timestamp_header: "canon_column ''Timestamp'' = ''Timestamp'' \<and> canon_bt_column ''Timestamp'' = ''timestamp''"
  by code_simp

lemma mk_candle_time: "to_utc ts = to_utc ts' \<Longrightarrow> mk_candle symb tf ts op hi lo cl v = mk_candle symb tf ts' op hi lo cl v"
  by (simp add: mk_candle_def)

lemma row_candles_time:
  "list_all (\<lambda>r. to_utc (f (cr_timestamp r)) = to_utc (g (cr_timestamp r))) rows \<Longrightarrow> row_candles f symb tf rows = row_candles g symb tf rows"
  by (induction rows) (auto simp: row_candle_def cong: mk_candle_time)

lemma polars_time_utc: "to_utc (polars_time ts) = to_utc ts"
  by (auto simp: polars_time_def to_utc_def split: option.split)

lemma fallback_time_utc: "to_utc (fallback_time ts) = \<lparr>dt_wall = dt_wall ts, dt_off = Some 0\<rparr>"
  by (simp add: fallback_time_def to_utc_def)

lemma same_clock: "to_utc (polars_time ts) = to_utc (fallback_time ts) \<longleftrightarrow> dt_off ts \<in> {None, Some 0}"
  unfolding polars_time_utc fallback_time_utc by (cases "dt_off ts") (auto simp: to_utc_def)

lemma row_candles_length: "row_candles f symb tf rows = Inr cs \<Longrightarrow> length cs = length rows"
  by (induction rows arbitrary: cs) (auto simp: bind_res_eq_Inr)

lemma row_candles_times: "row_candles f symb tf rows = Inr cs \<Longrightarrow> map c_timestamp cs = map (to_utc \<circ> f \<circ> cr_timestamp) rows"
  by (induction rows arbitrary: cs) (auto simp: bind_res_eq_Inr row_candle_def mk_candle_def Let_def split: if_splits)

text \<open>
  With the fallback every bar keeps the reading of its own clock: the bars are those of the Polars path exactly when each time is naive or in UTC.
\<close>

theorem loaders_agree:
  assumes "load_candles_csv True fieldnames symb tf rows = Inr cs" and "runner_columns fieldnames = Inr ()"
  shows "load_candles_csv False fieldnames symb tf rows = Inr cs \<longleftrightarrow> list_all (\<lambda>r. dt_off (cr_timestamp r) \<in> {None, Some 0}) rows"
proof
  assume "load_candles_csv False fieldnames symb tf rows = Inr cs"
  then have "row_candles fallback_time symb tf rows = Inr cs" "row_candles polars_time symb tf rows = Inr cs"
    using assms by (simp_all add: load_candles_csv_def)
  from this [THEN row_candles_times]
  have "map (to_utc \<circ> polars_time \<circ> cr_timestamp) rows = map (to_utc \<circ> fallback_time \<circ> cr_timestamp) rows" by simp
  then show "list_all (\<lambda>r. dt_off (cr_timestamp r) \<in> {None, Some 0}) rows"
    unfolding same_clock [symmetric] by (simp add: list_all_iff)
next
  assume "list_all (\<lambda>r. dt_off (cr_timestamp r) \<in> {None, Some 0}) rows"
  then have "list_all (\<lambda>r. to_utc (fallback_time (cr_timestamp r)) = to_utc (polars_time (cr_timestamp r))) rows"
    unfolding same_clock [symmetric] by (simp add: list_all_iff)
  from row_candles_time [OF this] show "load_candles_csv False fieldnames symb tf rows = Inr cs"
    using assms by (simp add: load_candles_csv_def)
qed

end
