(* ===== verification/Sample_Data.thy ===== *)
theory Sample_Data
  imports Models Py_Format
begin

text \<open>
  The generators of synthetic bars (\<open>src/scripts/generate_sample_data.py\<close>, \<open>gen_synthetic_v3.py\<close> to
  \<open>gen_synthetic_v5.py\<close>) and the bars of \<open>debug_signals.py\<close>.  The draws of the random generator are arguments, one record per bar;
  files and paths are left out, and so is the text of a time, which is an argument.

  The lemmas show that every generated bar is ordered and stays so when it is printed with five decimals or rounded to them,
  that the bars are chained, and that none of the first generator falls on a weekend.
\<close>

section \<open>The walk of a price\<close>

record draws =
  dr_move :: pyfloat
  dr_high :: pyfloat
  dr_low :: pyfloat
  dr_volume :: pyfloat

record sample =
  sm_time :: py_datetime
  sm_open :: pyfloat
  sm_high :: pyfloat
  sm_low :: pyfloat
  sm_close :: pyfloat
  sm_volume :: pyfloat

section \<open>\<open>generate_sample_data.py\<close>\<close>

text \<open>Monday is 0; the day 0 is a Thursday.\<close>

definition weekday :: "py_datetime \<Rightarrow> int" where
  "weekday ts = (dt_date ts + 3) mod 7"

definition add_us :: "int \<Rightarrow> py_datetime \<Rightarrow> py_datetime" where
  "add_us us ts = ts\<lparr>dt_wall := dt_wall ts + us\<rparr>"

text \<open>\<open>ts.replace(hour=7, minute=0, second=0)\<close>.\<close>

definition at_seven :: "py_datetime \<Rightarrow> py_datetime" where
  "at_seven ts = ts\<lparr>dt_wall := dt_date ts * 86400000000 + 25200000000 + dt_microsecond ts\<rparr>"

definition next_morning :: "py_datetime \<Rightarrow> py_datetime" where
  "next_morning ts = at_seven (add_us 86400000000 ts)"

lemma at_seven_date [simp]: "dt_date (at_seven ts) = dt_date ts"
proof -
  have "0 \<le> dt_wall ts mod 1000000" "dt_wall ts mod 1000000 < 1000000" by simp_all
  then show ?thesis by (simp add: at_seven_def dt_date_def dt_microsecond_def)
qed

lemma next_morning_date [simp]: "dt_date (next_morning ts) = dt_date ts + 1"
  by (simp add: next_morning_def) (simp add: dt_date_def add_us_def)

lemma weekday_range: "0 \<le> weekday ts \<and> weekday ts < 7"
  by (simp add: weekday_def)

lemma weekday_next: "weekday (next_morning ts) = (weekday ts + 1) mod 7"
  by (simp add: weekday_def mod_simps algebra_simps)

function skip_weekend :: "py_datetime \<Rightarrow> py_datetime" where
  "skip_weekend ts = (if weekday ts \<ge> 5 then skip_weekend (next_morning ts) else ts)"
  by pat_completeness auto
termination
proof (relation "measure (\<lambda>ts. if weekday ts < 5 then 0 else nat (7 - weekday ts))")
  fix ts :: py_datetime
  assume "5 \<le> weekday ts"
  then have "weekday ts = 5 \<or> weekday ts = 6" using weekday_range [of ts] by linarith
  then show "(next_morning ts, ts) \<in> measure (\<lambda>ts. if weekday ts < 5 then 0 else nat (7 - weekday ts))"
    by (auto simp: weekday_next)
qed simp

declare skip_weekend.simps [simp del]

definition start_price :: "string \<Rightarrow> pyfloat" where
  "start_price symb = (case map_of [(''EURUSD'', rnd (10850 / 10000)), (''XAUUSD'', 2350), (''GBPUSD'', rnd (12650 / 10000))] symb of
     None \<Rightarrow> 1 | Some x \<Rightarrow> x)"

definition sample_pip :: "string \<Rightarrow> pyfloat" where
  "sample_pip symb = (case map_of [(''EURUSD'', rnd (1 / 10000)), (''XAUUSD'', rnd (1 / 10)), (''GBPUSD'', rnd (1 / 10000))] symb of
     None \<Rightarrow> rnd (1 / 10000) | Some x \<Rightarrow> x)"

text \<open>The standard deviations handed to \<open>random.gauss\<close>, for the move and for the wicks.\<close>

definition sample_sigma :: "string \<Rightarrow> pyfloat \<times> pyfloat" where
  "sample_sigma symb = (let volatility = fmul 8 (sample_pip symb) in (volatility, fmul volatility (rnd (1 / 2))))"

definition sample_bar_of :: "py_datetime \<Rightarrow> pyfloat \<Rightarrow> draws \<Rightarrow> sample" where
  "sample_bar_of ts price d =
     (let opn = price; close = fadd opn (dr_move d);
          high = fadd (max opn close) \<bar>dr_high d\<bar>; low = fsub (min opn close) \<bar>dr_low d\<bar>
      in \<lparr>sm_time = ts, sm_open = opn, sm_high = max (max high opn) close, sm_low = min (min low opn) close, sm_close = close,
          sm_volume = dr_volume d\<rparr>)"

fun sample_bars :: "int \<Rightarrow> py_datetime \<Rightarrow> pyfloat \<Rightarrow> draws list \<Rightarrow> sample list" where
  "sample_bars delta ts price [] = []"
| "sample_bars delta ts price (d # ds) =
     (let t = skip_weekend ts; b = sample_bar_of t price d in b # sample_bars delta (add_us delta t) (sm_close b) ds)"

text \<open>The bars start in the London session of 2 January 2024; \<open>timeframe\<close> is in minutes.\<close>

definition sample_start :: py_datetime where
  "sample_start = \<lparr>dt_wall = 1704178800000000, dt_off = None\<rparr>"

definition generate :: "string \<Rightarrow> int \<Rightarrow> draws list \<Rightarrow> sample list" where
  "generate symb timeframe_minutes ds = sample_bars (timeframe_minutes * 60000000) sample_start (start_price symb) ds"

definition sample_row :: "(py_datetime \<Rightarrow> string) \<Rightarrow> sample \<Rightarrow> string" where
  "sample_row isoformat b = isoformat (sm_time b) @ '','' @ fmt_fixed 5 (sm_open b) @ '','' @ fmt_fixed 5 (sm_high b) @ '',''
     @ fmt_fixed 5 (sm_low b) @ '','' @ fmt_fixed 5 (sm_close b) @ '','' @ py_str_int \<lfloor>sm_volume b\<rfloor> @ [CHR 0x0A]"

section \<open>\<open>gen_synthetic\<close> and \<open>debug_signals.py\<close>\<close>

text \<open>A trend and a shock per bar; the rows hold the prices rounded to five decimals, or as they are.\<close>

definition synth_bar :: "(nat \<Rightarrow> pyfloat) \<Rightarrow> (nat \<Rightarrow> pyfloat \<Rightarrow> pyfloat) \<Rightarrow> py_datetime \<Rightarrow> nat \<Rightarrow> pyfloat \<Rightarrow> draws \<Rightarrow> sample" where
  "synth_bar trend shock base i price d =
     (let noise = shock i (dr_move d); op = price; cl = fadd (fadd price (trend i)) noise;
          hi = fadd (max op cl) \<bar>dr_high d\<bar>; lo = fsub (min op cl) \<bar>dr_low d\<bar>
      in \<lparr>sm_time = add_us (5 * int i * 60000000) base, sm_open = op, sm_high = hi, sm_low = lo, sm_close = cl, sm_volume = dr_volume d\<rparr>)"

fun synth_bars :: "(nat \<Rightarrow> pyfloat) \<Rightarrow> (nat \<Rightarrow> pyfloat \<Rightarrow> pyfloat) \<Rightarrow> py_datetime \<Rightarrow> nat \<Rightarrow> pyfloat \<Rightarrow> draws list \<Rightarrow> sample list" where
  "synth_bars trend shock base i price [] = []"
| "synth_bars trend shock base i price (d # ds) =
     (let b = synth_bar trend shock base i price d in b # synth_bars trend shock base (i + 1) (sm_close b) ds)"

definition rounded_row :: "sample \<Rightarrow> sample" where
  "rounded_row b = b\<lparr>sm_open := fround 5 (sm_open b), sm_high := fround 5 (sm_high b), sm_low := fround 5 (sm_low b),
     sm_close := fround 5 (sm_close b)\<rparr>"

definition synth_base :: py_datetime where
  "synth_base = utc 1735689600000000"

definition synth_price :: pyfloat where
  "synth_price = rnd (108500 / 100000)"

text \<open>The trends and the shocks of the four scripts.\<close>

definition trend_v3 :: "nat \<Rightarrow> pyfloat" where
  "trend_v3 i = (if i mod 300 < 150 then rnd (5 / 100000) else - rnd (5 / 100000))"

definition shock_v3 :: "nat \<Rightarrow> pyfloat \<Rightarrow> pyfloat" where
  "shock_v3 i noise = (if i mod 500 = 0 then (if i mod 1000 < 500 then fsub noise (rnd (15 / 10000)) else fadd noise (rnd (15 / 10000))) else noise)"

definition segment_trend :: "pyfloat \<Rightarrow> nat \<Rightarrow> pyfloat" where
  "segment_trend step i = (let seg = i div 250 in if seg mod 2 = 0 then step else - step)"

definition phase_shock :: "pyfloat \<Rightarrow> nat \<Rightarrow> pyfloat \<Rightarrow> pyfloat" where
  "phase_shock jump i noise =
     (let phase = i mod 250; noise = (if phase = 0 then fadd noise jump else noise)
      in if phase = 125 then fsub noise jump else noise)"

definition trend_debug :: "nat \<Rightarrow> pyfloat" where
  "trend_debug i = (if i mod 50 < 25 then rnd (7 / 100000) else - rnd (7 / 100000))"

definition shock_debug :: "nat \<Rightarrow> pyfloat \<Rightarrow> pyfloat" where
  "shock_debug i noise =
     (let noise = (if i = 50 then fsub noise (rnd (25 / 10000)) else noise)
      in if i = 120 then fadd noise (rnd (25 / 10000)) else noise)"

definition synth_v3 :: "draws list \<Rightarrow> sample list" where
  "synth_v3 ds = map rounded_row (synth_bars trend_v3 shock_v3 synth_base 0 synth_price ds)"

definition synth_v4 :: "draws list \<Rightarrow> sample list" where
  "synth_v4 ds = map rounded_row (synth_bars (segment_trend (rnd (8 / 100000))) (phase_shock (rnd (25 / 10000))) synth_base 0 synth_price ds)"

definition synth_v5 :: "draws list \<Rightarrow> sample list" where
  "synth_v5 ds = map rounded_row (synth_bars (segment_trend (rnd (18 / 100000))) (phase_shock (rnd (50 / 10000))) synth_base 0 synth_price ds)"

definition debug_rows :: "draws list \<Rightarrow> sample list" where
  "debug_rows ds = map (\<lambda>b. b\<lparr>sm_volume := 0\<rparr>) (synth_bars trend_debug shock_debug synth_base 0 (rnd (108550 / 100000)) ds)"

text \<open>The bar of a row.\<close>

definition sample_candle :: "string \<Rightarrow> string \<Rightarrow> sample \<Rightarrow> candle res" where
  "sample_candle symb tf b = mk_candle symb tf (sm_time b) (sm_open b) (sm_high b) (sm_low b) (sm_close b) (sm_volume b)"

section \<open>Ordered bars\<close>

definition ordered_bar :: "sample \<Rightarrow> bool" where
  "ordered_bar b \<longleftrightarrow> sm_low b \<le> sm_open b \<and> sm_low b \<le> sm_close b \<and> sm_open b \<le> sm_high b \<and> sm_close b \<le> sm_high b"

lemma fadd_ge: "is_float x \<Longrightarrow> 0 \<le> y \<Longrightarrow> x \<le> fadd x y"
  using rd.mono [of x "x + y"] by (simp add: fadd_def is_float_def)

lemma fsub_le: "is_float x \<Longrightarrow> 0 \<le> y \<Longrightarrow> fsub x y \<le> x"
  using rd.mono [of "x - y" x] by (simp add: fsub_def is_float_def)

lemma ordered_rounded: "ordered_bar b \<Longrightarrow> ordered_bar (rounded_row b)"
  by (simp add: ordered_bar_def rounded_row_def fround_mono)

lemma ordered_synth: "is_float price \<Longrightarrow> ordered_bar (synth_bar trend shock base i price d) \<and> is_float (sm_close (synth_bar trend shock base i price d))"
  using fadd_ge [of "max price (fadd (fadd price (trend i)) (shock i (dr_move d)))" "\<bar>dr_high d\<bar>"]
    fsub_le [of "min price (fadd (fadd price (trend i)) (shock i (dr_move d)))" "\<bar>dr_low d\<bar>"]
  by (auto simp: ordered_bar_def synth_bar_def Let_def is_float_max is_float_min)

lemma synth_ordered: "is_float price \<Longrightarrow> list_all ordered_bar (synth_bars trend shock base i price ds)"
  by (induction ds arbitrary: i price) (simp_all add: Let_def ordered_synth)

lemma sample_ordered: "ordered_bar (sample_bar_of ts price d)"
  by (simp add: ordered_bar_def sample_bar_of_def Let_def le_max_iff_disj min_le_iff_disj)

lemma sample_bars_ordered: "list_all ordered_bar (sample_bars delta ts price ds)"
  by (induction delta ts price ds rule: sample_bars.induct) (simp_all add: Let_def sample_ordered)

text \<open>An ordered bar of positive prices is a valid candle.\<close>

lemma ordered_candle:
  "ordered_bar b \<Longrightarrow> 0 < sm_low b \<Longrightarrow> 0 \<le> sm_volume b \<Longrightarrow> \<exists>c. sample_candle symb tf b = Inr c \<and> ohlc_ok c"
  by (auto simp: sample_candle_def mk_candle_def high_consistent_def ordered_bar_def ohlc_ok_def is_ok_def Let_def)

section \<open>Times\<close>

lemma skip_weekend_workday: "weekday (skip_weekend ts) < 5"
  by (induction ts rule: skip_weekend.induct) (subst skip_weekend.simps, simp)

lemma next_morning_later: "dt_wall ts < dt_wall (next_morning ts)"
proof -
  have "dt_wall ts < (dt_date ts + 1) * 86400000000" by (simp add: dt_date_def)
  moreover have "dt_wall (next_morning ts) = dt_date (add_us 86400000000 ts) * 86400000000 + 25200000000 + dt_microsecond (add_us 86400000000 ts)"
    by (simp add: next_morning_def at_seven_def)
  moreover have "dt_date (add_us 86400000000 ts) = dt_date ts + 1" by (simp add: dt_date_def add_us_def)
  moreover have "0 \<le> dt_microsecond (add_us 86400000000 ts)" by (simp add: dt_microsecond_def)
  ultimately show ?thesis by simp
qed

lemma skip_weekend_later: "dt_wall ts \<le> dt_wall (skip_weekend ts)"
proof (induction ts rule: skip_weekend.induct)
  case (1 ts)
  show ?case
  proof (cases "weekday ts \<ge> 5")
    case True
    then have "skip_weekend ts = skip_weekend (next_morning ts)" by (subst skip_weekend.simps) simp
    then show ?thesis using 1 [OF True] next_morning_later [of ts] by simp
  qed (subst skip_weekend.simps, simp)
qed

lemma sample_bars_times:
  "0 < delta \<Longrightarrow> sorted_wrt (<) (map (\<lambda>b. dt_wall (sm_time b)) (sample_bars delta ts price ds)) \<and>
     list_all (\<lambda>b. dt_wall ts \<le> dt_wall (sm_time b)) (sample_bars delta ts price ds)"
proof (induction delta ts price ds rule: sample_bars.induct)
  case (2 delta ts price d ds)
  let ?t = "skip_weekend ts"
  let ?rest = "sample_bars delta (add_us delta ?t) (sm_close (sample_bar_of ?t price d)) ds"
  have IH: "sorted_wrt (<) (map (\<lambda>b. dt_wall (sm_time b)) ?rest)" "list_all (\<lambda>b. dt_wall (add_us delta ?t) \<le> dt_wall (sm_time b)) ?rest"
    using 2 by blast+
  have t: "sm_time (sample_bar_of ?t price d) = ?t" by (simp add: sample_bar_of_def Let_def)
  have "dt_wall ts \<le> dt_wall ?t" by (rule skip_weekend_later)
  then show ?case
    using IH 2(2) by (auto simp: Let_def t list_all_iff add_us_def)
qed simp

lemma sample_bars_workdays: "list_all (\<lambda>b. weekday (sm_time b) < 5) (sample_bars delta ts price ds)"
  by (induction delta ts price ds rule: sample_bars.induct)
    (simp_all add: Let_def sample_bar_of_def skip_weekend_workday)

text \<open>Each bar opens where the one before closed.\<close>

definition chained :: "pyfloat \<Rightarrow> sample list \<Rightarrow> bool" where
  "chained price bs \<longleftrightarrow> map sm_open bs = butlast (price # map sm_close bs)"

lemma sample_bars_chained: "chained price (sample_bars delta ts price ds)"
proof (induction delta ts price ds rule: sample_bars.induct)
  case (2 delta ts price d ds)
  then show ?case
    by (cases ds) (simp_all add: chained_def Let_def sample_bar_of_def)
qed (simp add: chained_def)

lemma sample_bars_length: "length (sample_bars delta ts price ds) = length ds"
  by (induction delta ts price ds rule: sample_bars.induct) (simp_all add: Let_def)

text \<open>A printed row reads back as the row rounded to five decimals.\<close>

lemma row_reads: "map py_float_arg [fmt_fixed 5 (sm_open b), fmt_fixed 5 (sm_high b), fmt_fixed 5 (sm_low b), fmt_fixed 5 (sm_close b)] =
    map Num [sm_open (rounded_row b), sm_high (rounded_row b), sm_low (rounded_row b), sm_close (rounded_row b)]"
  by (simp add: fmt_fixed_reads rounded_row_def)

lemma synth_rows_ordered: "list_all ordered_bar (synth_v3 ds)" "list_all ordered_bar (synth_v4 ds)" "list_all ordered_bar (synth_v5 ds)"
  "list_all ordered_bar (debug_rows ds)"
  using synth_ordered [of synth_price _ _ synth_base 0 ds] synth_ordered [of "rnd (108550 / 100000)" _ _ synth_base 0 ds]
  by (auto simp: synth_v3_def synth_v4_def synth_v5_def debug_rows_def synth_price_def list_all_iff ordered_rounded)
    (simp_all add: ordered_bar_def)

section \<open>What is generated\<close>

text \<open>
  The generated bars: one per draw, in increasing time and never on a weekend, each opening where the one before closed; and a
  bar whose printed prices are positive is read back, from its row, as a valid candle with its open and close within high and low.
\<close>

theorem sample_data_valid:
  assumes "0 < timeframe_minutes"
  shows "(let bs = generate symb timeframe_minutes ds in
      length bs = length ds \<and> sorted_wrt (<) (map (\<lambda>b. dt_wall (sm_time b)) bs) \<and> list_all (\<lambda>b. weekday (sm_time b) < 5) bs \<and>
      chained (start_price symb) bs \<and>
      (\<forall>b \<in> set bs. 0 < fround 5 (sm_low b) \<longrightarrow> 0 \<le> sm_volume b \<longrightarrow>
         (\<exists>c. sample_candle symb tf (rounded_row b) = Inr c \<and> ohlc_ok c
            \<and> py_float_arg (fmt_fixed 5 (sm_close b)) = Num (c_close c) \<and> py_float_arg (fmt_fixed 5 (sm_high b)) = Num (c_high c))))"
proof -
  let ?bs = "generate symb timeframe_minutes ds"
  have "\<exists>c. sample_candle symb tf (rounded_row b) = Inr c \<and> ohlc_ok c
      \<and> py_float_arg (fmt_fixed 5 (sm_close b)) = Num (c_close c) \<and> py_float_arg (fmt_fixed 5 (sm_high b)) = Num (c_high c)"
    if "b \<in> set ?bs" "0 < fround 5 (sm_low b)" "0 \<le> sm_volume b" for b
  proof -
    have "ordered_bar (rounded_row b)"
      using that(1) sample_bars_ordered [of "timeframe_minutes * 60000000" sample_start "start_price symb" ds]
      by (auto simp: generate_def list_all_iff intro: ordered_rounded)
    from ordered_candle [OF this, of symb tf] that(2,3)
    obtain c where c: "sample_candle symb tf (rounded_row b) = Inr c" "ohlc_ok c" by (auto simp: rounded_row_def)
    then have "c_close c = fround 5 (sm_close b)" "c_high c = fround 5 (sm_high b)"
      by (auto simp: sample_candle_def mk_candle_def rounded_row_def Let_def split: if_splits)
    with c show ?thesis using fmt_fixed_reads [of 5] by auto
  qed
  then show ?thesis
    using assms sample_bars_times [of "timeframe_minutes * 60000000" sample_start "start_price symb" ds]
    by (auto simp: generate_def Let_def sample_bars_length sample_bars_workdays sample_bars_chained)
qed

end
