(* ===== verification/Reports.thy ===== *)
theory Reports
  imports Csv_Loading Runner Scripts Sample_Data Markdown
begin

text \<open>
  What the backtests report: the summary of \<open>src/app/analytics/backtest.py\<close> and the command of \<open>src/scripts/run_backtest.py\<close>, the printed
  report and \<open>main\<close> of \<open>src/app/backtesting/runner.py\<close>, the metrics \<open>src/scripts/run_bt.py\<close> prints from the statistics of the
  library, and the lines of \<open>src/scripts/debug_signals.py\<close>.  The text of a time (\<open>isoformat\<close>) and the wall-clock time of a run are arguments; the log and the encoding in JSON are left out.

  The lemmas show that the summary's numbers read back as the rounded ones and that the runner can never save its report.
\<close>

section \<open>The engine's summary\<close>

record bk_summary =
  sy_total_trades :: nat
  sy_winrate :: string
  sy_total_pnl :: string
  sy_final_balance :: string
  sy_max_drawdown_pct :: string
  sy_total_bars_processed :: nat
  sy_duration_sec :: string
  sy_by_session :: "string \<rightharpoonup> session_stats"
  sy_by_symbol :: "string \<rightharpoonup> session_stats"

definition bk_summary_of :: "bk_result \<Rightarrow> pyfloat \<Rightarrow> bk_summary" where
  "bk_summary_of r duration =
     \<lparr>sy_total_trades = length (bs_trades r), sy_winrate = fmt_percent 2 (bs_winrate r), sy_total_pnl = fmt_fixed 2 (bs_total_pnl r),
      sy_final_balance = fmt_fixed 2 (bs_final_balance r), sy_max_drawdown_pct = fmt_percent 2 (bs_max_drawdown_pct r),
      sy_total_bars_processed = bs_total_bars r, sy_duration_sec = fmt_fixed 2 duration,
      sy_by_session = bs_by_session r, sy_by_symbol = bs_by_symbol r\<rparr>"

text \<open>The command: it ends with the exit code 1 when there is no file; the summary is printed, and written when an output is given.\<close>

datatype 'a command = Exit int | Reported 'a

definition run_backtest_command :: "registry \<Rightarrow> settings \<Rightarrow> bool \<Rightarrow> csv_row list \<Rightarrow> string \<Rightarrow> string \<Rightarrow> pyfloat \<Rightarrow> pyfloat \<Rightarrow> int
    \<Rightarrow> exec_env list \<Rightarrow> exec_env \<Rightarrow> pyfloat \<Rightarrow> string \<Rightarrow> (bk_summary \<times> bk_summary option) command res" where
  "run_backtest_command reg s csv_exists rows symb tf spread slippage now envs env_end duration output =
     (if \<not> csv_exists then Inr (Exit 1)
      else bind_res (backtest_run reg s spread slippage now envs env_end (load_candles_from_csv symb tf rows)) (\<lambda>r.
        let summary = bk_summary_of r duration
        in Inr (Reported (summary, if output = [] then None else Some summary))))"

section \<open>The runner's report\<close>

definition pic_arrow :: string where "pic_arrow = [CHR 0xE2, CHR 0x86, CHR 0x92]"

definition trade_report :: "(py_datetime \<Rightarrow> string) \<Rightarrow> bt_trade \<Rightarrow> string" where
  "trade_report isoformat t =
     (let pnl_fmt = (if bt_pnl t < 0 then ''('' @ fmt_fixed 4 (bt_pnl t) @ '')'' else ''+'' @ fmt_fixed 4 (bt_pnl t))
      in ''  ['' @ isoformat (bt_entry_time t) @ '' '' @ pic_arrow @ '' ''
        @ (case bt_exit_time t of None \<Rightarrow> ''?'' | Some x \<Rightarrow> isoformat x) @ ''] ''
        @ dir_value (bt_direction t) @ '' @'' @ fmt_fixed 4 (bt_entry_price t) @ '' SL='' @ fmt_fixed 4 (bt_sl t) @ '' TP='' @ fmt_fixed 4 (bt_tp t)
        @ '' exit='' @ bt_exit_reason t @ '' PnL='' @ pnl_fmt)"

definition print_report :: "(py_datetime \<Rightarrow> string) \<Rightarrow> bt_result \<Rightarrow> string list" where
  "print_report isoformat r =
     (let sep = replicate 60 (CHR ''='')
      in [sep, ''  SM BACKTEST REPORT  '' @ pic_dash @ ''  '' @ br_symbol r @ ''  '' @ br_timeframe r, sep,
          ''  Total bars            : '' @ digits10 (br_total_bars r),
          ''  Signals generated     : '' @ digits10 (br_signals_generated r),
          ''  Trades executed       : '' @ digits10 (br_trades_executed r),
          ''  Wins / Losses         : '' @ digits10 (br_wins r) @ '' / '' @ digits10 (br_losses r),
          ''  Win rate              : '' @ fmt_percent 2 (br_win_rate r),
          ''  Net PnL               : '' @ fmt_fixed 4 (br_net_pnl r),
          ''  Gross profit          : '' @ fmt_fixed 4 (br_gross_profit r),
          ''  Gross loss            : '' @ fmt_fixed 4 (br_gross_loss r),
          ''  Profit factor         : '' @ fmt_fixed 2 (br_profit_factor r),
          ''  Max drawdown          : '' @ fmt_fixed 4 (br_max_drawdown r),
          ''  Avg R:R               : '' @ fmt_fixed 2 (br_avg_rr r),
          ''  Avg PnL/trade         : '' @ fmt_fixed 4 (br_avg_pnl r), sep, ''  Trade list:'']
         @ map (trade_report isoformat) (br_trades r) @ [sep])"

text \<open>\<open>main\<close>: what is printed, and how it ends; the payload is built from \<open>result.__dict__\<close>.\<close>

definition runner_payload :: "bt_result \<Rightarrow> (bt_result \<times> bt_trade list) res" where
  "runner_payload r = bind_res (slots_dict r) (\<lambda>fields.
     bind_res (case br_trades r of [] \<Rightarrow> Inr [] | t # ts \<Rightarrow> slots_dict t) (\<lambda>trades. Inr (fields, trades)))"

definition runner_main :: "registry \<Rightarrow> (py_datetime \<Rightarrow> string) \<Rightarrow> candle list res \<Rightarrow> string \<Rightarrow> string \<Rightarrow> int \<Rightarrow> string option
    \<Rightarrow> string list \<times> (bt_result \<times> bt_trade list) option res" where
  "runner_main reg isoformat loaded symb tf min_confluence output =
     (case bind_res loaded (\<lambda>candles. run_backtest reg candles symb tf min_confluence) of
        Inl x \<Rightarrow> ([], Inl x)
      | Inr r \<Rightarrow> (print_report isoformat r,
          if output = None \<or> output = Some [] then Inr None
          else bind_res (runner_payload r) (\<lambda>p. Inr (Some p))))"

section \<open>The metrics of \<open>run_bt.py\<close>\<close>

record lib_stats =
  ls_trades :: nat
  ls_win_rate :: pyfloat
  ls_profit_factor :: "pyfloat option"
  ls_equity_final :: pyfloat
  ls_max_drawdown :: pyfloat
  ls_return :: pyfloat

definition native_style :: "pyfloat \<Rightarrow> lib_stats \<Rightarrow> (string \<times> string) list" where
  "native_style cash st =
     [(''Total Trades'', digits10 (ls_trades st)),
      (''Win Rate'', fmt_fixed 2 (ls_win_rate st) @ ''%''),
      (''Profit Factor'', fmt_fixed 2 (case ls_profit_factor st of None \<Rightarrow> 0 | Some x \<Rightarrow> x)),
      (''Net P&L'', ''$'' @ fmt_fixed 2 (fsub (ls_equity_final st) cash)),
      (''Max Drawdown'', fmt_fixed 2 (ls_max_drawdown st) @ ''%''),
      (''Return'', fmt_fixed 2 (ls_return st) @ ''%'')]"

text \<open>The command: \<open>library\<close> is the run of \<open>backtesting.py\<close> with the strategy's orders, given the map of signals.\<close>

definition run_bt_command :: "registry \<Rightarrow> settings \<Rightarrow> bool \<Rightarrow> string list \<Rightarrow> csv_row list \<Rightarrow> string \<Rightarrow> string \<Rightarrow> pyfloat
    \<Rightarrow> ((nat \<Rightarrow> precomputed option) \<Rightarrow> candle list \<Rightarrow> lib_stats) \<Rightarrow> (string \<times> string) list command res" where
  "run_bt_command reg s csv_exists cols rows symb tf cash lib_run =
     (if \<not> csv_exists then Inr (Exit 1)
      else bind_res (load_ohlcv_for_bt cols symb tf rows) (\<lambda>candles.
        bind_res (precompute_signals reg s symb tf candles) (\<lambda>signals.
        Inr (Reported (native_style cash (lib_run (signal_map signals) candles))))))"

section \<open>\<open>debug_signals.py\<close>\<close>

text \<open>\<open>str\<close> of a list of strings without quotes and backslashes.\<close>

definition py_list_text :: "string list \<Rightarrow> string" where
  "py_list_text xs = ''['' @ py_join '', '' (map (\<lambda>x. CHR 0x27 # x @ [CHR 0x27]) xs) @ '']''"

definition pad_left :: "nat \<Rightarrow> string \<Rightarrow> string" where
  "pad_left n s = replicate (n - length s) (CHR '' '') @ s"

definition signal_line :: "nat \<Rightarrow> signal \<Rightarrow> string" where
  "signal_line i sg = ''bar '' @ pad_left 3 (digits10 i) @ '': '' @ dir_value (sg_direction sg) @ '' @'' @ fmt_fixed 5 (sg_entry sg)
     @ '' SL='' @ fmt_fixed 5 (sg_sl sg) @ '' TP='' @ fmt_fixed 5 (sg_tp sg) @ '' conf='' @ fmt_fixed 2 (sg_confidence sg)
     @ '' rr='' @ fmt_fixed 2 (rr_ratio sg) @ '' tags='' @ py_list_text (drop (length (sg_tags sg) - 2) (sg_tags sg))"

text \<open>The loop over the bars: outside the sessions a bar is not fed; an exception, whose text is an argument, is printed.\<close>

fun debug_bars :: "(py_exc \<Rightarrow> string) \<Rightarrow> string \<Rightarrow> strategy \<Rightarrow> nat \<Rightarrow> candle list \<Rightarrow> string list \<times> nat" where
  "debug_bars msg symb st i [] = ([], 0)"
| "debug_bars msg symb st i (c # cs) =
     (if \<not> is_active (st_sessions st) (c_timestamp c) symb then debug_bars msg symb st (i + 1) cs
      else let r = on_candle st c; rest = debug_bars msg symb (snd r) (i + 1) cs
           in case snd (fst r) of
                Inl x \<Rightarrow> ((''err '' @ digits10 i @ '': '' @ msg x) # fst rest, snd rest)
              | Inr None \<Rightarrow> rest
              | Inr (Some sg) \<Rightarrow> (signal_line i sg # fst rest, snd rest + 1))"

definition debug_script :: "registry \<Rightarrow> (py_exc \<Rightarrow> string) \<Rightarrow> draws list \<Rightarrow> string list res" where
  "debug_script reg msg ds =
     bind_res (map_res (sample_candle ''EURUSD'' ''M5'') (debug_rows ds)) (\<lambda>rows.
     bind_res (new_strategy reg ''EURUSD'' ''M5'' (new_session_filter 7 11 14 17) (rnd (1 / 1000)) (rnd (2 / 1000))) (\<lambda>st.
     bind_res (get_instrument_in reg ''EURUSD'') (\<lambda>i.
     let r = debug_bars msg ''EURUSD'' (st\<lparr>st_min_confluence := 60, st_min_rr := rnd (12 / 10)\<rparr>) 0 rows
     in Inr ((''Instrument delta: '' @ py_repr (inst_price_delta i 1)) # fst r
          @ [[CHR 0x0A] @ ''Total signals: '' @ digits10 (snd r)]))))"

section \<open>Lemmas\<close>

text \<open>The strategy skips the bars outside the sessions itself: the script counts exactly the signals it gives to all bars.\<close>

lemma on_candle_symbol: "st_symbol (snd (on_candle st c)) = st_symbol st"
proof (cases "skipped st c")
  case False
  show ?thesis
  proof (cases "series_append (st_series st) c")
    case (Inl x)
    then show ?thesis using False by (auto simp: on_candle_def skipped_def)
  next
    case (Inr s)
    then show ?thesis
      using evaluate_state [of "fed st s c" c "fst (ms_update (st_ms st) c)"]
      unfolding on_candle_fed [OF False Inr] by (auto split: sum.splits option.splits)
  qed
qed (simp add: on_candle_skipped)

lemma debug_counts_all:
  "symb = st_symbol st \<Longrightarrow> snd (debug_bars msg symb st i cs) = length (filter (\<lambda>r. \<exists>sg. snd r = Inr (Some sg)) (fst (run_strategy st cs)))"
proof (induction msg symb st i cs rule: debug_bars.induct)
  case (2 msg symb st i c cs)
  show ?case
  proof (cases "is_active (st_sessions st) (c_timestamp c) symb")
    case True
    then show ?thesis using 2 on_candle_symbol [of st c] by (auto simp: Let_def split: sum.split option.split)
  next
    case False
    then have "on_candle st c = (([], Inr None), st)" using 2(3) by (intro on_candle_skipped) (simp add: skipped_def)
    then show ?thesis using False 2 by (simp add: Let_def)
  qed
qed simp

lemma payload_raises: "runner_payload r = Inl AttributeError"
  by (simp add: runner_payload_def slots_dict_def)

text \<open>With an output the runner prints its report and then raises, whatever the run gave; without one it ends well.\<close>

theorem runner_output_raises:
  assumes "bind_res loaded (\<lambda>candles. run_backtest reg candles symb tf min_confluence) = Inr r"
  shows "runner_main reg isoformat loaded symb tf min_confluence output =
    (print_report isoformat r, if output = None \<or> output = Some [] then Inr None else Inl AttributeError)"
  using assms by (simp add: runner_main_def payload_raises)

lemma summary_reads:
  "py_float_arg (sy_total_pnl (bk_summary_of r d)) = Num (fround 2 (bs_total_pnl r))
   \<and> py_float_arg (sy_final_balance (bk_summary_of r d)) = Num (fround 2 (bs_final_balance r))"
  by (simp add: bk_summary_of_def fmt_fixed_reads)

end
