(* ===== verification/Spec2Isabelle.thy ===== *)
theory Spec2Isabelle
  imports Config Market_Structure Strategy Risk Broker Execution Interleaving Stats Runner Backtest Feed Polling Logging Journal TradeLocker Live_Broker Engine
    Exec_Replay Trading_Run Engine_Runs Engine_Feeds Websocket Lifecycle Dashboard Api Telegram_Bot Py_Format Markdown Notify Messages Bot_Texts Scripts Csv_Loading Sample_Data Reports
begin

text \<open>
  A model of the trading bot \<open>prop-firm-scalp\<close> (\<open>src/app\<close>), written in Python, with theorems about it.

  \<^bold>\<open>The program.\<close>  A poller turns prices into candles (\<open>market/rest_poller.py\<close>) or fetches bars
  (\<open>integrations/finnhub\<close>).  The engine (\<open>engine/orchestrator.py\<close>) hands each candle to the strategy of
  its symbol (\<open>strategy/scalp_smc.py\<close>), which feeds a tracker of the market structure
  (\<open>strategy/market_structure.py\<close>) and answers with a signal or with nothing.  A signal goes to the executor
  (\<open>execution/executor.py\<close>), which asks the risk manager (\<open>risk/manager.py\<close>), places an order with a broker
  (\<open>broker/paper.py\<close>, or the client \<open>broker/tradelocker.py\<close> of a service), and registers the opened trade.
  A message of the broker closes a trade.  Trades go to a journal (\<open>journal\<close>) and, when
  closed, to the statistics (\<open>analytics/stats.py\<close>).  A dashboard (\<open>api/routes\<close>) can halt trading, change
  risk parameters and switch between the paper and the live broker; a chat bot (\<open>telegram_bot.py\<close>) is its client.  Messages of the
  broker come over a web socket (\<open>websocket/client.py\<close>); notifications go to two services (\<open>notifications\<close>).  Two backtests replay the strategy
  over recorded bars: \<open>analytics/backtest.py\<close> with the executor and the paper broker,
  \<open>backtesting/runner.py\<close> on its own; \<open>scripts/run_bt.py\<close> hands its signals to a library.

  \<^bold>\<open>The theories.\<close>  \<open>Prelude\<close>: results (\<open>py_exc + 'a\<close>), bounded lists and the lemmas on lists the components share.
  \<open>Py_Float\<close>: binary64 numbers as rationals with the rounding \<open>rnd\<close> after every operation, and the
  interface \<open>rounding\<close> of its laws.  \<open>Py_String\<close>, \<open>Py_Time\<close>: strings and datetimes, naive and aware, with \<open>utils/time.py\<close>.
  \<open>Py_Format\<close>: numbers as texts, the format specifications and \<open>repr\<close>.  \<open>Markdown\<close>: when a text obeys the marks of the chat service.
  \<open>Models\<close>: candle, signal, order and trade with their validators, and the session filter.
  \<open>Instruments\<close>: the registry (\<open>utils/instruments.py\<close>).  \<open>Config\<close>: the settings, their validators and the parsing of their lists.
  \<open>Market_Structure\<close>, \<open>Strategy\<close>: the trackers, the candle patterns, the confluence scores and \<open>on_candle\<close>.
  \<open>Risk\<close>: decisions, sizing, the day rollover.  \<open>Broker\<close>: the protocol as a locale, and the paper broker.
  \<open>Execution\<close>: the executor over any broker.
  \<open>Interleaving\<close>: the same, cut at the awaits for the broker, with several calls in progress.  \<open>Stats\<close>, \<open>Journal\<close>: what is recorded.
  \<open>Backtest\<close>, \<open>Runner\<close>: the two backtests.  \<open>Feed\<close>: the pollers;
  \<open>Polling\<close>: the REST poller's requests and its token, and both loops until they are stopped.  \<open>Logging\<close>: the configuration of the log.  \<open>TradeLocker\<close>: the REST client, with its lock.
  \<open>Live_Broker\<close>: the executor on that client.  \<open>Engine\<close>: the whole as a machine whose events are candles, messages and dashboard calls.
  \<open>Exec_Replay\<close>: the executor on a broker that replays answers.  \<open>Trading_Run\<close>: a run of the engine that opens a trade, bar by bar.
  \<open>Engine_Runs\<close>: whole runs of the engine.  \<open>Engine_Feeds\<close>: the loops of the pollers and the web socket with the engine as their callback.
  \<open>Websocket\<close>: the reconnect loop.  \<open>Lifecycle\<close>: the starting and stopping of the web socket, the REST poller, the engine and the process.
  \<open>Dashboard\<close>: what the dashboard answers.  \<open>Api\<close>: its routes.  \<open>Telegram_Bot\<close>, \<open>Bot_Texts\<close>: the commands of the chat bot with their
  requests, and the texts of the replies.  \<open>Notify\<close>: the dispatch, the texts for Telegram and the embeds for Discord.  \<open>Messages\<close>: which
  values reach a text.  \<open>Scripts\<close>: the precomputed signals of the library backtest.  \<open>Csv_Loading\<close>: how the three backtests make
  bars of rows.  \<open>Sample_Data\<close>: the generators of bars.  \<open>Reports\<close>: what the backtests and the debug script report.
  Within a theory the definitions come in the order of the code: the state as a record with the
  attributes of the class, then one definition per method or loop body, then the invariants and
  lemmas, then the properties.

  \<^bold>\<open>How code becomes a model.\<close>  An exception is a value: an operation that can raise returns \<open>py_exc + 'a\<close>, and the state beside it
  when it changes one before it raises.  A method that changes \<open>self\<close> returns the new state.  What the code gets from outside is an
  argument: clock readings and fresh identifiers (\<open>exec_env\<close>, \<open>call_env\<close>), the answers of the two
  HTTP services, the decoding of a token.  Callbacks are functions on a state, or outputs in the order of the calls
  (\<open>exec_output\<close>).  Floats are rounded after every operation; overflow to infinity and NaN are not reached
  from the finite inputs of the model.  Dictionaries are maps, with a list of keys where the order of insertion matters.
  Objects that two components share, such as the broker of the engine and the executor, are one field, and a second one from the
  moment the code lets them differ.

  \<^bold>\<open>What is shown.\<close>  \<open>Market_Structure\<close>: swings are pivots, breaks are labelled by the trend before them, active zones
  are untouched.  \<open>Strategy\<close>: what a signal satisfies, once per bar, and which exceptions escape.  \<open>Risk\<close>: when a signal is accepted,
  the loss at the stop, the daily cap, the halt.  \<open>Execution\<close>: trades come from accepted signals and fills, every profit is booked once, the cap
  holds through the executor.  \<open>Interleaving\<close>: without interleaving the two executors agree; by how much the cap is missed with it, and what a halt
  leaves in progress.  \<open>Stats\<close>, \<open>Journal\<close>: refinements of a list of trades and of a map.  \<open>Backtest\<close>, \<open>Runner\<close>: the books of a replay.
  \<open>Feed\<close>: the candles refine a cutting of the ticks into segments; no bar comes twice.  \<open>Polling\<close>: its turns are turns of \<open>Feed\<close>, and an expired token
  costs one price.  \<open>TradeLocker\<close>: requests return while the lock is
  free; a refused refresh never returns.  \<open>Live_Broker\<close>: what a live trade rests on.  \<open>Engine\<close>: journal, statistics and balance agree in every reachable
  state; what the kill switch stops, and what a switch of the environment forgets.
  \<open>Exec_Replay\<close>, \<open>Engine_Runs\<close>: the engine refines its executor, so that the daily cap holds from the candles on; every trade keeps the contract of a signal of its
  configured strategy, and every close that of an opened trade.  \<open>Engine_Feeds\<close>: the loops are runs of the engine.  \<open>Websocket\<close>: every message is delivered once, in order, and how long the pauses
  are.  \<open>Lifecycle\<close>: when a stop returns, and what it leaves open otherwise.  \<open>Dashboard\<close>: the performance shown agrees with the books.  \<open>Telegram_Bot\<close>: only administrators are obeyed, and the dashboard accepts what is sent.
  \<open>Api\<close>: its requests find
  their handlers.  \<open>Bot_Texts\<close>: which replies can be read.  \<open>Scripts\<close>: the dictionary of signals is exact.  \<open>Notify\<close>: a notification never raises,
  escaping can be undone, and what can be read back from a text.  \<open>Messages\<close>: a typing of the texts that every operation of the executor preserves.
  \<open>Csv_Loading\<close>, \<open>Sample_Data\<close>, \<open>Reports\<close>: when the loaders agree, that generated rows are valid bars in order, and which output never succeeds.
  \<open>Py_Format\<close>: the shortest decimal of a float reads back.

  \<^bold>\<open>Bounds.\<close>  Retries are bounded by the code: three placements of an order by the executor, three attempts of a request by the client,
  at most three HTTP calls in each; so no fuel is chosen by the model.  The search for the shortest decimal of a float ends at seventeen digits, which always read back.  Loops that run until the bot is stopped are sequences of their turns: a lemma
  over them is an induction on the sequence, or on the reachable states of the engine (\<open>engine_reach\<close>).  An operation of the client that
  never returns has the result \<open>None\<close>.

  \<^bold>\<open>Not modelled.\<close>  The records written to the log, the texts \<open>detail\<close> of a rejection and those of exceptions, which are arguments of
  the messages that show them; the HTTP, web socket and chat libraries, uvicorn and its middleware, SQLAlchemy (the order of the journal's
  listing is an argument), pydantic-settings, the random generators (the draws are arguments), the parsing of cells and command lines and the sorting of rows by the data
  frame libraries; the encoding in JSON and the text of a datetime.  The classes \<open>strategy/base.py\<close> and \<open>broker/base.py\<close> have no code of
  their own; they are the locales \<open>signal_source\<close> and \<open>broker_client\<close>.  Operations
  of one component are atomic, except in \<open>Interleaving\<close> and \<open>Lifecycle\<close> and where a lemma says what two interleaved calls can do.
\<close>

end
